(* ===== verification/Gateway_Prelude.thy ===== *)
theory Gateway_Prelude
  imports Main "HOL-Library.List_Lexorder"
begin

text \<open>
  What every component of the development shares: the exceptions the gateway raises, results that
  are either an exception or a value, atomic state transformers that may fail, and generic
  lemmas on lists.  Python text is a list of Unicode code points (\<open>pystr\<close>); a literal of the
  source is written \<open>py ''...''\<close>.  The order of \<open>HOL-Library.List_Lexorder\<close> on code point
  lists is Python's order on \<open>str\<close> and, because UTF-8 keeps the order of code points, also
  the binary collation SQLite uses for TEXT columns.
\<close>

named_theorems result_simps \<open>rewriting of results and of failing state transformers\<close>

subsection \<open>Python text\<close>

type_synonym pystr = "nat list"

definition py :: "string \<Rightarrow> pystr" where
  "py s = map of_char s"

lemma py_inject [simp]: "py s = py t \<longleftrightarrow> s = t"
  by (simp add: py_def inj_of_char)

lemma length_py [simp]: "length (py s) = length s"
  by (simp add: py_def)

lemma py_eq_Nil [simp]: "py s = [] \<longleftrightarrow> s = []" "[] = py s \<longleftrightarrow> s = []"
  by (simp_all add: py_def)

lemma py_append: "py (s @ t) = py s @ py t"
  by (simp add: py_def)

subsection \<open>Exceptions\<close>

text \<open>
  One constructor per exception the modelled code raises or distinguishes.
  \<open>UnicodeEncodeError\<close> and pydantic's \<open>ValidationError\<close> (here \<open>ValueError\<close>) are
  subclasses of \<open>ValueError\<close>; \<open>DecimalOverflow\<close> is \<open>decimal.Overflow\<close>, an
  \<open>ArithmeticError\<close> and no \<open>ValueError\<close>.  \<open>TransportError\<close> is \<open>httpx.HTTPError\<close>
  without its subclasses \<open>ConnectError\<close> and \<open>ConnectTimeout\<close>, both \<open>ConnectFailure\<close> here;
  \<open>ClientDisconnect\<close> is Starlette's, \<open>LookupError\<close> stands for \<open>KeyError\<close> and
  \<open>IndexError\<close>, and \<open>ProofError\<close> is the operator script's.
\<close>

record gateway_failure =
  failure_code :: pystr
  failure_retryable :: bool
  failure_status :: int
  failure_retry_after :: "int option"

datatype exn =
    ValueError string
  | TypeError
  | RecursionError
  | UnicodeEncodeError
  | DecimalOverflow
  | StoreFault string
  | RequestForbidden
  | RequestIdentityConflict
  | RequestCapacityLimited
  | RequestExpired
  | RequestUnknown
  | RequestNotTerminal
  | AcknowledgementConflict
  | IntegrityError
  | OperationalError
  | AssertionError
  | ConfigurationError string
  | WorkerUnavailable string
  | WorkerOutcomeAmbiguous string
  | InvalidWorkerOutput string
  | TimeoutError
  | ConnectFailure
  | TransportError
  | OSError
  | ClientDisconnect
  | LookupError
  | ProofError string
  | GatewayFailure gateway_failure

fun is_value_error :: "exn \<Rightarrow> bool" where
  "is_value_error (ValueError _) = True"
| "is_value_error UnicodeEncodeError = True"
| "is_value_error _ = False"

fun is_store_error :: "exn \<Rightarrow> bool" where
  "is_store_error (StoreFault _) = True"
| "is_store_error RequestForbidden = True"
| "is_store_error RequestIdentityConflict = True"
| "is_store_error RequestCapacityLimited = True"
| "is_store_error RequestExpired = True"
| "is_store_error RequestUnknown = True"
| "is_store_error RequestNotTerminal = True"
| "is_store_error AcknowledgementConflict = True"
| "is_store_error _ = False"

subsection \<open>Results\<close>

type_synonym 'a result = "exn + 'a"

definition bind_res :: "'a result \<Rightarrow> ('a \<Rightarrow> 'b result) \<Rightarrow> 'b result" where
  "bind_res m f = (case m of Inl e \<Rightarrow> Inl e | Inr x \<Rightarrow> f x)"

lemma bind_res_simps [simp, result_simps]:
  "bind_res (Inl e) f = Inl e"
  "bind_res (Inr x) f = f x"
  by (simp_all add: bind_res_def)

lemma bind_res_eq_Inr:
  "bind_res m f = Inr y \<longleftrightarrow> (\<exists>x. m = Inr x \<and> f x = Inr y)"
  by (cases m) (auto simp: bind_res_def)

lemma bind_res_eq_Inl:
  "bind_res m f = Inl e \<longleftrightarrow> m = Inl e \<or> (\<exists>x. m = Inr x \<and> f x = Inl e)"
  by (cases m) (auto simp: bind_res_def)

lemma bind_res_cong [fundef_cong]:
  "m = m' \<Longrightarrow> (\<And>x. m' = Inr x \<Longrightarrow> f x = f' x) \<Longrightarrow> bind_res m f = bind_res m' f'"
  by (cases m') (auto simp: bind_res_def)

text \<open>\<open>raises E m\<close>: \<open>m\<close> raises nothing but errors in \<open>E\<close>.\<close>

definition raises :: "(exn \<Rightarrow> bool) \<Rightarrow> 'a result \<Rightarrow> bool" where
  "raises E m = (\<forall>e. m = Inl e \<longrightarrow> E e)"

named_theorems raises_intros \<open>errors of composed results\<close>

lemma raises_simps [simp]: "raises E (Inr x)" "raises E (Inl e) = E e"
  by (simp_all add: raises_def)

lemma raises_mono: "raises E m \<Longrightarrow> (\<And>e. E e \<Longrightarrow> E' e) \<Longrightarrow> raises E' m"
  by (simp add: raises_def)

lemma raises_bind [raises_intros]: "raises E m \<Longrightarrow> (\<And>x. m = Inr x \<Longrightarrow> raises E (f x)) \<Longrightarrow> raises E (bind_res m f)"
  by (cases m) (simp_all add: raises_def)

lemma raises_if [raises_intros]: "(c \<Longrightarrow> raises E a) \<Longrightarrow> (\<not> c \<Longrightarrow> raises E b) \<Longrightarrow> raises E (if c then a else b)"
  by simp

lemma raises_prod [raises_intros]: "(\<And>a b. p = (a, b) \<Longrightarrow> raises E (f a b)) \<Longrightarrow> raises E (case p of (a, b) \<Rightarrow> f a b)"
  by (cases p) simp

lemma raises_option [raises_intros]:
  "(v = None \<Longrightarrow> raises E a) \<Longrightarrow> (\<And>x. v = Some x \<Longrightarrow> raises E (f x)) \<Longrightarrow>
    raises E (case v of None \<Rightarrow> a | Some x \<Rightarrow> f x)"
  by (cases v) simp_all

lemma raises_map_sum: "raises E m \<Longrightarrow> raises E (map_sum id f m)"
  by (cases m) simp_all

text \<open>A check that raises when its condition fails, the shape of most validators.\<close>

definition check :: "bool \<Rightarrow> exn \<Rightarrow> unit result" where
  "check c e = (if c then Inr () else Inl e)"

lemma check_eq_Inr [simp]: "check c e = Inr u \<longleftrightarrow> c"
  by (simp add: check_def)

lemma raises_check [raises_intros]: "E e \<Longrightarrow> raises E (check c e)"
  by (simp add: check_def)

lemma check_eq_Inl [simp]: "check c e = Inl e' \<longleftrightarrow> \<not> c \<and> e' = e"
  by (auto simp: check_def)

text \<open>The loop that validates each element and stops at the first exception.\<close>

fun map_res :: "('a \<Rightarrow> 'b result) \<Rightarrow> 'a list \<Rightarrow> 'b list result" where
  "map_res f [] = Inr []"
| "map_res f (x # xs) = bind_res (f x) (\<lambda>y. bind_res (map_res f xs) (\<lambda>ys. Inr (y # ys)))"

lemma map_res_cong [fundef_cong]:
  "xs = ys \<Longrightarrow> (\<And>x. x \<in> set ys \<Longrightarrow> f x = g x) \<Longrightarrow> map_res f xs = map_res g ys"
  by (induction ys arbitrary: xs) (auto intro!: bind_res_cong)

lemma raises_map_res: "(\<And>x. x \<in> set xs \<Longrightarrow> raises E (f x)) \<Longrightarrow> raises E (map_res f xs)"
  by (induction xs) (auto intro!: raises_bind)

lemma map_res_Inr_length: "map_res f xs = Inr ys \<Longrightarrow> length ys = length xs"
  by (induction xs arbitrary: ys) (auto simp: bind_res_eq_Inr)

lemma map_res_Inr_iff:
  "map_res f xs = Inr ys \<longleftrightarrow> list_all2 (\<lambda>x y. f x = Inr y) xs ys"
  by (induction xs arbitrary: ys) (auto simp: bind_res_eq_Inr list_all2_Cons1)

subsection \<open>Failing state transformers and transactions\<close>

text \<open>
  The body of a \<open>with self._transaction()\<close> block is a function from the database to an
  outcome and the database it left.  Leaving the block by an exception rolls the database
  back; leaving it by \<open>return\<close> commits.
\<close>

type_synonym ('s, 'a) action = "'s \<Rightarrow> 'a result \<times> 's"

definition atomically :: "('s, 'a) action \<Rightarrow> ('s, 'a) action" where
  "atomically body s = (case body s of (Inl e, _) \<Rightarrow> (Inl e, s) | (Inr x, s') \<Rightarrow> (Inr x, s'))"

lemma atomically_error: "atomically body s = (Inl e, s') \<Longrightarrow> s' = s"
  by (auto simp: atomically_def split: prod.splits sum.splits)

lemma atomically_Inr [result_simps]: "atomically body s = (Inr x, s') \<longleftrightarrow> body s = (Inr x, s')"
  by (auto simp: atomically_def split: prod.splits sum.splits)

lemma atomically_snd:
  "snd (atomically body s) = (case fst (body s) of Inl e \<Rightarrow> s | Inr x \<Rightarrow> snd (body s))"
  by (auto simp: atomically_def split: prod.splits sum.splits)

lemma atomically_fst [result_simps]: "fst (atomically body s) = fst (body s)"
  by (auto simp: atomically_def split: prod.splits sum.splits)

text \<open>The statements a transaction is made of.\<close>

definition act_return :: "'a \<Rightarrow> ('s, 'a) action" where
  "act_return x s = (Inr x, s)"

definition act_raise :: "exn \<Rightarrow> ('s, 'a) action" where
  "act_raise e s = (Inl e, s)"

definition act_lift :: "'a result \<Rightarrow> ('s, 'a) action" where
  "act_lift r s = (r, s)"

definition act_query :: "('s \<Rightarrow> 'a result) \<Rightarrow> ('s, 'a) action" where
  "act_query f s = (f s, s)"

definition act_update :: "('s \<Rightarrow> 's) \<Rightarrow> ('s, unit) action" where
  "act_update f s = (Inr (), f s)"

definition act_check :: "bool \<Rightarrow> exn \<Rightarrow> ('s, unit) action" where
  "act_check c e s = (if c then Inr () else Inl e, s)"

definition act_bind :: "('s, 'a) action \<Rightarrow> ('a \<Rightarrow> ('s, 'b) action) \<Rightarrow> ('s, 'b) action" where
  "act_bind m f s = (case m s of (Inl e, s') \<Rightarrow> (Inl e, s') | (Inr x, s') \<Rightarrow> f x s')"

lemma act_simps [result_simps]:
  "act_return x s = (Inr x, s)"
  "act_raise e s = (Inl e, s)"
  "act_lift r s = (r, s)"
  "act_query f s = (f s, s)"
  "act_update g s = (Inr (), g s)"
  "act_check c e s = (if c then Inr () else Inl e, s)"
  by (simp_all add: act_return_def act_raise_def act_lift_def act_query_def act_update_def act_check_def)

lemma act_bind_simps [result_simps]:
  "act_bind (act_return x) f s = f x s"
  "act_bind (act_raise e) f s = (Inl e, s)"
  "act_bind (act_update g) h s = h () (g s)"
  "act_bind (act_lift r) f s = (case r of Inl e \<Rightarrow> (Inl e, s) | Inr x \<Rightarrow> f x s)"
  "act_bind (act_query q) f s = (case q s of Inl e \<Rightarrow> (Inl e, s) | Inr x \<Rightarrow> f x s)"
  "act_bind (act_check c e) h s = (if c then h () s else (Inl e, s))"
  by (simp_all add: act_bind_def act_simps)

subsection \<open>Lists\<close>

lemma find_Some_in: "find P xs = Some x \<Longrightarrow> x \<in> set xs \<and> P x"
  by (auto simp: find_Some_iff)

lemma find_map_same:
  assumes "\<And>x. P (f x) = P x"
  shows "find P (map f xs) = map_option f (find P xs)"
  using assms by (induction xs) auto

lemma find_unique_key:
  assumes "distinct (map k xs)" "x \<in> set xs" "k x = v"
  shows "find (\<lambda>y. k y = v) xs = Some x"
  using assms by (induction xs) (auto intro: rev_image_eqI)

lemma find_filter_key:
  assumes "distinct (map k xs)"
  shows "find (\<lambda>y. k y = v) (filter Q xs) =
    (case find (\<lambda>y. k y = v) xs of None \<Rightarrow> None | Some y \<Rightarrow> if Q y then Some y else None)"
  using assms by (induction xs) (auto dest!: find_Some_in split: option.splits)

lemma length_filter_mono:
  "(\<And>x. x \<in> set xs \<Longrightarrow> P x \<Longrightarrow> Q x) \<Longrightarrow> length (filter P xs) \<le> length (filter Q xs)"
  by (induction xs) (auto simp: le_SucI)

lemma length_filter_map_mono:
  "(\<And>x. x \<in> set xs \<Longrightarrow> P (f x) \<Longrightarrow> Q x) \<Longrightarrow>
    length (filter P (map f xs)) \<le> length (filter Q xs)"
  by (induction xs) (auto simp: le_SucI)

end
