(* ===== verification/Gateway_Program.thy ===== *)
theory Gateway_Program
  imports Gateway_Prelude
begin

text \<open>
  Programs that interact.  The request handlers and the workers read clocks, draw identifiers,
  call other systems, and share state with other threads between those points.  A program is
  the tree of what it does next: end with a result, ask the environment something and go on
  with the reply, or change the shared state in one atomic step and go on with what it saw
  before the change.  \<open>try ... except\<close> and \<open>try ... finally\<close> are combinators; the weakest
  precondition \<open>wp\<close> carries a ghost state through a program and gives the rules the components
  are verified with.
\<close>

datatype ('s, 'q, 'r, 'a) program =
    Finish "'a result"
  | Ask 'q "'r \<Rightarrow> ('s, 'q, 'r, 'a) program"
  | Change "'s \<Rightarrow> 's" "'s \<Rightarrow> ('s, 'q, 'r, 'a) program"

named_theorems wp_rules \<open>weakest preconditions of the program constructs\<close>

abbreviation give :: "'a \<Rightarrow> ('s, 'q, 'r, 'a) program" where
  "give x \<equiv> Finish (Inr x)"

abbreviation throw :: "exn \<Rightarrow> ('s, 'q, 'r, 'a) program" where
  "throw e \<equiv> Finish (Inl e)"

text \<open>\<open>on_result p f\<close> runs \<open>p\<close> and goes on with its result, be it a value or an exception.\<close>

primrec on_result :: "('s, 'q, 'r, 'a) program \<Rightarrow> ('a result \<Rightarrow> ('s, 'q, 'r, 'b) program) \<Rightarrow> ('s, 'q, 'r, 'b) program" where
  "on_result (Finish r) f = f r"
| "on_result (Ask q k) f = Ask q (\<lambda>r. on_result (k r) f)"
| "on_result (Change u k) f = Change u (\<lambda>s. on_result (k s) f)"

definition bind_p :: "('s, 'q, 'r, 'a) program \<Rightarrow> ('a \<Rightarrow> ('s, 'q, 'r, 'b) program) \<Rightarrow> ('s, 'q, 'r, 'b) program" where
  "bind_p p f = on_result p (\<lambda>r. case r of Inl e \<Rightarrow> throw e | Inr x \<Rightarrow> f x)"

text \<open>The handler gets every exception and raises again those its clauses do not name.\<close>

definition try_except :: "('s, 'q, 'r, 'a) program \<Rightarrow> (exn \<Rightarrow> ('s, 'q, 'r, 'a) program) \<Rightarrow> ('s, 'q, 'r, 'a) program" where
  "try_except p h = on_result p (\<lambda>r. case r of Inl e \<Rightarrow> h e | Inr x \<Rightarrow> give x)"

definition try_finally :: "('s, 'q, 'r, 'a) program \<Rightarrow> ('s, 'q, 'r, unit) program \<Rightarrow> ('s, 'q, 'r, 'a) program" where
  "try_finally p c = on_result p (\<lambda>r. bind_p c (\<lambda>_. Finish r))"

definition check_p :: "bool \<Rightarrow> exn \<Rightarrow> ('s, 'q, 'r, unit) program" where
  "check_p c e = (if c then give () else throw e)"

lemma on_result_simps:
  "bind_p (give x) f = f x"
  "bind_p (throw e) f = throw e"
  "try_except (give x) h = give x"
  "try_except (throw e) h = h e"
  "try_finally (Finish r) c = bind_p c (\<lambda>_. Finish r)"
  by (simp_all add: bind_p_def try_except_def try_finally_def)

lemma bind_assoc: "bind_p (bind_p p f) g = bind_p p (\<lambda>x. bind_p (f x) g)"
  unfolding bind_p_def by (induction p) (auto split: sum.split)

subsection \<open>Runs on a script\<close>

text \<open>
  The run of one program with nobody else around: the replies are read off a list, the state
  changes where the program changes it.  The list of the questions is returned, and \<open>None\<close>
  for a list that is too short.
\<close>

primrec play :: "('s, 'q, 'r, 'a) program \<Rightarrow> 'r list \<Rightarrow> 's \<Rightarrow> 'q list \<times> 's \<times> 'a result option" where
  "play (Finish x) rs s = ([], s, Some x)"
| "play (Ask q k) rs s =
    (case rs of
       [] \<Rightarrow> ([q], s, None)
     | r # rs' \<Rightarrow> (case play (k r) rs' s of (qs, s', x) \<Rightarrow> (q # qs, s', x)))"
| "play (Change u k) rs s = play (k s) rs (u s)"

subsection \<open>Weakest preconditions\<close>

text \<open>
  A discipline says which question a thread may ask, and which change it may make, in which
  ghost state, and which ghost state it goes to.  \<open>wp\<close> is the ghost states from which a program
  keeps the discipline whatever the environment answers and does in between, and ends in the
  postcondition.
\<close>

record ('s, 'q, 'r, 'g) discipline =
  may_ask :: "'g \<Rightarrow> 'q \<Rightarrow> 'r \<Rightarrow> 'g set"
  may_change :: "'g \<Rightarrow> 's \<Rightarrow> 's \<Rightarrow> 'g set"
  replies :: "'q \<Rightarrow> 'r \<Rightarrow> bool"
  states :: "'s \<Rightarrow> bool"

primrec wp :: "('s, 'q, 'r, 'g) discipline \<Rightarrow> ('s, 'q, 'r, 'a) program \<Rightarrow> ('a result \<Rightarrow> 'g \<Rightarrow> bool) \<Rightarrow> 'g \<Rightarrow> bool" where
  "wp d (Finish r) Q g = Q r g"
| "wp d (Ask q k) Q g = (\<forall>r. replies d q r \<longrightarrow> (\<exists>g' \<in> may_ask d g q r. wp d (k r) Q g'))"
| "wp d (Change u k) Q g = (\<forall>s. states d s \<longrightarrow> (\<exists>g' \<in> may_change d g s (u s). wp d (k s) Q g'))"

lemma wp_on_result [wp_rules]: "wp d (on_result p f) Q g = wp d p (\<lambda>r g'. wp d (f r) Q g') g"
  by (induction p arbitrary: g) auto

lemma wp_mono:
  assumes "\<And>r g'. Q r g' \<Longrightarrow> Q' r g'"
  shows "wp d p Q g \<Longrightarrow> wp d p Q' g"
proof (induction p arbitrary: g)
  case (Finish r)
  then show ?case using assms by simp
next
  case (Ask q k)
  then show ?case by simp (metis rangeI)
next
  case (Change u k)
  then show ?case by simp (metis rangeI)
qed

lemma wp_bind [wp_rules]:
  "wp d (bind_p p f) Q g = wp d p (\<lambda>r g'. case r of Inl e \<Rightarrow> Q (Inl e) g' | Inr x \<Rightarrow> wp d (f x) Q g') g"
  unfolding bind_p_def wp_on_result
  by (intro arg_cong [where f = "\<lambda>P. wp d p P g"] ext) (auto split: sum.split)

lemma wp_try_except [wp_rules]:
  "wp d (try_except p h) Q g = wp d p (\<lambda>r g'. case r of Inl e \<Rightarrow> wp d (h e) Q g' | Inr x \<Rightarrow> Q (Inr x) g') g"
  unfolding try_except_def wp_on_result
  by (intro arg_cong [where f = "\<lambda>P. wp d p P g"] ext) (auto split: sum.split)

lemma wp_try_finally [wp_rules]:
  "wp d (try_finally p c) Q g =
    wp d p (\<lambda>r g'. wp d c (\<lambda>u g''. case u of Inl e \<Rightarrow> Q (Inl e) g'' | Inr _ \<Rightarrow> Q r g'') g') g"
  by (simp add: try_finally_def wp_on_result wp_bind cong: sum.case_cong)

lemma wp_check [wp_rules]: "wp d (check_p c e) Q g = (if c then Q (Inr ()) g else Q (Inl e) g)"
  by (simp add: check_p_def)

subsection \<open>Bounded interaction\<close>

text \<open>What the questions of a program cost together, at most, whatever it is answered.\<close>

primrec costs_within :: "('q \<Rightarrow> nat) \<Rightarrow> ('s, 'q, 'r, 'a) program \<Rightarrow> nat \<Rightarrow> bool" where
  "costs_within w (Finish x) n = True"
| "costs_within w (Ask q k) n = (w q \<le> n \<and> (\<forall>r. costs_within w (k r) (n - w q)))"
| "costs_within w (Change u k) n = (\<forall>s. costs_within w (k s) n)"

lemma costs_mono: "costs_within w p n \<Longrightarrow> n \<le> m \<Longrightarrow> costs_within w p m"
proof (induction p arbitrary: n m)
  case (Ask q k)
  have "costs_within w (k r) (m - w q)" for r
    by (rule Ask.IH [of "k r" "n - w q"]) (use Ask.prems in auto)
  then show ?case using Ask.prems by auto
next
  case (Change u k)
  have "costs_within w (k s) m" for s
    by (rule Change.IH [of "k s" n]) (use Change.prems in auto)
  then show ?case by simp
qed simp

lemma costs_on_result:
  "costs_within w p n \<Longrightarrow> (\<And>r. costs_within w (f r) m) \<Longrightarrow> costs_within w (on_result p f) (n + m)"
proof (induction p arbitrary: n)
  case (Finish x)
  then show ?case using costs_mono [of w "f x" m "n + m"] by simp
next
  case (Ask q k)
  have "costs_within w (on_result (k r) f) (n - w q + m)" for r
    by (rule Ask.IH) (use Ask.prems in auto)
  then show ?case using Ask.prems by simp
next
  case (Change u k)
  have "costs_within w (on_result (k s) f) (n + m)" for s
    by (rule Change.IH) (use Change.prems in auto)
  then show ?case by simp
qed

lemma costs_bind:
  assumes "costs_within w p n" "\<And>x. costs_within w (f x) (N - n)" "n \<le> N"
  shows "costs_within w (bind_p p f) N"
  using costs_on_result [OF assms(1), of "\<lambda>r. case r of Inl e \<Rightarrow> throw e | Inr x \<Rightarrow> f x" "N - n"] assms(2,3)
  by (simp add: bind_p_def split: sum.split)

lemma costs_except:
  assumes "costs_within w p n" "\<And>e. costs_within w (h e) (N - n)" "n \<le> N"
  shows "costs_within w (try_except p h) N"
  using costs_on_result [OF assms(1), of "\<lambda>r. case r of Inl e \<Rightarrow> h e | Inr x \<Rightarrow> give x" "N - n"] assms(2,3)
  by (simp add: try_except_def split: sum.split)

lemma costs_finally:
  assumes "costs_within w p n" "costs_within w c (N - n)" "n \<le> N"
  shows "costs_within w (try_finally p c) N"
proof -
  have c: "costs_within w (bind_p c (\<lambda>_. Finish r)) (N - n)" for r
    using costs_bind [OF assms(2), of "\<lambda>_. Finish r" "N - n"] by simp
  then show ?thesis
    using costs_on_result [OF assms(1) c] assms(3) by (simp add: try_finally_def)
qed

lemma costs_play: "costs_within w p n \<Longrightarrow> play p rs s = (qs, s', x) \<Longrightarrow> sum_list (map w qs) \<le> n"
proof (induction p arbitrary: n rs s qs)
  case (Ask q k)
  show ?case
  proof (cases rs)
    case Nil
    then show ?thesis using Ask.prems by auto
  next
    case (Cons r rs')
    then obtain qs' where qs: "qs = q # qs'" "play (k r) rs' s = (qs', s', x)"
      using Ask.prems(2) by (auto split: prod.splits)
    have "sum_list (map w qs') \<le> n - w q" using Ask.IH [OF _ _ qs(2)] Ask.prems(1) by auto
    moreover have "w q \<le> n" using Ask.prems(1) by simp
    ultimately show ?thesis using qs(1) by simp
  qed
next
  case (Change u k)
  then show ?case using Change.IH [of "k s" n rs "u s" qs] by simp
qed simp

lemma play_ends: "costs_within (\<lambda>_. 1) p n \<Longrightarrow> n \<le> length rs \<Longrightarrow> play p rs s = (qs, s', x) \<Longrightarrow> \<exists>y. x = Some y"
proof (induction p arbitrary: n rs s qs)
  case (Ask q k)
  then obtain r rs' where rs: "rs = r # rs'" by (cases rs) auto
  then obtain qs' where "play (k r) rs' s = (qs', s', x)" using Ask.prems(3) by (auto split: prod.splits)
  then show ?case using Ask.IH [of "k r" "n - 1" rs' s qs'] Ask.prems rs by auto
next
  case (Change u k)
  then show ?case using Change.IH [of "k s" n rs "u s" qs] by simp
qed auto

text \<open>Every question satisfies a predicate, as long as the replies are from a set.\<close>

primrec asks_among :: "'r set \<Rightarrow> ('q \<Rightarrow> bool) \<Rightarrow> ('s, 'q, 'r, 'a) program \<Rightarrow> bool" where
  "asks_among R P (Finish x) = True"
| "asks_among R P (Ask q k) = (P q \<and> (\<forall>r \<in> R. asks_among R P (k r)))"
| "asks_among R P (Change u k) = (\<forall>s. asks_among R P (k s))"

lemma among_on_result: "asks_among R P p \<Longrightarrow> (\<And>r. asks_among R P (f r)) \<Longrightarrow> asks_among R P (on_result p f)"
  by (induction p) auto

lemma among_bind: "asks_among R P p \<Longrightarrow> (\<And>x. asks_among R P (f x)) \<Longrightarrow> asks_among R P (bind_p p f)"
  unfolding bind_p_def by (rule among_on_result) (auto split: sum.split)

lemma among_except: "asks_among R P p \<Longrightarrow> (\<And>e. asks_among R P (h e)) \<Longrightarrow> asks_among R P (try_except p h)"
  unfolding try_except_def by (rule among_on_result) (auto split: sum.split)

lemma among_finally: "asks_among R P p \<Longrightarrow> asks_among R P c \<Longrightarrow> asks_among R P (try_finally p c)"
  unfolding try_finally_def by (rule among_on_result) (auto intro: among_bind)

lemma among_play: "asks_among R P p \<Longrightarrow> set rs \<subseteq> R \<Longrightarrow> play p rs s = (qs, s', x) \<Longrightarrow> q \<in> set qs \<Longrightarrow> P q"
proof (induction p arbitrary: rs s qs)
  case (Ask q' k)
  then show ?case by (auto split: list.splits prod.splits) blast
next
  case (Change u k)
  then show ?case by simp (metis rangeI)
qed simp

end
