(* ===== verification/Py_Text.thy ===== *)
theory Py_Text
  imports Gateway_Prelude
begin

text \<open>
  The operations of Python's \<open>str\<close> the gateway uses, on lists of code points: the Unicode
  decimal digits that the regular expression class \<open>\d\<close> and \<open>int()\<close> accept, white space
  (\<open>str.isspace\<close>, \<open>strip\<close>), \<open>casefold\<close> as far as a comparison with ASCII text can see
  it, the fixed-width decimal fields of \<open>strftime\<close>, and UTF-8 encoding, which fails on
  surrogates.
\<close>

subsection \<open>Character classes\<close>

text \<open>
  The Unicode decimal digits (category Nd) come in runs of ten; the list holds the code point of
  each run's zero.
\<close>

definition nd_zeros :: "nat list" where
  "nd_zeros = [48, 1632, 1776, 1984, 2406, 2534, 2662, 2790, 2918, 3046, 3174, 3302, 3430, 3558,
    3664, 3792, 3872, 4160, 4240, 6112, 6160, 6470, 6608, 6784, 6800, 6992, 7088, 7232, 7248,
    42528, 43216, 43264, 43472, 43504, 43600, 44016, 65296, 66720, 68912, 69734, 69872, 69942,
    70096, 70384, 70736, 70864, 71248, 71360, 71472, 71904, 72016, 72784, 73040, 73120, 92768,
    92864, 93008, 120782, 120792, 120802, 120812, 120822, 123200, 123632, 125264, 130032]"

definition udigit :: "nat \<Rightarrow> nat option" where
  "udigit c = map_option (\<lambda>z. c - z) (find (\<lambda>z. z \<le> c \<and> c < z + 10) nd_zeros)"

definition adigit :: "nat \<Rightarrow> nat option" where
  "adigit c = (if 48 \<le> c \<and> c < 58 then Some (c - 48) else None)"

lemma udigit_ascii [simp]: "d < 10 \<Longrightarrow> udigit (48 + d) = Some d"
  by (simp add: udigit_def nd_zeros_def)

lemma udigit_of_adigit: "adigit c = Some d \<Longrightarrow> udigit c = Some d"
proof -
  assume "adigit c = Some d"
  then have "48 \<le> c" "c < 58" "d = c - 48" by (auto simp: adigit_def split: if_splits)
  then show ?thesis by (simp add: udigit_def nd_zeros_def)
qed

lemma adigit_less: "adigit c = Some d \<Longrightarrow> d < 10"
  by (auto simp: adigit_def split: if_splits)

lemma udigit_less: "udigit c = Some d \<Longrightarrow> d < 10"
  by (auto simp: udigit_def dest!: find_Some_in)

definition is_space :: "nat \<Rightarrow> bool" where
  "is_space c = (c \<in> set [9, 10, 11, 12, 13, 28, 29, 30, 31, 32, 133, 160, 5760, 8192, 8193, 8194,
    8195, 8196, 8197, 8198, 8199, 8200, 8201, 8202, 8232, 8233, 8239, 8287, 12288])"

definition is_ascii_text :: "pystr \<Rightarrow> bool" where
  "is_ascii_text s = list_all (\<lambda>c. c < 128) s"

definition has_space :: "pystr \<Rightarrow> bool" where
  "has_space s = list_ex is_space s"

definition strip :: "pystr \<Rightarrow> pystr" where
  "strip s = rev (dropWhile is_space (rev (dropWhile is_space s)))"

lemma strip_no_space: "\<not> has_space s \<Longrightarrow> strip s = s"
proof -
  assume "\<not> has_space s"
  then have none: "\<forall>c \<in> set s. \<not> is_space c"
    by (simp add: has_space_def list_ex_iff)
  then have "dropWhile is_space s = s" by (cases s) auto
  moreover from none have "dropWhile is_space (rev s) = rev s" by (cases "rev s") auto
  ultimately show ?thesis by (simp add: strip_def)
qed

text \<open>
  \<open>str.casefold\<close> on one code point: exact below 256, and above for every code point
  whose folding holds an ASCII letter.  The other code points keep a non-ASCII folding, so a
  comparison of the result with an ASCII word is exact.
\<close>

definition casefold_char :: "nat \<Rightarrow> nat list" where
  "casefold_char c =
    (if 65 \<le> c \<and> c \<le> 90 then [c + 32]
     else if 192 \<le> c \<and> c \<le> 222 \<and> c \<noteq> 215 then [c + 32]
     else if c = 181 then [956]
     else if c = 223 \<or> c = 7838 then [115, 115]
     else if c = 304 then [105, 775]
     else if c = 329 then [700, 110]
     else if c = 383 then [115]
     else if c = 496 then [106, 780]
     else if c = 7830 then [104, 817]
     else if c = 7831 then [116, 776]
     else if c = 7832 then [119, 778]
     else if c = 7833 then [121, 778]
     else if c = 7834 then [97, 702]
     else if c = 8490 then [107]
     else if c = 64256 then [102, 102]
     else if c = 64257 then [102, 105]
     else if c = 64258 then [102, 108]
     else if c = 64259 then [102, 102, 105]
     else if c = 64260 then [102, 102, 108]
     else if c = 64261 \<or> c = 64262 then [115, 116]
     else [c])"

definition casefold :: "pystr \<Rightarrow> pystr" where
  "casefold s = concat (map casefold_char s)"

subsection \<open>Fixed-width decimal fields\<close>

definition tens :: "int \<Rightarrow> nat" where
  "tens n = 48 + nat (n div 10 mod 10)"

definition units :: "int \<Rightarrow> nat" where
  "units n = 48 + nat (n mod 10)"

definition pad2 :: "int \<Rightarrow> pystr" where
  "pad2 n = [tens n, units n]"

definition pad4 :: "int \<Rightarrow> pystr" where
  "pad4 n = pad2 (n div 100) @ pad2 (n mod 100)"

lemma length_pad [simp]: "length (pad2 n) = 2" "length (pad4 n) = 4"
  by (simp_all add: pad2_def pad4_def)

lemma div_mod_less_iff:
  fixes a b k :: int
  assumes "0 < k"
  shows "a < b \<longleftrightarrow> a div k < b div k \<or> a div k = b div k \<and> a mod k < b mod k"
proof -
  have ab: "a = k * (a div k) + a mod k" "b = k * (b div k) + b mod k" by simp_all
  have "a div k \<le> b div k" if "a \<le> b" using that assms by (rule zdiv_mono1)
  moreover have "b div k \<le> a div k" if "b \<le> a" using that assms by (rule zdiv_mono1)
  moreover have "a - b = a mod k - b mod k" if "a div k = b div k"
    using that ab by (metis add_diff_cancel_left)
  ultimately show ?thesis by linarith
qed

lemma div_mod_eq_iff:
  fixes a b k :: int
  shows "a = b \<longleftrightarrow> a div k = b div k \<and> a mod k = b mod k"
  by (metis mult_div_mod_eq)

lemma digits_append_le:
  fixes p q p' q' :: int
  assumes "0 \<le> p" "0 \<le> q" "0 \<le> p'" "0 \<le> q'"
  shows "[48 + nat p, 48 + nat q] @ s \<le> [48 + nat p', 48 + nat q'] @ t \<longleftrightarrow>
    (p < p' \<or> p = p' \<and> q < q') \<or> (p = p' \<and> q = q') \<and> s \<le> t"
  using assms by (auto simp: eq_nat_nat_iff)

lemma pad2_append_le:
  assumes "0 \<le> a" "a < 100" "0 \<le> b" "b < 100"
  shows "pad2 a @ s \<le> pad2 b @ t \<longleftrightarrow> a < b \<or> a = b \<and> s \<le> t"
proof -
  have "a div 10 mod 10 = a div 10" "b div 10 mod 10 = b div 10"
    using assms by (auto intro!: mod_pos_pos_trivial)
  then have "pad2 a = [48 + nat (a div 10), 48 + nat (a mod 10)]"
    "pad2 b = [48 + nat (b div 10), 48 + nat (b mod 10)]"
    by (simp_all only: pad2_def tens_def units_def)
  moreover have "0 \<le> a div 10" "0 \<le> b div 10" "0 \<le> a mod 10" "0 \<le> b mod 10"
    using assms by simp_all
  ultimately show ?thesis
    using div_mod_less_iff [of 10 a b] div_mod_eq_iff [of a b 10]
    by (simp only: digits_append_le)
qed

lemma pad4_append_le:
  assumes "0 \<le> a" "a < 10000" "0 \<le> b" "b < 10000"
  shows "pad4 a @ s \<le> pad4 b @ t \<longleftrightarrow> a < b \<or> a = b \<and> s \<le> t"
proof -
  have "a div 100 < 100" "b div 100 < 100" "0 \<le> a div 100" "0 \<le> b div 100"
    using assms by auto
  then show ?thesis
    unfolding div_mod_less_iff [of 100 a b, simplified] div_mod_eq_iff [of a b 100]
    by (simp add: pad4_def pad2_append_le) blast
qed

subsection \<open>UTF-8\<close>

text \<open>The bytes of one code point; surrogates cannot be encoded.\<close>

definition utf8_char :: "nat \<Rightarrow> nat list option" where
  "utf8_char c =
    (if c < 128 then Some [c]
     else if c < 2048 then Some [192 + c div 64, 128 + c mod 64]
     else if 55296 \<le> c \<and> c < 57344 then None
     else if c < 65536 then Some [224 + c div 4096, 128 + c div 64 mod 64, 128 + c mod 64]
     else if 1114112 \<le> c then None
     else Some [240 + c div 262144, 128 + c div 4096 mod 64, 128 + c div 64 mod 64, 128 + c mod 64])"

fun utf8_encode :: "pystr \<Rightarrow> nat list result" where
  "utf8_encode [] = Inr []"
| "utf8_encode (c # cs) =
    (case utf8_char c of
       None \<Rightarrow> Inl UnicodeEncodeError
     | Some b \<Rightarrow> bind_res (utf8_encode cs) (\<lambda>bs. Inr (b @ bs)))"

lemma utf8_encode_ascii: "is_ascii_text s \<Longrightarrow> utf8_encode s = Inr s"
  by (induction s) (auto simp: is_ascii_text_def utf8_char_def)

lemma utf8_encode_append:
  "utf8_encode (s @ t) = bind_res (utf8_encode s) (\<lambda>a. bind_res (utf8_encode t) (\<lambda>b. Inr (a @ b)))"
  by (induction s) (auto simp: bind_res_def split: option.splits sum.splits)

lemma utf8_char_length: "utf8_char c = Some b \<Longrightarrow> 1 \<le> length b \<and> length b \<le> 4"
  by (auto simp: utf8_char_def split: if_splits)

lemma utf8_encode_length: "utf8_encode s = Inr b \<Longrightarrow> length s \<le> length b \<and> length b \<le> 4 * length s"
proof (induction s arbitrary: b)
  case Nil
  then show ?case by simp
next
  case (Cons c s)
  then show ?case
    by (fastforce simp: bind_res_eq_Inr dest: utf8_char_length split: option.splits)
qed

text \<open>Strict decoding: overlong forms, surrogates and stray bytes are refused.\<close>

definition is_cont :: "nat \<Rightarrow> bool" where
  "is_cont b = (128 \<le> b \<and> b < 192)"

fun utf8_decode :: "nat list \<Rightarrow> pystr option" where
  "utf8_decode [] = Some []"
| "utf8_decode (b # bs) =
    (if b < 128 then map_option (\<lambda>s. b # s) (utf8_decode bs)
     else if b < 194 then None
     else if b < 224 then
       (case bs of c # r \<Rightarrow>
          if is_cont c then map_option (\<lambda>s. ((b - 192) * 64 + (c - 128)) # s) (utf8_decode r) else None
        | _ \<Rightarrow> None)
     else if b < 240 then
       (case bs of c # d # r \<Rightarrow>
          let p = (b - 224) * 4096 + (c - 128) * 64 + (d - 128)
          in if is_cont c \<and> is_cont d \<and> 2048 \<le> p \<and> \<not> (55296 \<le> p \<and> p < 57344)
             then map_option (\<lambda>s. p # s) (utf8_decode r) else None
        | _ \<Rightarrow> None)
     else if b < 245 then
       (case bs of c # d # e # r \<Rightarrow>
          let p = (b - 240) * 262144 + (c - 128) * 4096 + (d - 128) * 64 + (e - 128)
          in if is_cont c \<and> is_cont d \<and> is_cont e \<and> 65536 \<le> p \<and> p < 1114112
             then map_option (\<lambda>s. p # s) (utf8_decode r) else None
        | _ \<Rightarrow> None)
     else None)"

lemma six_bits: "c div 64 * 64 + c mod 64 = (c::nat)" by simp

lemma three_bytes: "c div 4096 * 4096 + c div 64 mod 64 * 64 + c mod 64 = (c::nat)"
proof -
  have "c div 4096 * 64 + c div 64 mod 64 = c div 64"
    using div_mult_mod_eq [of "c div 64" 64] by (simp add: div_mult2_eq [symmetric])
  then have "(c div 4096 * 64 + c div 64 mod 64) * 64 + c mod 64 = c" by simp
  then show ?thesis by (simp add: algebra_simps)
qed

lemma four_bytes:
  "c div 262144 * 262144 + c div 4096 mod 64 * 4096 + c div 64 mod 64 * 64 + c mod 64 = (c::nat)"
proof -
  have "c div 262144 * 4096 + c div 4096 mod 64 * 64 + c div 64 mod 64 = c div 64"
    using three_bytes [of "c div 64"] by (simp add: div_mult2_eq [symmetric])
  then have "(c div 262144 * 4096 + c div 4096 mod 64 * 64 + c div 64 mod 64) * 64 + c mod 64 = c" by simp
  then show ?thesis by (simp add: algebra_simps)
qed

lemma utf8_decode_char:
  assumes "utf8_char c = Some b"
  shows "utf8_decode (b @ r) = map_option (\<lambda>s. c # s) (utf8_decode r)"
proof -
  have m: "c mod 64 < 64" "c div 64 mod 64 < 64" "c div 4096 mod 64 < 64" by simp_all
  consider "c < 128" "b = [c]" | "128 \<le> c" "c < 2048" "b = [192 + c div 64, 128 + c mod 64]"
    | "2048 \<le> c" "c < 65536" "\<not> (55296 \<le> c \<and> c < 57344)"
      "b = [224 + c div 4096, 128 + c div 64 mod 64, 128 + c mod 64]"
    | "65536 \<le> c" "c < 1114112"
      "b = [240 + c div 262144, 128 + c div 4096 mod 64, 128 + c div 64 mod 64, 128 + c mod 64]"
    using assms by (auto simp: utf8_char_def not_less split: if_splits)
  then show ?thesis
  proof cases
    case 1
    then show ?thesis by simp
  next
    case 2
    define q where "q = c div 64"
    have q: "2 \<le> q" "q < 32" "q * 64 + c mod 64 = c"
      using div_le_mono [of 128 c 64] 2 by (auto simp: q_def intro: less_mult_imp_div_less)
    have "b = [192 + q, 128 + c mod 64]" using 2 by (simp add: q_def)
    then show ?thesis using q m by (simp add: is_cont_def)
  next
    case 3
    have "c div 4096 < 16" using 3 by (intro less_mult_imp_div_less) simp
    then show ?thesis using 3 m three_bytes [of c] by (simp add: is_cont_def)
  next
    case 4
    have "c div 262144 < 5" using 4 by (intro less_mult_imp_div_less) simp
    then show ?thesis using 4 m four_bytes [of c] by (simp add: is_cont_def)
  qed
qed

lemma utf8_decode_encode: "utf8_encode s = Inr b \<Longrightarrow> utf8_decode b = Some s"
  by (induction s arbitrary: b) (auto simp: bind_res_eq_Inr utf8_decode_char split: option.splits)

lemma utf8_encode_inj: "utf8_encode s = Inr b \<Longrightarrow> utf8_encode t = Inr b \<Longrightarrow> s = t"
  by (drule utf8_decode_encode, drule utf8_decode_encode) simp

end
