(* ===== verification/Json_Value.thy ===== *)
theory Json_Value
  imports Py_Text
begin

text \<open>
  JSON documents as the gateway holds them in memory: what \<open>json.loads\<close> builds with the hooks
  of contracts.py (integers as \<open>int\<close>, fractional numbers as \<open>Decimal\<close>), plus the Python floats
  that only pydantic's float fields introduce.  A \<open>dict\<close> keeps insertion order, so an object is
  an association list with distinct keys.  The node and depth budget of
  \<open>_validate_json_shape\<close> is modelled here with its explicit stack, and proved to be the bound it
  means.
\<close>

text \<open>
  \<open>Decimal\<close>: sign, coefficient, exponent.  A float is represented by the decimal its
  \<open>repr\<close> denotes, from which Python reads back the same float.
\<close>

datatype decimal = Dec (dec_neg: bool) (dec_coef: nat) (dec_exp: int)

datatype json =
    JNull
  | JBool bool
  | JInt int
  | JDec decimal
  | JFloat decimal
  | JStr pystr
  | JList "json list"
  | JObj "(pystr \<times> json) list"

type_synonym jobj = "(pystr \<times> json) list"

subsection \<open>Objects\<close>

text \<open>\<open>o.get(k)\<close>: a missing key and an explicit null both give \<open>None\<close>.\<close>

definition jget :: "jobj \<Rightarrow> string \<Rightarrow> json" where
  "jget ob k = (case map_of ob (py k) of None \<Rightarrow> JNull | Some v \<Rightarrow> v)"

definition jhas :: "jobj \<Rightarrow> string \<Rightarrow> bool" where
  "jhas ob k = (map_of ob (py k) \<noteq> None)"

definition jkeys :: "jobj \<Rightarrow> pystr set" where
  "jkeys ob = set (map fst ob)"

fun wf_json :: "json \<Rightarrow> bool" where
  "wf_json (JList vs) = list_all wf_json vs"
| "wf_json (JObj ob) = (distinct (map fst ob) \<and> list_all (\<lambda>(k, v). wf_json v) ob)"
| "wf_json _ = True"

lemma jget_in: "jget ob k \<noteq> JNull \<Longrightarrow> (py k, jget ob k) \<in> set ob"
  by (auto simp: jget_def dest: map_of_SomeD split: option.splits)

lemma jget_size:
  assumes "v \<noteq> JNull" "jget ob k = v"
  shows "size v < size (JObj ob)"
proof -
  from assms have "(py k, v) \<in> set ob" using jget_in by blast
  then have "size_prod (\<lambda>_. 0) size (py k, v) \<le> size_list (size_prod (\<lambda>_. 0) size) ob"
    by (induction ob) auto
  then show ?thesis by simp
qed

lemma jhas_iff: "jhas ob k \<longleftrightarrow> py k \<in> jkeys ob"
  by (force simp: jhas_def jkeys_def map_of_eq_None_iff)

subsection \<open>The node and depth budget\<close>

definition MAX_JSON_DEPTH :: nat where "MAX_JSON_DEPTH = 32"
definition MAX_JSON_NODES :: nat where "MAX_JSON_NODES = 20000"

fun json_children :: "json \<Rightarrow> json list" where
  "json_children (JObj ob) = map snd ob"
| "json_children (JList vs) = vs"
| "json_children _ = []"

text \<open>
  The loop: the head of the list is the top of the Python stack, and \<open>extend\<close> leaves the last
  child on top.
\<close>

function shape_loop :: "(json \<times> nat) list \<Rightarrow> nat \<Rightarrow> unit result" where
  "shape_loop [] nodes = Inr ()"
| "shape_loop ((current, depth) # stack) nodes =
    (if MAX_JSON_NODES < nodes + 1 then Inl (ValueError ''response_schema exceeds its node limit'')
     else if MAX_JSON_DEPTH < depth then Inl (ValueError ''response_schema exceeds its depth limit'')
     else shape_loop (rev (map (\<lambda>item. (item, depth + 1)) (json_children current)) @ stack)
       (nodes + 1))"
  by pat_completeness auto
termination
  by (relation "measure (\<lambda>(stack, nodes). MAX_JSON_NODES - nodes)") auto

definition validate_json_shape :: "json \<Rightarrow> unit result" where
  "validate_json_shape value = shape_loop [(value, 1)] 0"

text \<open>What the loop measures: all values of the document, and the longest nesting.\<close>

fun json_nodes :: "json \<Rightarrow> nat" where
  "json_nodes (JList vs) = Suc (sum_list (map json_nodes vs))"
| "json_nodes (JObj ob) = Suc (sum_list (map (\<lambda>(k, v). json_nodes v) ob))"
| "json_nodes _ = 1"

fun json_depth :: "json \<Rightarrow> nat" where
  "json_depth (JList vs) = Suc (fold max (map json_depth vs) 0)"
| "json_depth (JObj ob) = Suc (fold max (map (\<lambda>(k, v). json_depth v) ob) 0)"
| "json_depth _ = 1"

lemma fold_max_le: "fold max xs (a::nat) \<le> b \<longleftrightarrow> a \<le> b \<and> (\<forall>x \<in> set xs. x \<le> b)"
  by (induction xs arbitrary: a) auto

lemma json_nodes_children: "json_nodes v = Suc (sum_list (map json_nodes (json_children v)))"
  by (cases v) (auto simp: split_def comp_def)

lemma json_depth_children:
  "json_depth v \<le> Suc b \<longleftrightarrow> (\<forall>c \<in> set (json_children v). json_depth c \<le> b)"
  by (cases v) (auto simp: fold_max_le case_prod_beta)

lemma json_depth_pos: "1 \<le> json_depth v"
  by (cases v) auto

definition stack_fits :: "(json \<times> nat) list \<Rightarrow> bool" where
  "stack_fits st = (\<forall>(v, d) \<in> set st. d + json_depth v \<le> Suc MAX_JSON_DEPTH)"

definition stack_nodes :: "(json \<times> nat) list \<Rightarrow> nat" where
  "stack_nodes st = sum_list (map (\<lambda>(v, d). json_nodes v) st)"

lemma stack_nodes_push:
  "stack_nodes (rev (map (\<lambda>item. (item, d)) vs) @ st) = sum_list (map json_nodes vs) + stack_nodes st"
  by (induction vs arbitrary: st) (simp_all add: stack_nodes_def)

lemma shape_loop_iff:
  "nodes \<le> MAX_JSON_NODES \<Longrightarrow> shape_loop st nodes = Inr () \<longleftrightarrow>
    nodes + stack_nodes st \<le> MAX_JSON_NODES \<and> stack_fits st"
proof (induction st nodes rule: shape_loop.induct)
  case (1 nodes)
  then show ?case by (simp add: stack_fits_def stack_nodes_def)
next
  case (2 v d st nodes)
  show ?case
  proof (cases "nodes + 1 \<le> MAX_JSON_NODES \<and> d \<le> MAX_JSON_DEPTH")
    case False
    then show ?thesis
      using json_nodes_children [of v] json_depth_pos [of v] by (auto simp: stack_fits_def stack_nodes_def)
  next
    case True
    let ?st = "rev (map (\<lambda>item. (item, d + 1)) (json_children v)) @ st"
    have fits: "stack_fits ?st \<longleftrightarrow> stack_fits ((v, d) # st)"
    proof -
      obtain b where b: "MAX_JSON_DEPTH = d + b" using True le_Suc_ex by blast
      have "d + json_depth v \<le> Suc MAX_JSON_DEPTH \<longleftrightarrow> json_depth v \<le> Suc b" using b by auto
      then have "d + json_depth v \<le> Suc MAX_JSON_DEPTH \<longleftrightarrow>
          (\<forall>c \<in> set (json_children v). d + 1 + json_depth c \<le> Suc MAX_JSON_DEPTH)"
        by (simp add: json_depth_children b)
      then show ?thesis by (simp add: stack_fits_def ball_Un)
    qed
    have "shape_loop ((v, d) # st) nodes = shape_loop ?st (nodes + 1)" using True by simp
    then show ?thesis
      using True 2(1) fits json_nodes_children [of v] stack_nodes_push [of "d + 1" _ st]
      by (simp add: stack_nodes_def [of "(v, d) # st"] flip: stack_nodes_def)
  qed
qed

lemma validate_json_shape_iff:
  "validate_json_shape v = Inr () \<longleftrightarrow>
    json_nodes v \<le> MAX_JSON_NODES \<and> json_depth v \<le> MAX_JSON_DEPTH"
  by (simp add: validate_json_shape_def shape_loop_iff stack_fits_def stack_nodes_def del: shape_loop.simps)

end
