(* ===== verification/Contracts_Schema.thy ===== *)
theory Contracts_Schema
  imports Json_Value
begin

text \<open>
  The admission of response schemas in contracts.py: the root-shape classification, the shared
  passage definitions (\<open>$defs\<close>), and the recursive check of the supported subset with its two
  budgets, the physical references counted over the whole schema and the passage values counted
  for the largest possible response.  The mutable one-element list \<open>references\<close> of the code is
  threaded as an argument and returned.  The recursive check is proved equal to a declarative
  reading: a grammar (\<open>admissible\<close>), a reference count and a weight.
\<close>

subsection \<open>Limits and vocabulary\<close>

definition MAX_SCHEMA_ENUM_VALUES :: nat where "MAX_SCHEMA_ENUM_VALUES = 100"
definition MAX_SCHEMA_ARRAY_ITEMS :: int where "MAX_SCHEMA_ARRAY_ITEMS = 100"
definition MAX_SCHEMA_OBJECT_CHOICES :: nat where "MAX_SCHEMA_OBJECT_CHOICES = 64"
definition MAX_PASSAGE_DEFINITIONS :: nat where "MAX_PASSAGE_DEFINITIONS = 2"
definition MAX_PASSAGE_ENUM_VALUES :: nat where "MAX_PASSAGE_ENUM_VALUES = 8192"
definition MAX_PASSAGE_CHARACTERS :: nat where "MAX_PASSAGE_CHARACTERS = 4096"
definition MAX_PASSAGE_REFERENCES :: nat where "MAX_PASSAGE_REFERENCES = 16"
definition MAX_PASSAGE_VALUES :: nat where "MAX_PASSAGE_VALUES = 32"

definition SUPPORTED_SCHEMA_TYPES :: "pystr list" where
  "SUPPORTED_SCHEMA_TYPES = map py
    [''array'', ''boolean'', ''integer'', ''null'', ''number'', ''object'', ''string'']"

definition SUPPORTED_SCHEMA_KEYWORDS :: "pystr list" where
  "SUPPORTED_SCHEMA_KEYWORDS = map py
    [''additionalProperties'', ''anyOf'', ''default'', ''enum'', ''items'', ''maxLength'',
     ''maxItems'', ''maximum'', ''minLength'', ''minItems'', ''minimum'', ''properties'',
     ''required'', ''title'', ''type'']"

definition null_schema :: json where
  "null_schema = JObj [(py ''type'', JStr (py ''null''))]"

subsection \<open>The root shape\<close>

definition uses_passage_definitions :: "jobj \<Rightarrow> bool" where
  "uses_passage_definitions schema = jhas schema ''$defs''"

definition closed_object_branch :: "json \<Rightarrow> bool" where
  "closed_object_branch branch =
    (case branch of
       JObj b \<Rightarrow> jget b ''type'' = JStr (py ''object'') \<and> jget b ''additionalProperties'' = JBool False
     | _ \<Rightarrow> False)"

definition is_bounded_root_object_choice :: "jobj \<Rightarrow> bool" where
  "is_bounded_root_object_choice schema =
    (jkeys schema - {py ''$defs''} = {py ''anyOf''} \<and>
     (case jget schema ''anyOf'' of
        JList alternatives \<Rightarrow>
          2 \<le> length alternatives \<and> length alternatives \<le> MAX_SCHEMA_OBJECT_CHOICES \<and>
          list_all closed_object_branch alternatives
      | _ \<Rightarrow> False))"

subsection \<open>Passage definitions\<close>

definition is_name_start :: "nat \<Rightarrow> bool" where
  "is_name_start c = (65 \<le> c \<and> c \<le> 90 \<or> 97 \<le> c \<and> c \<le> 122 \<or> c = 95)"

text \<open>\<open>PASSAGE_NAME_RE.fullmatch\<close>\<close>

definition passage_name :: "pystr \<Rightarrow> bool" where
  "passage_name s =
    (case s of
       [] \<Rightarrow> False
     | c # cs \<Rightarrow> is_name_start c \<and> length cs \<le> 63 \<and>
         list_all (\<lambda>d. is_name_start d \<or> 48 \<le> d \<and> d \<le> 57) cs)"

definition passage_value :: "json \<Rightarrow> bool" where
  "passage_value v =
    (case v of JStr s \<Rightarrow> 1 \<le> length s \<and> length s \<le> MAX_PASSAGE_CHARACTERS | _ \<Rightarrow> False)"

definition check_passage_definition :: "pystr \<times> json \<Rightarrow> unit result" where
  "check_passage_definition = (\<lambda>(name, definition).
    bind_res (check (passage_name name)
      (ValueError ''response_schema passage name must be an ASCII identifier'')) (\<lambda>_.
    bind_res (case definition of
       JObj d \<Rightarrow> check (jkeys d = {py ''type'', py ''enum''} \<and> jget d ''type'' = JStr (py ''string''))
         (ValueError ''response_schema passage definitions must be string-enum leaves'')
     | _ \<Rightarrow> Inl (ValueError ''response_schema passage definitions must be string-enum leaves''))
      (\<lambda>_.
    case definition of
      JObj d \<Rightarrow>
        (case jget d ''enum'' of
           JList vs \<Rightarrow> check (1 \<le> length vs \<and> length vs \<le> MAX_PASSAGE_ENUM_VALUES \<and>
               list_all passage_value vs \<and> distinct vs)
             (ValueError ''response_schema passage enum must contain bounded unique strings'')
         | _ \<Rightarrow> Inl (ValueError ''response_schema passage enum must contain bounded unique strings''))
    | _ \<Rightarrow> Inl AssertionError)))"

definition passage_definitions :: "jobj \<Rightarrow> jobj option result" where
  "passage_definitions schema =
    (if \<not> uses_passage_definitions schema then Inr None
     else
       (case jget schema ''$defs'' of
          JObj definitions \<Rightarrow>
            (if jget schema ''type'' \<noteq> JStr (py ''object'') \<and>
                  \<not> is_bounded_root_object_choice schema \<or>
                \<not> (1 \<le> length definitions \<and> length definitions \<le> MAX_PASSAGE_DEFINITIONS)
             then Inl (ValueError ''response_schema requires bounded root passage definitions'')
             else bind_res (map_res check_passage_definition definitions)
               (\<lambda>_. Inr (Some definitions)))
        | _ \<Rightarrow> Inl (ValueError ''response_schema requires bounded root passage definitions'')))"

subsection \<open>The supported subset\<close>

text \<open>The checks of one schema node that do not recurse, in the order of the code.\<close>

definition is_ref_node :: "jobj option \<Rightarrow> jobj \<Rightarrow> bool" where
  "is_ref_node definitions schema = (jhas schema ''$ref'' \<and> definitions \<noteq> None)"

definition ref_prefix :: pystr where
  "ref_prefix = py ''#/$defs/''"

definition owned_reference :: "jobj option \<Rightarrow> jobj \<Rightarrow> bool" where
  "owned_reference definitions schema =
    (jkeys schema = {py ''$ref''} \<and>
     (case jget schema ''$ref'' of
        JStr t \<Rightarrow> take (length ref_prefix) t = ref_prefix \<and>
          (case definitions of None \<Rightarrow> False | Some ds \<Rightarrow> drop (length ref_prefix) t \<in> jkeys ds)
      | _ \<Rightarrow> False))"

definition keywords_ok :: "jobj \<Rightarrow> bool" where
  "keywords_ok schema = list_all (\<lambda>(k, v). k \<in> set SUPPORTED_SCHEMA_KEYWORDS) schema"

definition type_ok :: "jobj \<Rightarrow> bool" where
  "type_ok schema =
    (case jget schema ''type'' of
       JNull \<Rightarrow> True | JStr t \<Rightarrow> t \<in> set SUPPORTED_SCHEMA_TYPES | _ \<Rightarrow> False)"

definition additional_ok :: "jobj \<Rightarrow> bool" where
  "additional_ok schema =
    (case jget schema ''additionalProperties'' of JNull \<Rightarrow> True | JBool _ \<Rightarrow> True | _ \<Rightarrow> False)"

definition is_array_node :: "jobj \<Rightarrow> bool" where
  "is_array_node schema = (jget schema ''type'' = JStr (py ''array''))"

definition max_items_of :: "jobj \<Rightarrow> int option" where
  "max_items_of schema =
    (case jget schema ''maxItems'' of
       JInt n \<Rightarrow> if 0 \<le> n \<and> n \<le> MAX_SCHEMA_ARRAY_ITEMS then Some n else None
     | _ \<Rightarrow> None)"

definition min_items_ok :: "jobj \<Rightarrow> int \<Rightarrow> bool" where
  "min_items_ok schema max_items =
    (case jget schema ''minItems'' of
       JNull \<Rightarrow> True | JInt n \<Rightarrow> 0 \<le> n \<and> n \<le> max_items | _ \<Rightarrow> False)"

definition no_array_keywords :: "jobj \<Rightarrow> bool" where
  "no_array_keywords schema =
    (jget schema ''items'' = JNull \<and> jget schema ''minItems'' = JNull \<and>
     jget schema ''maxItems'' = JNull)"

definition is_container :: "json \<Rightarrow> bool" where
  "is_container v = (case v of JObj _ \<Rightarrow> True | JList _ \<Rightarrow> True | _ \<Rightarrow> False)"

definition enum_ok :: "jobj \<Rightarrow> bool" where
  "enum_ok schema =
    (case jget schema ''enum'' of
       JNull \<Rightarrow> True
     | JList vs \<Rightarrow> 1 \<le> length vs \<and> length vs \<le> MAX_SCHEMA_ENUM_VALUES \<and>
         list_all (\<lambda>v. \<not> is_container v) vs
     | _ \<Rightarrow> False)"

definition bound_ok :: "json \<Rightarrow> bool" where
  "bound_ok v = (case v of JNull \<Rightarrow> True | JInt _ \<Rightarrow> True | _ \<Rightarrow> False)"

definition bounds_ok :: "jobj \<Rightarrow> bool" where
  "bounds_ok schema = (bound_ok (jget schema ''minimum'') \<and> bound_ok (jget schema ''maximum''))"

definition is_nullable_list :: "json \<Rightarrow> bool" where
  "is_nullable_list v = (case v of JList alternatives \<Rightarrow> null_schema \<in> set alternatives | _ \<Rightarrow> False)"

text \<open>The two-branch union: exactly one \<open>{"type": "null"}\<close> and one typed other branch.\<close>

definition typed_branch :: "json \<Rightarrow> bool" where
  "typed_branch v =
    (case v of
       JObj b \<Rightarrow> (case jget b ''type'' of JStr t \<Rightarrow> t \<noteq> py ''null'' | _ \<Rightarrow> False)
     | _ \<Rightarrow> False)"

definition nullable_union :: "bool \<Rightarrow> json \<Rightarrow> exn option" where
  "nullable_union allow v =
    (case v of
       JList alternatives \<Rightarrow>
         (if \<not> allow \<or> length alternatives \<noteq> 2
          then Some (ValueError ''response_schema anyOf must be one bounded nullable union'')
          else if length (filter (\<lambda>item. item = null_schema) alternatives) \<noteq> 1
          then Some (ValueError ''response_schema anyOf must contain one null branch'')
          else if \<not> (case find (\<lambda>item. item \<noteq> null_schema) alternatives of
                       None \<Rightarrow> False | Some b \<Rightarrow> typed_branch b)
          then Some (ValueError ''response_schema anyOf must contain one typed non-null branch'')
          else None)
     | _ \<Rightarrow> Some (ValueError ''response_schema anyOf must be one bounded nullable union''))"

definition json_list :: "json \<Rightarrow> json list" where
  "json_list v = (case v of JList vs \<Rightarrow> vs | _ \<Rightarrow> [])"

definition json_obj_values :: "json \<Rightarrow> json list" where
  "json_obj_values v = (case v of JObj ob \<Rightarrow> map snd ob | _ \<Rightarrow> [])"

definition list_max :: "nat list \<Rightarrow> nat" where
  "list_max ns = foldr max ns 0"

text \<open>Sizes, for the termination of the recursion into a schema's children.\<close>

lemma size_json_list: "size (JList (json_list v)) \<le> max 1 (size v)"
  by (cases v) (simp_all add: json_list_def)

lemma size_map_snd: "size_list size (map snd ob) \<le> size_list (size_prod (\<lambda>_. 0) size) (ob :: jobj)"
  by (induction ob) auto

lemma size_json_obj_values: "size (JList (json_obj_values v)) \<le> max 1 (size v)"
  using size_map_snd by (cases v) (auto simp: json_obj_values_def simp del: size_list_map)

lemma size_child:
  "size (JList (json_list (jget ob k))) < Suc (size (JObj ob))"
  "size (JList (json_obj_values (jget ob k))) < Suc (size (JObj ob))"
  using size_json_list [of "jget ob k"] size_json_obj_values [of "jget ob k"]
    jget_size [of "jget ob k" ob k] by (cases "jget ob k"; simp)+

lemma size_child_list:
  "Suc (size (JObj child)) < size (JList (JObj child # vs))" "size (JList vs) < size (JList (v # vs))"
  by simp_all

subsection \<open>The recursive check\<close>

text \<open>
  \<open>_validate_supported_schema\<close>; the second function is its loop over a list of children, with
  the message raised for a child that is no schema.  The result is the passage values of the
  node and the reference counter.
\<close>

function validate_supported_schema ::
    "jobj option \<Rightarrow> bool \<Rightarrow> bool \<Rightarrow> nat \<Rightarrow> nat \<Rightarrow> jobj \<Rightarrow> (nat \<times> nat) result"
  and validate_children ::
    "string \<Rightarrow> jobj option \<Rightarrow> bool \<Rightarrow> nat \<Rightarrow> nat \<Rightarrow> json list \<Rightarrow> (nat list \<times> nat) result"
where
  "validate_supported_schema definitions allow_nullable allow_root multiplicity references schema =
    (if is_ref_node definitions schema then
       if \<not> owned_reference definitions schema
       then Inl (ValueError ''response_schema reference must select one owned passage definition'')
       else if MAX_PASSAGE_REFERENCES < references + 1
       then Inl (ValueError ''response_schema exceeds its passage reference limit'')
       else Inr (multiplicity, references + 1)
     else
     bind_res (check (keywords_ok schema)
       (ValueError ''response_schema uses unsupported keyword'')) (\<lambda>_.
     bind_res (check (type_ok schema)
       (ValueError ''response_schema uses an unsupported type'')) (\<lambda>_.
     bind_res (validate_children ''response_schema properties must contain schemas'' definitions
         allow_nullable multiplicity references (json_obj_values (jget schema ''properties'')))
       (\<lambda>(property_values, references1).
     bind_res (check (additional_ok schema)
       (ValueError ''response_schema additionalProperties must be boolean'')) (\<lambda>_.
     bind_res
       (if is_array_node schema then
          (case jget schema ''items'' of
             JObj item_schema \<Rightarrow>
               (case max_items_of schema of
                  None \<Rightarrow> Inl (ValueError ''response_schema arrays must have a bounded maxItems'')
                | Some max_items \<Rightarrow>
                    if \<not> min_items_ok schema max_items
                    then Inl (ValueError ''response_schema array minItems is invalid'')
                    else validate_supported_schema definitions allow_nullable False
                      (multiplicity * nat max_items) references1 item_schema)
           | _ \<Rightarrow> Inl (ValueError ''response_schema arrays must contain one item schema''))
        else if no_array_keywords schema then Inr (0, references1)
        else Inl (ValueError ''response_schema array keywords require array type''))
       (\<lambda>(item_values, references2).
     bind_res (check (enum_ok schema)
       (ValueError ''response_schema enum must contain bounded scalar values'')) (\<lambda>_.
     bind_res (check (bounds_ok schema)
       (ValueError ''response_schema numeric bounds must be integers'')) (\<lambda>_.
     let passage_values = sum_list property_values + item_values;
         alternatives = jget schema ''anyOf''
     in if alternatives = JNull then Inr (passage_values, references2)
        else if allow_root \<and> \<not> is_nullable_list alternatives then
          if \<not> is_bounded_root_object_choice schema
          then Inl (ValueError
            ''response_schema root choice must contain 2 through 64 closed object branches'')
          else bind_res (validate_children ''response_schema anyOf must contain schemas''
              definitions True multiplicity references2 (json_list alternatives))
            (\<lambda>(branch_values, references3).
              Inr (passage_values + list_max branch_values, references3))
        else (case nullable_union allow_nullable alternatives of
            Some e \<Rightarrow> Inl e
          | None \<Rightarrow> bind_res (validate_children ''response_schema anyOf must contain schemas''
                definitions False multiplicity references2 (json_list alternatives))
              (\<lambda>(branch_values, references3).
                Inr (passage_values + list_max branch_values, references3)))))))))))"
| "validate_children msg definitions allow_nullable multiplicity references [] = Inr ([], references)"
| "validate_children msg definitions allow_nullable multiplicity references (v # vs) =
    (case v of
       JObj child \<Rightarrow>
         bind_res (validate_supported_schema definitions allow_nullable False multiplicity
             references child) (\<lambda>(n, references1).
         bind_res (validate_children msg definitions allow_nullable multiplicity references1 vs)
           (\<lambda>(ns, references2). Inr (n # ns, references2)))
     | _ \<Rightarrow> Inl (ValueError msg))"
  by pat_completeness auto
termination
  by (relation "measure (case_sum (\<lambda>(_, _, _, _, _, ob). Suc (size (JObj ob)))
      (\<lambda>(_, _, _, _, _, vs). size (JList vs)))")
    (use size_child size_child_list in \<open>auto dest: jget_size [rotated] simp del: json.size\<close>)

declare validate_supported_schema.simps [simp del]

subsection \<open>The declarative reading\<close>

text \<open>
  How many physical references a schema holds, how many passage values the largest response can
  select (the sum over properties, the bound of an array times its item, the largest
  alternative), and which schemas the grammar admits.
\<close>

function ref_count :: "jobj option \<Rightarrow> jobj \<Rightarrow> nat"
  and ref_counts :: "jobj option \<Rightarrow> json list \<Rightarrow> nat"
where
  "ref_count ds schema =
    (if is_ref_node ds schema then 1
     else ref_counts ds (json_obj_values (jget schema ''properties'')) +
       (if is_array_node schema
        then (case jget schema ''items'' of JObj it \<Rightarrow> ref_count ds it | _ \<Rightarrow> 0) else 0) +
       ref_counts ds (json_list (jget schema ''anyOf'')))"
| "ref_counts ds [] = 0"
| "ref_counts ds (v # vs) = (case v of JObj c \<Rightarrow> ref_count ds c | _ \<Rightarrow> 0) + ref_counts ds vs"
  by pat_completeness auto
termination
  by (relation "measure (case_sum (\<lambda>(_, ob). Suc (size (JObj ob))) (\<lambda>(_, vs). size (JList vs)))")
    (use size_child size_child_list in \<open>auto dest: jget_size [rotated] simp del: json.size\<close>)

function weight :: "jobj option \<Rightarrow> jobj \<Rightarrow> nat"
  and weights :: "jobj option \<Rightarrow> json list \<Rightarrow> nat list"
where
  "weight ds schema =
    (if is_ref_node ds schema then 1
     else sum_list (weights ds (json_obj_values (jget schema ''properties''))) +
       (if is_array_node schema
        then (case jget schema ''items'' of
                JObj it \<Rightarrow> (case max_items_of schema of None \<Rightarrow> 0 | Some m \<Rightarrow> nat m * weight ds it)
              | _ \<Rightarrow> 0) else 0) +
       list_max (weights ds (json_list (jget schema ''anyOf''))))"
| "weights ds [] = []"
| "weights ds (v # vs) = (case v of JObj c \<Rightarrow> weight ds c | _ \<Rightarrow> 0) # weights ds vs"
  by pat_completeness auto
termination
  by (relation "measure (case_sum (\<lambda>(_, ob). Suc (size (JObj ob))) (\<lambda>(_, vs). size (JList vs)))")
    (use size_child size_child_list in \<open>auto dest: jget_size [rotated] simp del: json.size\<close>)

text \<open>
  The grammar.  A node is a lone reference to an owned definition, or a node of the supported
  keywords whose children are nodes again; \<open>anyOf\<close> is the root choice or one nullable union.
\<close>

definition node_ok :: "jobj \<Rightarrow> bool" where
  "node_ok schema = (keywords_ok schema \<and> type_ok schema \<and> additional_ok schema \<and>
     enum_ok schema \<and> bounds_ok schema)"

definition any_of_ok :: "bool \<Rightarrow> bool \<Rightarrow> jobj \<Rightarrow> bool" where
  "any_of_ok allow_nullable allow_root schema =
    (let alternatives = jget schema ''anyOf''
     in alternatives = JNull \<or>
       (if allow_root \<and> \<not> is_nullable_list alternatives
        then is_bounded_root_object_choice schema
        else nullable_union allow_nullable alternatives = None))"

definition root_choice :: "bool \<Rightarrow> jobj \<Rightarrow> bool" where
  "root_choice allow_root schema =
    (allow_root \<and> \<not> is_nullable_list (jget schema ''anyOf''))"

function admissible :: "jobj option \<Rightarrow> bool \<Rightarrow> bool \<Rightarrow> jobj \<Rightarrow> bool"
  and admissible_all :: "jobj option \<Rightarrow> bool \<Rightarrow> json list \<Rightarrow> bool"
where
  "admissible ds nullable root schema =
    (if is_ref_node ds schema then owned_reference ds schema
     else node_ok schema \<and>
       admissible_all ds nullable (json_obj_values (jget schema ''properties'')) \<and>
       (if is_array_node schema
        then (case jget schema ''items'' of
                JObj it \<Rightarrow> (case max_items_of schema of
                    None \<Rightarrow> False
                  | Some m \<Rightarrow> min_items_ok schema m \<and> admissible ds nullable False it)
              | _ \<Rightarrow> False)
        else no_array_keywords schema) \<and>
       any_of_ok nullable root schema \<and>
       admissible_all ds (root_choice root schema) (json_list (jget schema ''anyOf'')))"
| "admissible_all ds nullable [] = True"
| "admissible_all ds nullable (v # vs) =
    ((case v of JObj c \<Rightarrow> admissible ds nullable False c | _ \<Rightarrow> False) \<and>
     admissible_all ds nullable vs)"
  by pat_completeness auto
termination
  by (relation "measure (case_sum (\<lambda>(_, _, _, ob). Suc (size (JObj ob)))
      (\<lambda>(_, _, vs). size (JList vs)))")
    (use size_child size_child_list in \<open>auto dest: jget_size [rotated] simp del: json.size\<close>)

declare ref_count.simps [simp del] weight.simps [simp del] admissible.simps [simp del]

lemma list_max_mult: "list_max (map ((*) m) ns) = m * list_max ns"
  by (induction ns) (auto simp: list_max_def nat_mult_max_right)

lemma sum_list_mult: "sum_list (map ((*) m) ns) = m * sum_list ns" for m :: nat
  by (induction ns) (auto simp: algebra_simps)

lemma length_weights [simp]: "length (weights ds vs) = length vs"
  by (induction vs) auto

subsection \<open>The check is the declarative reading\<close>

lemma schema_induct [case_names node Nil Cons]:
  assumes node: "\<And>schema. (\<And>k. Q (json_obj_values (jget schema k))) \<Longrightarrow>
      (\<And>k. Q (json_list (jget schema k))) \<Longrightarrow>
      (\<And>k it. jget schema k = JObj it \<Longrightarrow> P it) \<Longrightarrow> P schema"
    and nil: "Q []"
    and cons: "\<And>v vs. (\<And>c. v = JObj c \<Longrightarrow> P c) \<Longrightarrow> Q vs \<Longrightarrow> Q (v # vs)"
  shows "P schema" and "Q vs"
proof -
  have "(\<forall>s. Suc (size (JObj s)) \<le> n \<longrightarrow> P s) \<and> (\<forall>vs. size (JList vs) \<le> n \<longrightarrow> Q vs)" for n
  proof (induction n)
    case 0
    then show ?case by simp
  next
    case (Suc n)
    have P: "P s" if "Suc (size (JObj s)) \<le> Suc n" for s
    proof (rule node)
      fix k
      show "Q (json_obj_values (jget s k))" "Q (json_list (jget s k))"
        using Suc that size_child [of s k] by simp_all
      fix it assume "jget s k = JObj it"
      then show "P it" using Suc that jget_size [of "JObj it" s k] by simp
    qed
    have "Q vs" if "size (JList vs) \<le> Suc n" for vs
      using that
    proof (induction vs)
      case Nil
      show ?case by (rule nil)
    next
      case (Cons v vs)
      then show ?case using Suc by (intro cons) auto
    qed
    with P show ?case by blast
  qed
  then show "P schema" "Q vs" by blast+
qed

definition fits :: "nat \<Rightarrow> bool" where "fits r = (r \<le> MAX_PASSAGE_REFERENCES)"

lemma fits_add: "fits (a + b) \<Longrightarrow> fits a" by (simp add: fits_def)

lemma stage_chain:
  fixes props :: "(nat list \<times> nat) result" and arr :: "nat \<Rightarrow> (nat \<times> nat) result"
    and any :: "nat \<Rightarrow> nat \<Rightarrow> (nat \<times> nat) result"
  assumes props: "\<forall>pv r1. props = Inr (pv, r1) \<longleftrightarrow> okP \<and> fits (r0 + rP) \<and> pv = xs \<and> r1 = r0 + rP"
    and arr: "\<forall>r1 a r2. fits r1 \<longrightarrow>
      arr r1 = Inr (a, r2) \<longleftrightarrow> okA \<and> fits (r1 + rA) \<and> a = wA \<and> r2 = r1 + rA"
    and any: "\<forall>p r2 n r3. fits r2 \<longrightarrow>
      any p r2 = Inr (n, r3) \<longleftrightarrow> okN \<and> fits (r2 + rN) \<and> n = p + wN \<and> r3 = r2 + rN"
  shows "bind_res (check c1 e1) (\<lambda>_. bind_res (check c2 e2) (\<lambda>_. bind_res props (\<lambda>(pv, r1).
      bind_res (check c3 e3) (\<lambda>_. bind_res (arr r1) (\<lambda>(a, r2).
      bind_res (check c4 e4) (\<lambda>_. bind_res (check c5 e5) (\<lambda>_.
      any (sum_list pv + a) r2))))))) = Inr (n, r) \<longleftrightarrow>
    (c1 \<and> c2 \<and> c3 \<and> c4 \<and> c5) \<and> okP \<and> okA \<and> okN \<and> fits (r0 + (rP + rA + rN)) \<and>
    n = sum_list xs + wA + wN \<and> r = r0 + (rP + rA + rN)" (is "?L = ?R")
proof
  assume ?L
  then show ?R by (auto simp: bind_res_eq_Inr props arr any add.assoc)
next
  assume R: ?R
  then have "fits (r0 + rP)" "fits (r0 + rP + rA)" by (auto simp: fits_def)
  with R show ?L by (simp add: bind_res_eq_Inr props arr any add.assoc)
qed

text \<open>The three recursive stages of a node: its properties, its items, its alternatives.\<close>

abbreviation array_stage ::
    "(nat \<Rightarrow> nat \<Rightarrow> jobj \<Rightarrow> (nat \<times> nat) result) \<Rightarrow> jobj \<Rightarrow> nat \<Rightarrow> nat \<Rightarrow> (nat \<times> nat) result" where
  "array_stage f schema m references1 \<equiv>
    (if is_array_node schema then
       (case jget schema ''items'' of
          JObj item_schema \<Rightarrow>
            (case max_items_of schema of
               None \<Rightarrow> Inl (ValueError ''response_schema arrays must have a bounded maxItems'')
             | Some max_items \<Rightarrow>
                 if \<not> min_items_ok schema max_items
                 then Inl (ValueError ''response_schema array minItems is invalid'')
                 else f (m * nat max_items) references1 item_schema)
        | _ \<Rightarrow> Inl (ValueError ''response_schema arrays must contain one item schema''))
     else if no_array_keywords schema then Inr (0, references1)
     else Inl (ValueError ''response_schema array keywords require array type''))"

abbreviation any_of_stage ::
    "(bool \<Rightarrow> nat \<Rightarrow> json list \<Rightarrow> (nat list \<times> nat) result) \<Rightarrow> bool \<Rightarrow> bool \<Rightarrow> jobj \<Rightarrow> nat \<Rightarrow> nat \<Rightarrow>
      (nat \<times> nat) result" where
  "any_of_stage g nullable root schema passage_values references2 \<equiv>
    (let alternatives = jget schema ''anyOf''
     in if alternatives = JNull then Inr (passage_values, references2)
        else if root \<and> \<not> is_nullable_list alternatives then
          if \<not> is_bounded_root_object_choice schema
          then Inl (ValueError
            ''response_schema root choice must contain 2 through 64 closed object branches'')
          else bind_res (g True references2 (json_list alternatives))
            (\<lambda>(branch_values, references3).
              Inr (passage_values + list_max branch_values, references3))
        else (case nullable_union nullable alternatives of
            Some e \<Rightarrow> Inl e
          | None \<Rightarrow> bind_res (g False references2 (json_list alternatives))
              (\<lambda>(branch_values, references3).
                Inr (passage_values + list_max branch_values, references3))))"

text \<open>What the grammar, the weight and the reference count say of the items.\<close>

abbreviation items_ok :: "jobj option \<Rightarrow> bool \<Rightarrow> jobj \<Rightarrow> bool" where
  "items_ok ds nullable schema \<equiv>
    (if is_array_node schema
     then (case jget schema ''items'' of
             JObj it \<Rightarrow> (case max_items_of schema of
                 None \<Rightarrow> False
               | Some m \<Rightarrow> min_items_ok schema m \<and> admissible ds nullable False it)
           | _ \<Rightarrow> False)
     else no_array_keywords schema)"

abbreviation items_weight :: "jobj option \<Rightarrow> jobj \<Rightarrow> nat" where
  "items_weight ds schema \<equiv>
    (if is_array_node schema
     then (case jget schema ''items'' of
             JObj it \<Rightarrow> (case max_items_of schema of None \<Rightarrow> 0 | Some m \<Rightarrow> nat m * weight ds it)
           | _ \<Rightarrow> 0) else 0)"

abbreviation items_refs :: "jobj option \<Rightarrow> jobj \<Rightarrow> nat" where
  "items_refs ds schema \<equiv>
    (if is_array_node schema
     then (case jget schema ''items'' of JObj it \<Rightarrow> ref_count ds it | _ \<Rightarrow> 0) else 0)"

lemma array_stage_iff:
  assumes "\<And>it m references n r. jget schema ''items'' = JObj it \<Longrightarrow> fits references \<Longrightarrow>
    f m references it = Inr (n, r) \<longleftrightarrow> admissible ds nullable False it \<and>
      fits (references + ref_count ds it) \<and> n = m * weight ds it \<and> r = references + ref_count ds it"
    and "fits r1"
  shows "array_stage f schema m r1 = Inr (a, r2) \<longleftrightarrow> items_ok ds nullable schema \<and>
    fits (r1 + items_refs ds schema) \<and> a = m * items_weight ds schema \<and>
    r2 = r1 + items_refs ds schema"
  using assms by (auto split: json.split option.split)

lemma any_of_stage_iff:
  assumes g: "\<And>nullable references ns r. fits references \<Longrightarrow>
    g nullable references (json_list (jget schema ''anyOf'')) = Inr (ns, r) \<longleftrightarrow>
      admissible_all ds nullable (json_list (jget schema ''anyOf'')) \<and>
      fits (references + ref_counts ds (json_list (jget schema ''anyOf''))) \<and>
      ns = map ((*) m) (weights ds (json_list (jget schema ''anyOf''))) \<and>
      r = references + ref_counts ds (json_list (jget schema ''anyOf''))"
    and "fits r2"
  shows "any_of_stage g nullable root schema p r2 = Inr (n, r3) \<longleftrightarrow>
    (any_of_ok nullable root schema \<and>
     admissible_all ds (root_choice root schema) (json_list (jget schema ''anyOf''))) \<and>
    fits (r2 + ref_counts ds (json_list (jget schema ''anyOf''))) \<and>
    n = p + m * list_max (weights ds (json_list (jget schema ''anyOf''))) \<and>
    r3 = r2 + ref_counts ds (json_list (jget schema ''anyOf''))"
proof (cases "jget schema ''anyOf'' = JNull")
  case True
  then show ?thesis using assms(2) by (auto simp: any_of_ok_def json_list_def list_max_def)
next
  case nn: False
  show ?thesis
  proof (cases "root \<and> \<not> is_nullable_list (jget schema ''anyOf'')")
    case True
    then show ?thesis using assms(2) nn
      by (auto simp: any_of_ok_def root_choice_def bind_res_eq_Inr g list_max_mult)
  next
    case False
    then show ?thesis using assms(2) nn
      by (cases "nullable_union nullable (jget schema ''anyOf'')")
        (auto simp: any_of_ok_def root_choice_def bind_res_eq_Inr g list_max_mult Let_def)
  qed
qed

text \<open>The check accepts exactly the grammar within the reference budget, and counts the weight.\<close>

lemma validate_and_children_iff:
  shows validate_iff: "\<And>nullable root m references n r. fits references \<Longrightarrow>
    validate_supported_schema ds nullable root m references schema = Inr (n, r) \<longleftrightarrow>
      admissible ds nullable root schema \<and> fits (references + ref_count ds schema) \<and>
      n = m * weight ds schema \<and> r = references + ref_count ds schema"
  and validate_children_iff: "\<And>msg nullable m references ns r. fits references \<Longrightarrow>
    validate_children msg ds nullable m references vs = Inr (ns, r) \<longleftrightarrow>
      admissible_all ds nullable vs \<and> fits (references + ref_counts ds vs) \<and>
      ns = map ((*) m) (weights ds vs) \<and> r = references + ref_counts ds vs"
proof (induction schema and vs rule: schema_induct)
  case (node schema)
  show ?case
  proof (cases "is_ref_node ds schema")
    case True
    then show ?thesis
      using node(4) by (auto simp: validate_supported_schema.simps fits_def
        admissible.simps [of ds _ _ schema] ref_count.simps [of ds schema] weight.simps [of ds schema])
  next
    case False
    let ?f = "\<lambda>m references it. validate_supported_schema ds nullable False m references it"
    let ?g = "\<lambda>nb references vs. validate_children ''response_schema anyOf must contain schemas''
      ds nb m references vs"
    have props: "\<forall>pv r1. validate_children ''response_schema properties must contain schemas'' ds
        nullable m references (json_obj_values (jget schema ''properties'')) = Inr (pv, r1) \<longleftrightarrow>
      admissible_all ds nullable (json_obj_values (jget schema ''properties'')) \<and>
      fits (references + ref_counts ds (json_obj_values (jget schema ''properties''))) \<and>
      pv = map ((*) m) (weights ds (json_obj_values (jget schema ''properties''))) \<and>
      r1 = references + ref_counts ds (json_obj_values (jget schema ''properties''))"
      using node.IH(1) node(4) by blast
    have array: "\<forall>r1 a r2. fits r1 \<longrightarrow> array_stage ?f schema m r1 = Inr (a, r2) \<longleftrightarrow>
        items_ok ds nullable schema \<and> fits (r1 + items_refs ds schema) \<and>
        a = m * items_weight ds schema \<and> r2 = r1 + items_refs ds schema"
      by (intro allI impI, rule array_stage_iff [where f = ?f]) (rule node.IH(3); assumption)
    have any: "\<forall>p r2 n r3. fits r2 \<longrightarrow> any_of_stage ?g nullable root schema p r2 = Inr (n, r3) \<longleftrightarrow>
        (any_of_ok nullable root schema \<and>
         admissible_all ds (root_choice root schema) (json_list (jget schema ''anyOf''))) \<and>
        fits (r2 + ref_counts ds (json_list (jget schema ''anyOf''))) \<and>
        n = p + m * list_max (weights ds (json_list (jget schema ''anyOf''))) \<and>
        r3 = r2 + ref_counts ds (json_list (jget schema ''anyOf''))"
      by (intro allI impI, rule any_of_stage_iff [where g = ?g]) (rule node.IH(2); assumption)
    show ?thesis
      using False
      unfolding validate_supported_schema.simps [of ds nullable root m references schema] node_ok_def
        admissible.simps [of ds nullable root schema] weight.simps [of ds schema]
        ref_count.simps [of ds schema]
      by (simp only: if_False Let_def distrib_left sum_list_mult
          stage_chain [OF props array any, unfolded Let_def]) blast
  qed
next
  case Nil
  then show ?case by auto
next
  case (Cons v vs)
  show ?case
  proof (cases v)
    case (JObj c)
    show ?thesis using JObj Cons.IH(1) [OF JObj] Cons.IH(2) Cons.prems
      by (auto simp: bind_res_eq_Inr fits_def)
  qed auto
qed

end
