(* ===== verification/Json_Numbers.thy ===== *)
theory Json_Numbers
  imports Json_Value Complex_Main
begin

text \<open>
  JSON numbers: the exact decimals of \<open>parse_exact_json_decimal\<close>, the integers of
  \<open>parse_json_integer\<close>, and the canonical text of \<open>_encode_json_number\<close>.  The text is proved
  to denote exactly the value of the number, and two numbers are proved to have the same text
  precisely when they have the same value, whatever their spelling.
\<close>

subsection \<open>Decimal digits\<close>

fun digits10 :: "nat \<Rightarrow> nat list" where
  "digits10 n = (if n < 10 then [n] else digits10 (n div 10) @ [n mod 10])"

declare digits10.simps [simp del]

definition from_digits :: "nat list \<Rightarrow> nat" where
  "from_digits ds = foldl (\<lambda>a d. a * 10 + d) 0 ds"

definition digit_text :: "nat list \<Rightarrow> pystr" where
  "digit_text ds = map (\<lambda>d. 48 + d) ds"

definition is_digit :: "nat \<Rightarrow> bool" where
  "is_digit c = (48 \<le> c \<and> c \<le> 57)"

definition all_digits :: "nat list \<Rightarrow> bool" where
  "all_digits ds = (\<forall>d \<in> set ds. d < 10)"

definition text_digits :: "pystr \<Rightarrow> nat list" where
  "text_digits s = map (\<lambda>c. c - 48) s"

lemma foldl_digits: "foldl (\<lambda>a d. a * 10 + d) a ds = a * 10 ^ length ds + from_digits ds" for a :: nat
  unfolding from_digits_def
proof (induction ds arbitrary: a)
  case (Cons d ds)
  show ?case using Cons [of "a * 10 + d"] Cons [of d] by (simp add: algebra_simps)
qed simp

lemma from_digits_append [simp]:
  "from_digits (ds @ es) = from_digits ds * 10 ^ length es + from_digits es"
  using foldl_digits [of "from_digits ds" es] by (simp add: from_digits_def)

lemma from_digits_Nil [simp]: "from_digits [] = 0"
  by (simp add: from_digits_def)

lemma from_digits_single [simp]: "from_digits [d] = d"
  by (simp add: from_digits_def)

lemma from_digits_zeros [simp]: "from_digits (replicate n 0) = 0"
  by (induction n) (simp_all add: from_digits_def)

lemma from_digits10 [simp]: "from_digits (digits10 n) = n"
proof (induction n rule: digits10.induct)
  case (1 n)
  show ?case using 1 by (subst digits10.simps) simp
qed

lemma digits10_not_Nil [simp]: "digits10 n \<noteq> []"
  by (subst digits10.simps) simp

lemma length_digits10 [simp]: "0 < length (digits10 n)"
  by simp

lemma all_digits10 [simp]: "all_digits (digits10 n)"
proof (induction n rule: digits10.induct)
  case (1 n)
  then show ?case by (subst digits10.simps) (auto simp: all_digits_def)
qed

lemma text_digits_text [simp]: "text_digits (digit_text ds) = ds"
  by (simp add: text_digits_def digit_text_def comp_def)

lemma digit_text_append [simp]: "digit_text (ds @ es) = digit_text ds @ digit_text es"
  by (simp add: digit_text_def)

lemma digit_text_digits: "all_digits ds \<Longrightarrow> \<forall>c \<in> set (digit_text ds). is_digit c"
  by (auto simp: all_digits_def digit_text_def is_digit_def)

subsection \<open>Exact decimals\<close>

definition dec_value :: "decimal \<Rightarrow> rat" where
  "dec_value d = (if dec_neg d then -1 else 1) * of_nat (dec_coef d) * 10 powi (dec_exp d)"

definition adjusted :: "nat \<Rightarrow> int \<Rightarrow> int" where
  "adjusted coef e = e + int (length (digits10 coef)) - 1"

text \<open>
  The numbers JSON tokens and \<open>str\<close> of a number spell: an optional sign, digits, a fraction,
  an exponent.  The \<open>Decimal\<close> constructor refuses exponents beyond its own limits.
\<close>

definition read_digits :: "pystr \<Rightarrow> pystr \<times> pystr" where
  "read_digits s = (takeWhile is_digit s, dropWhile is_digit s)"

definition read_sign :: "pystr \<Rightarrow> bool \<times> pystr" where
  "read_sign s =
    (case s of [] \<Rightarrow> (False, [])
     | c # cs \<Rightarrow> if c = 45 then (True, cs) else if c = 43 then (False, cs) else (False, s))"

definition read_fraction :: "pystr \<Rightarrow> pystr \<times> pystr" where
  "read_fraction s = (case s of [] \<Rightarrow> ([], []) | c # cs \<Rightarrow> if c = 46 then read_digits cs else ([], s))"

definition read_exponent :: "pystr \<Rightarrow> int option" where
  "read_exponent s =
    (case s of
       [] \<Rightarrow> Some 0
     | c # cs \<Rightarrow>
         if c = 101 \<or> c = 69 then
           (case read_sign cs of (neg, t) \<Rightarrow>
             if t \<noteq> [] \<and> list_all is_digit t
             then Some ((if neg then -1 else 1) * int (from_digits (text_digits t))) else None)
         else None)"

definition constructible :: "nat \<Rightarrow> int \<Rightarrow> bool" where
  "constructible coef e =
    (if coef = 0 then - 1999999999999999997 \<le> e \<and> e \<le> 999999999999999999
     else - 1999999999999999997 \<le> e \<and> adjusted coef e \<le> 999999999999999999)"

definition scan_decimal :: "pystr \<Rightarrow> decimal option" where
  "scan_decimal s =
    (case read_sign s of (neg, t) \<Rightarrow>
     case read_digits t of (whole, u) \<Rightarrow>
     case read_fraction u of (part, v) \<Rightarrow>
       (if whole = [] \<and> part = [] then None
        else map_option (\<lambda>e. Dec neg (from_digits (text_digits (whole @ part))) (e - int (length part)))
          (read_exponent v)))"

definition decimal_of_text :: "pystr \<Rightarrow> decimal option" where
  "decimal_of_text s =
    (case scan_decimal s of
       None \<Rightarrow> None
     | Some d \<Rightarrow> if constructible (dec_coef d) (dec_exp d) then Some d else None)"

text \<open>
  \<open>abs(parsed) > MAX_FINITE_BINARY64\<close>: \<open>abs\<close> first rounds to the 28 digits of the default
  context, half to even, and raises \<open>decimal.Overflow\<close> above its largest exponent.
\<close>

definition CONTEXT_DIGITS :: nat where "CONTEXT_DIGITS = 28"
definition CONTEXT_EMAX :: int where "CONTEXT_EMAX = 999999"

definition round_half_even :: "nat \<Rightarrow> nat \<Rightarrow> nat" where
  "round_half_even n k =
    (let q = n div k; r = n mod k
     in if 2 * r < k \<or> 2 * r = k \<and> even q then q else q + 1)"

definition context_round :: "nat \<Rightarrow> int \<Rightarrow> nat \<times> int" where
  "context_round coef e =
    (let excess = length (digits10 coef) - CONTEXT_DIGITS
     in if excess = 0 then (coef, e)
        else (round_half_even coef (10 ^ excess), e + int excess))"

definition above_binary64 :: "nat \<Rightarrow> int \<Rightarrow> bool" where
  "above_binary64 coef e =
    (coef \<noteq> 0 \<and>
     (let k = adjusted coef e
      in 308 < k \<or>
         k = 308 \<and> 17976931348623157 * 10 ^ nat (292 - e) < coef * 10 ^ nat (e - 292)))"

definition abs_exceeds :: "nat \<Rightarrow> int \<Rightarrow> bool result" where
  "abs_exceeds coef e =
    (case context_round coef e of (c, e') \<Rightarrow>
      if c \<noteq> 0 \<and> CONTEXT_EMAX < adjusted c e' then Inl DecimalOverflow
      else Inr (above_binary64 c e'))"

definition in_finite_range :: "decimal \<Rightarrow> decimal result" where
  "in_finite_range d =
    bind_res (abs_exceeds (dec_coef d) (dec_exp d)) (\<lambda>above.
      if above then Inl (ValueError ''JSON number exceeds the supported finite range'')
      else Inr d)"

definition parse_exact_json_decimal :: "pystr \<Rightarrow> decimal result" where
  "parse_exact_json_decimal value =
    (case decimal_of_text value of
       None \<Rightarrow> Inl (ValueError ''JSON number is invalid'')
     | Some parsed \<Rightarrow> in_finite_range parsed)"

text \<open>\<open>int(value)\<close> refuses more than 4300 digits.\<close>

definition MAX_INT_DIGITS :: nat where "MAX_INT_DIGITS = 4300"

definition parse_json_integer :: "pystr \<Rightarrow> int result" where
  "parse_json_integer value =
    (case read_sign value of (neg, t) \<Rightarrow>
      if t = [] \<or> \<not> list_all is_digit t \<or> MAX_INT_DIGITS < length t
      then Inl (ValueError ''invalid literal for int()'')
      else
        let n = from_digits (text_digits t)
        in bind_res (abs_exceeds n 0) (\<lambda>above.
             if above then Inl (ValueError ''JSON number exceeds the supported finite range'')
             else Inr (if neg then - int n else int n)))"

subsection \<open>The canonical text\<close>

function strip_zeros :: "nat list \<Rightarrow> int \<Rightarrow> nat list \<times> int" where
  "strip_zeros ds e = (if 1 < length ds \<and> last ds = 0 then strip_zeros (butlast ds) (e + 1) else (ds, e))"
  by pat_completeness auto
termination by (relation "measure (\<lambda>(ds, e). length ds)") auto

declare strip_zeros.simps [simp del]

definition int_text :: "int \<Rightarrow> pystr" where
  "int_text n = (if n < 0 then [45] else []) @ digit_text (digits10 (nat \<bar>n\<bar>))"

definition number_text :: "bool \<Rightarrow> nat list \<Rightarrow> int \<Rightarrow> pystr" where
  "number_text neg digits e =
    (let coefficient = digit_text digits;
         sign = (if neg then [45] else []);
         point = int (length coefficient) + e
     in if 0 \<le> e then sign @ coefficient @ replicate (nat e) 48
        else if 0 < point
        then sign @ take (nat point) coefficient @ [46] @ drop (nat point) coefficient
        else sign @ [hd coefficient] @
          (if 1 < length coefficient then [46] @ tl coefficient else []) @
          [101] @ int_text (int (length coefficient) + e - 1))"

definition encode_json_number :: "decimal \<Rightarrow> pystr result" where
  "encode_json_number value =
    bind_res (in_finite_range value) (\<lambda>parsed.
      if dec_coef parsed = 0 then Inr [48]
      else case strip_zeros (digits10 (dec_coef parsed)) (dec_exp parsed) of
        (digits, e) \<Rightarrow> Inr (number_text (dec_neg parsed) digits e))"

subsection \<open>The text denotes the value, and the value determines the text\<close>

text \<open>The value of a list of digits scaled by a power of ten.\<close>

definition digits_value :: "nat list \<Rightarrow> int \<Rightarrow> rat" where
  "digits_value ds e = of_nat (from_digits ds) * 10 powi e"

lemma digits_value_zero: "digits_value (ds @ [0]) e = digits_value ds (e + 1)"
  by (simp add: digits_value_def power_int_add)

lemma digits_value_zeros: "digits_value (ds @ replicate n 0) e = digits_value ds (e + int n)"
  by (simp add: digits_value_def power_int_add)

lemma strip_zeros_spec:
  "strip_zeros ds e = (ds', e') \<Longrightarrow> ds \<noteq> [] \<Longrightarrow>
    digits_value ds' e' = digits_value ds e \<and> ds' \<noteq> [] \<and> (length ds' = 1 \<or> last ds' \<noteq> 0) \<and>
    (all_digits ds \<longrightarrow> all_digits ds') \<and> (\<exists>n. ds = ds' @ replicate n 0 \<and> e' = e + int n)"
proof (induction ds e arbitrary: ds' e' rule: strip_zeros.induct)
  case (1 ds e)
  show ?case
  proof (cases "1 < length ds \<and> last ds = 0")
    case True
    then have ds: "ds = butlast ds @ [0]" using True by (cases ds rule: rev_cases) simp_all
    have "strip_zeros (butlast ds) (e + 1) = (ds', e')" using True 1(2) by (simp add: strip_zeros.simps [of ds])
    moreover have "butlast ds \<noteq> []" using True by (cases ds rule: rev_cases) auto
    ultimately have IH: "digits_value ds' e' = digits_value (butlast ds) (e + 1) \<and> ds' \<noteq> [] \<and> (length ds' = 1 \<or> last ds' \<noteq> 0) \<and>
    (all_digits (butlast ds) \<longrightarrow> all_digits ds') \<and> (\<exists>n. butlast ds = ds' @ replicate n 0 \<and> e' = e + 1 + int n)"
      using 1(1) True by blast
    then obtain n where n: "butlast ds = ds' @ replicate n 0" "e' = e + 1 + int n" by blast
    then have "ds = ds' @ replicate (Suc n) 0" "e' = e + int (Suc n)"
      using ds by (simp_all add: replicate_append_same)
    moreover have "digits_value ds e = digits_value (butlast ds) (e + 1)"
      using digits_value_zero [of "butlast ds" e] ds by simp
    moreover have "all_digits ds \<longrightarrow> all_digits (butlast ds)" using in_set_butlastD by (fastforce simp: all_digits_def)
    ultimately show ?thesis using IH by metis
  next
    case False
    then have "ds' = ds" "e' = e" using 1(2) by (auto simp: strip_zeros.simps [of ds])
    then show ?thesis using False 1(3) by (auto intro: exI [of _ 0] simp: not_less le_Suc_eq)
  qed
qed


lemma read_digits_text:
  "all_digits ds \<Longrightarrow> s = [] \<or> \<not> is_digit (hd s) \<Longrightarrow> read_digits (digit_text ds @ s) = (digit_text ds, s)"
  using digit_text_digits [of ds]
  by (cases s) (auto simp: read_digits_def takeWhile_append dropWhile_append)

lemma read_digits_text_end: "all_digits ds \<Longrightarrow> read_digits (digit_text ds) = (digit_text ds, [])"
  using read_digits_text [of ds "[]"] by simp

lemma digit_text_head: "all_digits ds \<Longrightarrow> ds \<noteq> [] \<Longrightarrow> read_sign (digit_text ds @ s) = (False, digit_text ds @ s)"
  by (cases ds) (auto simp: digit_text_def read_sign_def all_digits_def)

lemma read_sign_minus [simp]: "read_sign (45 # s) = (True, s)"
  by (simp add: read_sign_def)

lemma read_exponent_text: "n < 0 \<Longrightarrow> read_exponent (101 # int_text n) = Some n"
  using digit_text_digits [OF all_digits10 [of "nat \<bar>n\<bar>"]]
  by (auto simp: read_exponent_def int_text_def list_all_iff) (simp add: digit_text_def)

lemma digit_text_replicate: "replicate n 48 = digit_text (replicate n 0)"
  by (simp add: digit_text_def)

lemma all_digits_append [simp]: "all_digits (ds @ es) \<longleftrightarrow> all_digits ds \<and> all_digits es"
  by (auto simp: all_digits_def)

lemma all_digits_replicate [simp]: "all_digits (replicate n 0)"
  by (simp add: all_digits_def)

lemma digit_text_eq_Nil [simp]: "digit_text ds = [] \<longleftrightarrow> ds = []"
  by (simp add: digit_text_def)

lemma length_digit_text [simp]: "length (digit_text ds) = length ds"
  by (simp add: digit_text_def)

lemma read_sign_text:
  "all_digits ds \<Longrightarrow> ds \<noteq> [] \<Longrightarrow>
    read_sign ((if neg then [45] else []) @ digit_text ds @ s) = (neg, digit_text ds @ s)"
  by (simp add: digit_text_head)

text \<open>A sign, digits, an optional fraction and exponent are read back as they were written.\<close>

lemma scan_number:
  assumes "all_digits ds" "ds \<noteq> []" "all_digits es" "x < 0"
  shows "scan_decimal ((if neg then [45] else []) @ digit_text ds) = Some (Dec neg (from_digits ds) 0)"
    and "scan_decimal ((if neg then [45] else []) @ digit_text ds @ [46] @ digit_text es) =
      Some (Dec neg (from_digits (ds @ es)) (- int (length es)))"
    and "scan_decimal ((if neg then [45] else []) @ digit_text ds @ [46] @ digit_text es @ [101] @ int_text x) =
      Some (Dec neg (from_digits (ds @ es)) (x - int (length es)))"
    and "scan_decimal ((if neg then [45] else []) @ digit_text ds @ [101] @ int_text x) =
      Some (Dec neg (from_digits ds) x)"
proof -
  have nd: "\<not> is_digit 46" "\<not> is_digit 101" by (simp_all add: is_digit_def)
  note sign = read_sign_text [OF assms(1,2)] read_sign_text [OF assms(1,2), of neg "[]", simplified]
  note rd = read_digits_text [OF assms(1)] read_digits_text [OF assms(3)]
    read_digits_text_end [OF assms(1)] read_digits_text_end [OF assms(3)]
  have exp: "read_exponent (101 # int_text x) = Some x" by (rule read_exponent_text [OF assms(4)])
  show "scan_decimal ((if neg then [45] else []) @ digit_text ds) = Some (Dec neg (from_digits ds) 0)"
    by (simp add: scan_decimal_def sign rd assms(2) read_fraction_def read_exponent_def)
  show "scan_decimal ((if neg then [45] else []) @ digit_text ds @ [46] @ digit_text es) =
      Some (Dec neg (from_digits (ds @ es)) (- int (length es)))"
    by (simp add: scan_decimal_def sign rd nd assms(2) read_fraction_def read_exponent_def flip: digit_text_append)
  show "scan_decimal ((if neg then [45] else []) @ digit_text ds @ [46] @ digit_text es @ [101] @ int_text x) =
      Some (Dec neg (from_digits (ds @ es)) (x - int (length es)))"
    by (simp add: scan_decimal_def sign rd nd exp assms(2) read_fraction_def flip: digit_text_append)
  show "scan_decimal ((if neg then [45] else []) @ digit_text ds @ [101] @ int_text x) =
      Some (Dec neg (from_digits ds) x)"
    by (simp add: scan_decimal_def sign rd nd exp assms(2) read_fraction_def)
qed

lemma take_digit_text: "take n (digit_text ds) = digit_text (take n ds)"
  and drop_digit_text: "drop n (digit_text ds) = digit_text (drop n ds)"
  and hd_digit_text: "ds \<noteq> [] \<Longrightarrow> [hd (digit_text ds)] = digit_text [hd ds]"
  and tl_digit_text: "tl (digit_text ds) = digit_text (tl ds)"
  by (auto simp: digit_text_def take_map drop_map hd_map map_tl)

lemma all_digits_parts:
  "all_digits ds \<Longrightarrow> all_digits (take n ds)" "all_digits ds \<Longrightarrow> all_digits (drop n ds)"
  by (auto simp: all_digits_def dest: in_set_takeD in_set_dropD)

lemma number_text_scan:
  assumes "all_digits ds" "ds \<noteq> []"
  shows "\<exists>c x. scan_decimal (number_text neg ds e) = Some (Dec neg c x) \<and>
    of_nat c * 10 powi x = digits_value ds e"
proof -
  let ?point = "int (length ds) + e"
  consider "0 \<le> e" | "e < 0" "0 < ?point" | "e < 0" "?point \<le> 0" by linarith
  then show ?thesis
  proof cases
    case 1
    have "number_text neg ds e = (if neg then [45] else []) @ digit_text (ds @ replicate (nat e) 0)"
      using 1 by (simp add: number_text_def digit_text_replicate)
    then have "scan_decimal (number_text neg ds e) = Some (Dec neg (from_digits (ds @ replicate (nat e) 0)) 0)"
      using assms scan_number(1) [of "ds @ replicate (nat e) 0" "[]" "-1" neg]
      by (simp add: all_digits_def [of "[]"] del: from_digits_append digit_text_append)
    moreover have "of_nat (from_digits (ds @ replicate (nat e) 0)) * 10 powi 0 = digits_value ds e"
      using digits_value_zeros [of ds "nat e" 0] 1 by (simp add: digits_value_def)
    ultimately show ?thesis by blast
  next
    case 2
    let ?n = "nat ?point"
    have n: "0 < ?n" "?n < length ds" "- int (length (drop ?n ds)) = e" using 2 by auto
    then have ne: "take ?n ds \<noteq> []" by auto
    have "number_text neg ds e = (if neg then [45] else []) @ digit_text (take ?n ds) @ [46] @ digit_text (drop ?n ds)"
      using 2 by (simp add: number_text_def Let_def take_digit_text drop_digit_text)
    then have "scan_decimal (number_text neg ds e) = Some (Dec neg (from_digits ds) e)"
      using scan_number(2) [of "take ?n ds" "drop ?n ds" "-1" neg] assms ne all_digits_parts n(3)
      by (simp del: from_digits_append)
    then show ?thesis by (auto simp: digits_value_def)
  next
    case 3
    let ?x = "int (length ds) + e - 1"
    have x: "?x < 0" "?x - int (length (tl ds)) = e" using 3 assms(2) by (cases ds; simp)+
    have parts: "all_digits [hd ds]" "all_digits (tl ds)" "[hd ds] @ tl ds = ds"
      using assms by (cases ds; auto simp: all_digits_def)+
    show ?thesis
    proof (cases "1 < length ds")
      case True
      then have "number_text neg ds e = (if neg then [45] else []) @ digit_text [hd ds] @ [46] @
          digit_text (tl ds) @ [101] @ int_text ?x"
        using 3 assms(2) hd_digit_text [of ds] by (simp add: number_text_def tl_digit_text)
      then have "scan_decimal (number_text neg ds e) = Some (Dec neg (from_digits ds) e)"
        using scan_number(3) [of "[hd ds]" "tl ds" ?x neg] parts x by (simp del: from_digits_append)
      then show ?thesis by (auto simp: digits_value_def)
    next
      case False
      then have ds: "ds = [hd ds]" using assms(2) by (cases ds) auto
      then have "number_text neg ds e = (if neg then [45] else []) @ digit_text ds @ [101] @ int_text ?x"
        using 3 assms(2) hd_digit_text [of ds] False by (simp add: number_text_def)
      then have "scan_decimal (number_text neg ds e) = Some (Dec neg (from_digits ds) ?x)"
        using scan_number(4) [of ds "[]" ?x neg] assms x by (simp add: all_digits_def [of "[]"])
      moreover have "?x = e" using False assms(2) by (cases ds) auto
      ultimately show ?thesis by (auto simp: digits_value_def)
    qed
  qed
qed

text \<open>What the encoder does with a number in range.\<close>

lemma encode_json_number_cases:
  assumes "encode_json_number d = Inr t"
  obtains (zero) "dec_coef d = 0" "t = [48]"
  | (nonzero) ds e n where "dec_coef d \<noteq> 0" "t = number_text (dec_neg d) ds e" "all_digits ds" "ds \<noteq> []"
    "digits10 (dec_coef d) = ds @ replicate n 0" "last ds \<noteq> 0"
    "digits_value ds e = of_nat (dec_coef d) * 10 powi (dec_exp d)"
proof -
  from assms have d: "in_finite_range d = Inr d"
    by (auto simp: encode_json_number_def in_finite_range_def bind_res_def split: if_splits sum.splits)
  show ?thesis
  proof (cases "dec_coef d = 0")
    case True
    then show ?thesis using assms d by (intro zero) (simp_all add: encode_json_number_def)
  next
    case False
    obtain ds e where s: "strip_zeros (digits10 (dec_coef d)) (dec_exp d) = (ds, e)" by fastforce
    have t: "t = number_text (dec_neg d) ds e"
      using assms False s d by (simp add: encode_json_number_def)
    obtain n where spec: "digits_value ds e = digits_value (digits10 (dec_coef d)) (dec_exp d)"
      "ds \<noteq> []" "length ds = 1 \<or> last ds \<noteq> 0" "all_digits ds" "digits10 (dec_coef d) = ds @ replicate n 0"
      using strip_zeros_spec [OF s digits10_not_Nil] all_digits10 by blast
    have "last ds \<noteq> 0"
    proof
      assume "last ds = 0"
      then have "ds = [0]" using spec(2,3) by (cases ds) auto
      then have "from_digits (digits10 (dec_coef d)) = 0" 
        using spec(5) from_digits_append [of "[0]" "replicate n 0"] by (simp del: from_digits_append)
      then show False using False by simp
    qed
    then show ?thesis using nonzero [OF False t spec(4,2,5)] spec(1) by (simp add: digits_value_def)
  qed
qed

lemma encode_json_number_value:
  assumes "encode_json_number d = Inr t"
  shows "\<exists>d'. scan_decimal t = Some d' \<and> dec_value d' = dec_value d"
  using assms
proof (cases rule: encode_json_number_cases)
  case zero
  have "scan_decimal [48] = Some (Dec False 0 0)"
    using scan_number(1) [of "[0]" "[]" "-1" False] by (simp add: all_digits_def digit_text_def)
  then show ?thesis using zero by (simp add: dec_value_def)
next
  case (nonzero ds e n)
  then show ?thesis using number_text_scan [of ds "dec_neg d" e] by (auto simp: dec_value_def)
qed

lemma digits10_snoc: "0 < n \<Longrightarrow> d < 10 \<Longrightarrow> digits10 (n * 10 + d) = digits10 n @ [d]"
  by (subst digits10.simps) simp

lemma from_digits_pos: "ds \<noteq> [] \<Longrightarrow> hd ds \<noteq> 0 \<Longrightarrow> 0 < from_digits ds"
  by (induction ds rule: rev_induct) (auto simp: hd_append split: if_splits)

lemma digits10_from_digits:
  "all_digits ds \<Longrightarrow> ds \<noteq> [] \<Longrightarrow> hd ds \<noteq> 0 \<Longrightarrow> digits10 (from_digits ds) = ds"
proof (induction ds rule: rev_induct)
  case (snoc d ds)
  then show ?case
    by (cases "ds = []")
      (auto simp: all_digits_def digits10_snoc from_digits_pos digits10.simps [of d])
qed simp

lemma hd_digits10: "0 < n \<Longrightarrow> hd (digits10 n) \<noteq> 0"
proof (induction n rule: digits10.induct)
  case (1 n)
  then show ?case by (subst digits10.simps) (auto simp: div_greater_zero_iff)
qed

lemma last_not_dvd: "all_digits ds \<Longrightarrow> ds \<noteq> [] \<Longrightarrow> last ds \<noteq> 0 \<Longrightarrow> \<not> 10 dvd from_digits ds"
proof (induction ds rule: rev_induct)
  case (snoc d ds)
  then have "0 < d" "d < 10" by (auto simp: all_digits_def)
  then have "(from_digits ds * 10 + d) mod 10 \<noteq> 0" by simp
  then show ?case by (auto simp: dvd_eq_mod_eq_0)
qed simp

lemma scaled_unique:
  assumes "\<not> 10 dvd a" "\<not> 10 dvd (b :: nat)" "of_nat a * 10 powi e = (of_nat b * 10 powi f :: rat)"
  shows "a = b \<and> e = f"
proof -
  have wlog: "a = b \<and> e = f" if "\<not> 10 dvd a" "of_nat a * 10 powi e = (of_nat b * 10 powi f :: rat)" "e \<le> f"
    for a b :: nat and e f
  proof -
    define k where "k = nat (f - e)"
    have f: "f = e + int k" using that(3) by (simp add: k_def)
    have "of_nat a * 10 powi e = (of_nat (b * 10 ^ k) * 10 powi e :: rat)"
      using that(2) by (simp add: f power_int_add)
    then have "(of_nat a :: rat) = of_nat (b * 10 ^ k)" by simp
    then have "a = b * 10 ^ k" by (simp only: of_nat_eq_iff)
    moreover have "k = 0" using that(1) \<open>a = b * 10 ^ k\<close> by (cases k) auto
    ultimately show ?thesis using f by simp
  qed
  show ?thesis
  proof (cases "e \<le> f")
    case True
    then show ?thesis using wlog [OF assms(1,3)] by blast
  next
    case False
    then show ?thesis using wlog [OF assms(2) assms(3) [symmetric]] by simp
  qed
qed

lemma dec_value_eq_0: "dec_value d = 0 \<longleftrightarrow> dec_coef d = 0"
  by (auto simp: dec_value_def)

lemma encode_json_number_canonical:
  assumes "encode_json_number d1 = Inr t1" "encode_json_number d2 = Inr t2"
  shows "t1 = t2 \<longleftrightarrow> dec_value d1 = dec_value d2"
proof
  assume "t1 = t2"
  then show "dec_value d1 = dec_value d2" 
    using encode_json_number_value [OF assms(1)] encode_json_number_value [OF assms(2)] by auto
next
  assume eq: "dec_value d1 = dec_value d2"
  show "t1 = t2"
    using assms(1)
  proof (cases rule: encode_json_number_cases)
    case zero
    then have "dec_coef d2 = 0" using eq dec_value_eq_0 by metis
    from assms(2) show ?thesis
      by (cases rule: encode_json_number_cases) (use zero \<open>dec_coef d2 = 0\<close> in auto)
  next
    case A: (nonzero ds e n)
    from assms(2) show ?thesis
    proof (cases rule: encode_json_number_cases)
      case zero
      then show ?thesis using A eq dec_value_eq_0 by metis
    next
      case B: (nonzero ds' e' n')
      have pos: "0 < digits_value ds e" "0 < digits_value ds' e'" using A B by simp_all
      have neg: "dec_neg d1 = dec_neg d2" and val: "digits_value ds e = digits_value ds' e'"
        using eq pos by (auto simp: dec_value_def A(7) B(7) simp flip: A(7) B(7) split: if_splits)
      have same: "from_digits ds = from_digits ds' \<and> e = e'"
        using last_not_dvd [OF A(3,4,6)] last_not_dvd [OF B(3,4,6)] val
        by (intro scaled_unique) (simp_all add: digits_value_def)
      have "hd ds \<noteq> 0" "hd ds' \<noteq> 0"
        using A(1,4,5) B(1,4,5) hd_digits10 [of "dec_coef d1"] hd_digits10 [of "dec_coef d2"] by simp_all
      then have "digits10 (from_digits ds) = ds" "digits10 (from_digits ds') = ds'"
        using A(3,4) B(3,4) by (simp_all add: digits10_from_digits)
      then have "ds = ds'" using same by metis
      then show ?thesis using A(2) B(2) neg same by simp
    qed
  qed
qed

end
