(* ===== verification/Json_Finite.thy ===== *)
theory Json_Finite
  imports Json_Numbers
begin

text \<open>
  The finite range of a JSON number.  \<open>abs_exceeds\<close> compares with \<open>MAX_FINITE_BINARY64\<close> after a
  rounding to 28 digits; here it is shown what the comparison says of the number before the
  rounding: it is at most the largest finite double plus half a unit of the 28th digit, far
  below the next power of two, so that its conversion to a double is finite.
\<close>

lemma length_digits10_le: "0 < k \<Longrightarrow> length (digits10 n) \<le> k \<longleftrightarrow> n < 10 ^ k"
proof (induction n arbitrary: k rule: digits10.induct)
  case (1 n)
  show ?case
  proof (cases "n < 10")
    case True
    moreover have "(10::nat) \<le> 10 ^ k" using 1(2) by (cases k) auto
    ultimately show ?thesis using 1(2) by (subst digits10.simps) auto
  next
    case False
    obtain j where k: "k = Suc j" using 1(2) by (cases k) auto
    have "length (digits10 n) \<le> k \<longleftrightarrow> length (digits10 (n div 10)) \<le> j"
      using False k by (subst digits10.simps) simp
    also have "\<dots> \<longleftrightarrow> n < 10 ^ k"
    proof (cases "j = 0")
      case True
      then show ?thesis using False k by simp
    next
      case j: False
      then have "length (digits10 (n div 10)) \<le> j \<longleftrightarrow> n div 10 < 10 ^ j" using 1(1) False by blast
      also have "\<dots> \<longleftrightarrow> n < 10 ^ k" by (simp add: k div_less_iff_less_mult mult.commute)
      finally show ?thesis .
    qed
    finally show ?thesis .
  qed
qed

text \<open>\<open>MAX_FINITE_BINARY64\<close>, 1.7976931348623157e308, and the range of the numbers a document may hold.\<close>

definition LARGEST_FINITE :: rat where
  "LARGEST_FINITE = 17976931348623157 * 10 ^ 292"

definition finite_number :: "rat \<Rightarrow> bool" where
  "finite_number v = (\<bar>v\<bar> \<le> LARGEST_FINITE + 5 * 10 ^ 280)"

lemma round_half_even_near: "0 < k \<Longrightarrow> 2 * n \<le> 2 * k * round_half_even n k + k"
proof -
  assume k: "0 < k"
  have n: "n = k * (n div k) + n mod k" "n mod k < k" using k by simp_all
  show ?thesis
  proof (cases "2 * (n mod k) < k \<or> 2 * (n mod k) = k \<and> even (n div k)")
    case True
    then have "round_half_even n k = n div k" by (simp add: round_half_even_def)
    moreover have "2 * n = 2 * (k * (n div k)) + 2 * (n mod k)" using n(1) by linarith
    ultimately show ?thesis using True by (simp add: mult.assoc) linarith
  next
    case False
    then have "round_half_even n k = n div k + 1" by (simp add: round_half_even_def Let_def)
    moreover have "2 * n = 2 * (k * (n div k)) + 2 * (n mod k)" using n(1) by linarith
    ultimately show ?thesis using n(2) by (simp add: algebra_simps)
  qed
qed

lemma round_half_even_ge: "n div k \<le> round_half_even n k"
  by (simp add: round_half_even_def Let_def)

lemma powi_split: "(10 :: rat) powi e = 10 ^ nat e / 10 ^ nat (- e)"
  by (cases "0 \<le> e") (simp_all add: power_int_def field_simps)

lemma not_above_binary64:
  assumes "\<not> above_binary64 c e"
  shows "of_nat c * 10 powi e \<le> LARGEST_FINITE"
proof (cases "c = 0")
  case True
  then show ?thesis by (simp add: LARGEST_FINITE_def)
next
  case False
  let ?k = "adjusted c e"
  have k: "?k < 308 \<or> ?k = 308 \<and> c * 10 ^ nat (e - 292) \<le> 17976931348623157 * 10 ^ nat (292 - e)"
    using assms False by (auto simp: above_binary64_def Let_def)
  then show ?thesis
  proof
    assume small: "?k < 308"
    have "c < 10 ^ length (digits10 c)" using length_digits10_le [of "length (digits10 c)" c] by simp
    then have "(of_nat c :: rat) < of_nat (10 ^ length (digits10 c))" by (simp only: of_nat_less_iff)
    then have "of_nat c * 10 powi e \<le> (10 :: rat) ^ length (digits10 c) * 10 powi e"
      by (intro mult_right_mono) simp_all
    also have "\<dots> = 10 powi (e + int (length (digits10 c)))" by (simp add: power_int_add)
    also have "\<dots> \<le> 10 powi 308"
      by (rule power_int_increasing) (use small in \<open>simp_all add: adjusted_def\<close>)
    also have "\<dots> \<le> LARGEST_FINITE" by (simp add: LARGEST_FINITE_def)
    finally show ?thesis .
  next
    assume large: "?k = 308 \<and> c * 10 ^ nat (e - 292) \<le> 17976931348623157 * 10 ^ nat (292 - e)"
    then have "(of_nat (c * 10 ^ nat (e - 292)) :: rat) \<le> of_nat (17976931348623157 * 10 ^ nat (292 - e))"
      by (simp only: of_nat_le_iff)
    then have "of_nat c * (10 :: rat) ^ nat (e - 292) \<le> 17976931348623157 * 10 ^ nat (292 - e)" by simp
    then have "of_nat c * ((10 :: rat) ^ nat (e - 292) / 10 ^ nat (292 - e)) \<le> 17976931348623157"
      by (simp add: field_simps)
    moreover have "(10 :: rat) ^ nat (e - 292) / 10 ^ nat (292 - e) = 10 powi (e - 292)"
      using powi_split [of "e - 292"] by simp
    ultimately have "of_nat c * (10 :: rat) powi (e - 292) \<le> 17976931348623157" by simp
    then have "of_nat c * (10 :: rat) powi (e - 292) * 10 ^ 292 \<le> LARGEST_FINITE"
      unfolding LARGEST_FINITE_def by (intro mult_right_mono) simp_all
    moreover have "(10 :: rat) powi (e - 292) * 10 ^ 292 = 10 powi e"
    proof -
      have "(10 :: rat) powi e = 10 powi (e - 292 + 292)" by simp
      also have "\<dots> = 10 powi (e - 292) * 10 powi 292" by (rule power_int_add) simp
      finally show ?thesis by (simp add: power_int_def)
    qed
    ultimately show ?thesis by (simp add: mult.assoc)
  qed
qed

text \<open>What passes the check after the rounding is below the bound before it.\<close>

lemma checked_finite:
  assumes "abs_exceeds coef e = Inr False"
  shows "of_nat coef * 10 powi e \<le> LARGEST_FINITE + 5 * 10 ^ 280"
proof -
  obtain c e' where ce: "context_round coef e = (c, e')" by fastforce
  have "\<not> above_binary64 c e'" using assms by (auto simp: abs_exceeds_def ce split: if_splits)
  note M = not_above_binary64 [OF this]
  show ?thesis
  proof (cases "length (digits10 coef) \<le> CONTEXT_DIGITS")
    case True
    then show ?thesis using ce M by (simp add: context_round_def)
  next
    case False
    define x where "x = length (digits10 coef) - CONTEXT_DIGITS"
    have x: "length (digits10 coef) = x + CONTEXT_DIGITS" "0 < x" using False by (simp_all add: x_def)
    have c: "c = round_half_even coef (10 ^ x)" "e' = e + int x"
      using ce x False by (auto simp: context_round_def Let_def)
    have "10 ^ (x + 27) \<le> coef"
      using length_digits10_le [of "x + 27" coef] x by (simp add: CONTEXT_DIGITS_def)
    then have "10 ^ 27 \<le> coef div 10 ^ x" by (simp add: less_eq_div_iff_mult_less_eq power_add mult.commute)
    then have "10 ^ 27 \<le> c" using round_half_even_ge [of coef "10 ^ x"] c(1) by linarith
    then have "(of_nat (10 ^ 27) :: rat) \<le> of_nat c" by (simp only: of_nat_le_iff)
    then have "(10 :: rat) ^ 27 * 10 powi e' \<le> of_nat c * 10 powi e'" by (intro mult_right_mono) simp_all
    also have "\<dots> < 10 ^ 309" using M by (simp add: LARGEST_FINITE_def)
    finally have "(10 :: rat) powi (27 + e') < 10 powi 309" by (simp add: power_int_add)
    then have e': "e' \<le> 281" using power_int_increasing [of 309 "27 + e'" "10 :: rat"] by linarith
    have "2 * coef \<le> 2 * 10 ^ x * c + 10 ^ x" using round_half_even_near [of "10 ^ x" coef] c(1) by simp
    then have "(of_nat (2 * coef) :: rat) \<le> of_nat (2 * 10 ^ x * c + 10 ^ x)" by (simp only: of_nat_le_iff)
    then have "2 * (of_nat coef :: rat) * 10 powi e \<le> (2 * of_nat c * 10 ^ x + 10 ^ x) * 10 powi e"
      by (intro mult_right_mono) (simp_all add: algebra_simps)
    also have "\<dots> = 2 * (of_nat c * 10 powi e') + 10 powi e'" by (simp add: c(2) power_int_add algebra_simps)
    also have "\<dots> \<le> 2 * LARGEST_FINITE + 10 powi 281"
      by (intro add_mono mult_left_mono M power_int_increasing) (use e' in simp_all)
    finally show ?thesis by simp
  qed
qed

lemma decimal_finite: "in_finite_range d = Inr d' \<Longrightarrow> d' = d \<and> finite_number (dec_value d)"
  using checked_finite [of "dec_coef d" "dec_exp d"]
  by (auto simp: in_finite_range_def bind_res_eq_Inr finite_number_def dec_value_def abs_mult split: if_splits)

lemma exact_decimal_finite: "parse_exact_json_decimal s = Inr d \<Longrightarrow> finite_number (dec_value d)"
  using decimal_finite by (auto simp: parse_exact_json_decimal_def split: option.splits)

lemma json_integer_finite: "parse_json_integer s = Inr n \<Longrightarrow> finite_number (of_int n)"
  using checked_finite [of _ 0]
  by (auto simp: parse_json_integer_def Let_def bind_res_eq_Inr finite_number_def split: if_splits prod.splits)

end
