(* ===== verification/Json_Text.thy ===== *)
theory Json_Text
  imports Json_Finite
begin

text \<open>
  The canonical text of a JSON document (\<open>_encode_json\<close>, \<open>encode_json_bytes\<close>), the two
  helpers that prepare documents (\<open>parse_json_object_pairs\<close>, \<open>normalize_json_numbers\<close>), and
  the proof that makes the request digest meaningful: two documents have the same canonical text
  precisely when they agree up to the order of object keys and the spelling of numbers.
\<close>

subsection \<open>Strings\<close>

text \<open>\<open>json.dumps(value, ensure_ascii=False)\<close> on a string.\<close>

definition hex_char :: "nat \<Rightarrow> nat" where
  "hex_char d = (if d < 10 then 48 + d else 87 + d)"

definition escape_char :: "nat \<Rightarrow> pystr" where
  "escape_char c =
    (if c = 34 then [92, 34] else if c = 92 then [92, 92]
     else if c = 10 then [92, 110] else if c = 13 then [92, 114] else if c = 9 then [92, 116]
     else if c = 12 then [92, 102] else if c = 8 then [92, 98]
     else if c < 32 then [92, 117, 48, 48, hex_char (c div 16), hex_char (c mod 16)]
     else [c])"

definition json_string :: "pystr \<Rightarrow> pystr" where
  "json_string s = [34] @ concat (map escape_char s) @ [34]"

subsection \<open>Documents\<close>

text \<open>\<open>",".join(parts)\<close>\<close>

fun comma_join :: "pystr list \<Rightarrow> pystr" where
  "comma_join [] = []"
| "comma_join [p] = p"
| "comma_join (p # q # ps) = p @ [44] @ comma_join (q # ps)"

text \<open>
  \<open>str(value)\<close> of an \<open>int\<close> of more than 4300 digits raises \<open>ValueError\<close>; of a \<open>Decimal\<close> or
  a float it is a text from which \<open>Decimal\<close> reads the same decimal again.
\<close>

definition int_decimal :: "int \<Rightarrow> decimal result" where
  "int_decimal n =
    (if MAX_INT_DIGITS < length (digits10 (nat \<bar>n\<bar>))
     then Inl (ValueError ''Exceeds the limit for integer string conversion'')
     else Inr (Dec (n < 0) (nat \<bar>n\<bar>) 0))"

definition key_order :: "bool \<Rightarrow> jobj \<Rightarrow> jobj" where
  "key_order sort_keys ob = (if sort_keys then sort_key fst ob else ob)"

lemma set_key_order [simp]: "set (key_order sort_keys ob) = set ob"
  by (simp add: key_order_def)

fun encode_json :: "bool \<Rightarrow> json \<Rightarrow> pystr result" where
  "encode_json sort_keys JNull = Inr (py ''null'')"
| "encode_json sort_keys (JBool b) = Inr (if b then py ''true'' else py ''false'')"
| "encode_json sort_keys (JInt n) = bind_res (int_decimal n) encode_json_number"
| "encode_json sort_keys (JDec d) = encode_json_number d"
| "encode_json sort_keys (JFloat d) = encode_json_number d"
| "encode_json sort_keys (JStr s) = Inr (json_string s)"
| "encode_json sort_keys (JList vs) =
    bind_res (map_res (encode_json sort_keys) vs) (\<lambda>ts. Inr ([91] @ comma_join ts @ [93]))"
| "encode_json sort_keys (JObj ob) =
    bind_res (map_res (\<lambda>kv. bind_res (encode_json sort_keys (snd kv))
        (\<lambda>t. Inr (json_string (fst kv) @ [58] @ t))) (key_order sort_keys ob))
      (\<lambda>ts. Inr ([123] @ comma_join ts @ [125]))"

definition encode_json_bytes :: "bool \<Rightarrow> json \<Rightarrow> nat list result" where
  "encode_json_bytes sort_keys v = bind_res (encode_json sort_keys v) utf8_encode"

text \<open>The hook that builds an object: duplicate keys are refused, insertion order is kept.\<close>

fun object_pairs :: "jobj \<Rightarrow> jobj \<Rightarrow> jobj result" where
  "object_pairs document [] = Inr document"
| "object_pairs document ((k, v) # pairs) =
    (if k \<in> jkeys document
     then Inl (ValueError ''duplicate JSON object key is not supported'')
     else object_pairs (document @ [(k, v)]) pairs)"

definition parse_json_object_pairs :: "jobj \<Rightarrow> jobj result" where
  "parse_json_object_pairs pairs = object_pairs [] pairs"

fun normalize_json_numbers :: "json \<Rightarrow> json" where
  "normalize_json_numbers (JFloat d) = JDec d"
| "normalize_json_numbers (JObj ob) = JObj (map (\<lambda>(k, v). (k, normalize_json_numbers v)) ob)"
| "normalize_json_numbers (JList vs) = JList (map normalize_json_numbers vs)"
| "normalize_json_numbers v = v"

subsection \<open>The canonical document behind a text\<close>

definition dec_norm :: "decimal \<Rightarrow> decimal" where
  "dec_norm d =
    (if dec_coef d = 0 then Dec False 0 0
     else case strip_zeros (digits10 (dec_coef d)) (dec_exp d) of
       (ds, e) \<Rightarrow> Dec (dec_neg d) (from_digits ds) e)"

fun canon :: "json \<Rightarrow> json" where
  "canon (JInt n) = JDec (dec_norm (Dec (n < 0) (nat \<bar>n\<bar>) 0))"
| "canon (JDec d) = JDec (dec_norm d)"
| "canon (JFloat d) = JDec (dec_norm d)"
| "canon (JList vs) = JList (map canon vs)"
| "canon (JObj ob) = JObj (sort_key fst (map (\<lambda>(k, v). (k, canon v)) ob))"
| "canon v = v"

definition emit_number :: "decimal \<Rightarrow> pystr" where
  "emit_number d =
    (if dec_coef d = 0 then [48] else number_text (dec_neg d) (digits10 (dec_coef d)) (dec_exp d))"

fun emit :: "json \<Rightarrow> pystr" where
  "emit JNull = py ''null''"
| "emit (JBool b) = (if b then py ''true'' else py ''false'')"
| "emit (JDec d) = emit_number d"
| "emit (JStr s) = json_string s"
| "emit (JList vs) = [91] @ comma_join (map emit vs) @ [93]"
| "emit (JObj ob) = [123] @ comma_join (map (\<lambda>(k, v). json_string k @ [58] @ emit v) ob) @ [125]"
| "emit (JInt n) = []"
| "emit (JFloat d) = []"

definition normal_dec :: "decimal \<Rightarrow> bool" where
  "normal_dec d = (if dec_coef d = 0 then d = Dec False 0 0 else \<not> 10 dvd dec_coef d)"

fun canonical :: "json \<Rightarrow> bool" where
  "canonical (JDec d) = normal_dec d"
| "canonical (JInt n) = False"
| "canonical (JFloat d) = False"
| "canonical (JList vs) = list_all canonical vs"
| "canonical (JObj ob) = list_all (\<lambda>(k, v). canonical v) ob"
| "canonical v = True"

lemma dec_norm_parts:
  assumes "dec_coef d \<noteq> 0" "strip_zeros (digits10 (dec_coef d)) (dec_exp d) = (ds, e)"
  shows "digits10 (from_digits ds) = ds" "all_digits ds" "ds \<noteq> []" "last ds \<noteq> 0" "0 < from_digits ds"
    "digits_value ds e = of_nat (dec_coef d) * 10 powi (dec_exp d)"
proof -
  obtain n where spec: "digits_value ds e = digits_value (digits10 (dec_coef d)) (dec_exp d)"
    "ds \<noteq> []" "length ds = 1 \<or> last ds \<noteq> 0" "all_digits ds" "digits10 (dec_coef d) = ds @ replicate n 0"
    using strip_zeros_spec [OF assms(2) digits10_not_Nil] all_digits10 by blast
  have hd: "hd ds \<noteq> 0" using hd_digits10 [of "dec_coef d"] assms(1) spec(2,5) by simp
  show "all_digits ds" "ds \<noteq> []" "digits10 (from_digits ds) = ds" "0 < from_digits ds"
    using spec hd by (simp_all add: digits10_from_digits from_digits_pos)
  show "last ds \<noteq> 0" using spec(2,3) hd by (cases ds) auto
  show "digits_value ds e = of_nat (dec_coef d) * 10 powi (dec_exp d)"
    using spec(1) by (simp add: digits_value_def)
qed

lemma normal_dec_norm: "normal_dec (dec_norm d)"
  using dec_norm_parts [of d] last_not_dvd by (auto simp: dec_norm_def normal_dec_def split: prod.split)

lemma dec_norm_value: "dec_value (dec_norm d) = dec_value d"
  using dec_norm_parts [of d] by (auto simp: dec_norm_def dec_value_def digits_value_def split: prod.split)

lemma normal_dec_unique:
  assumes "normal_dec a" "normal_dec b" "dec_value a = dec_value b"
  shows "a = b"
proof (cases "dec_coef a = 0")
  case True
  then have "dec_coef b = 0" using assms(3) dec_value_eq_0 by metis
  then show ?thesis using True assms by (simp add: normal_dec_def)
next
  case False
  then have b: "dec_coef b \<noteq> 0" using assms(3) dec_value_eq_0 by metis
  let ?v = "\<lambda>d. of_nat (dec_coef d) * 10 powi (dec_exp d) :: rat"
  have "0 < ?v a" "0 < ?v b" using False b by simp_all
  then have "dec_neg a = dec_neg b" "?v a = ?v b"
    using assms(3) by (auto simp: dec_value_def split: if_splits)
  moreover have "dec_coef a = dec_coef b \<and> dec_exp a = dec_exp b"
    using assms(1,2) False b \<open>?v a = ?v b\<close> by (intro scaled_unique) (simp_all add: normal_dec_def)
  ultimately show ?thesis by (simp add: decimal.expand)
qed

lemma dec_norm_eq_iff: "dec_norm a = dec_norm b \<longleftrightarrow> dec_value a = dec_value b"
  using normal_dec_unique [OF normal_dec_norm normal_dec_norm] dec_norm_value by metis

lemma encode_number_emit:
  assumes "encode_json_number d = Inr t"
  shows "t = emit_number (dec_norm d)"
proof -
  have d: "in_finite_range d = Inr d"
    using assms by (auto simp: encode_json_number_def in_finite_range_def bind_res_def split: if_splits sum.splits)
  show ?thesis
  proof (cases "dec_coef d = 0")
    case True
    then show ?thesis using assms d by (simp add: encode_json_number_def dec_norm_def emit_number_def)
  next
    case False
    obtain ds e where s: "strip_zeros (digits10 (dec_coef d)) (dec_exp d) = (ds, e)" by fastforce
    then show ?thesis using assms d False dec_norm_parts [OF False s]
      by (simp add: encode_json_number_def dec_norm_def emit_number_def)
  qed
qed

lemma canonical_canon: "canonical (canon v)"
  by (induction v) (auto simp: normal_dec_norm list_all_iff)

lemma sort_key_map_fst: "sort_key fst (map (\<lambda>(k, v). (k, f v)) ob) = map (\<lambda>(k, v). (k, f v)) (sort_key fst ob)"
proof -
  have ins: "insort_key fst (k, f v) (map (\<lambda>(k, v). (k, f v)) xs) = map (\<lambda>(k, v). (k, f v)) (insort_key fst (k, v) xs)"
    for k v and xs :: "(_ \<times> _) list"
    by (induction xs) auto
  then show ?thesis by (induction ob) (auto simp: ins)
qed

lemma map_res_map:
  "map_res f xs = Inr ts \<Longrightarrow> (\<And>x t. x \<in> set xs \<Longrightarrow> f x = Inr t \<Longrightarrow> t = g x) \<Longrightarrow> ts = map g xs"
  by (induction xs arbitrary: ts) (auto simp: bind_res_eq_Inr)

lemma encode_emit: "encode_json True v = Inr t \<Longrightarrow> t = emit (canon v)"
proof (induction v arbitrary: t)
  case (JInt n)
  then show ?case by (auto simp: bind_res_eq_Inr int_decimal_def encode_number_emit split: if_splits)
next
  case (JList vs)
  then obtain ts where ts: "map_res (encode_json True) vs = Inr ts" "t = [91] @ comma_join ts @ [93]"
    by (auto simp: bind_res_eq_Inr)
  have "ts = map (\<lambda>v. emit (canon v)) vs" using ts(1) JList.IH by (rule map_res_map)
  then show ?case using ts(2) by (simp add: comp_def)
next
  case (JObj ob)
  let ?f = "\<lambda>kv. bind_res (encode_json True (snd kv)) (\<lambda>t. Inr (json_string (fst kv) @ [58] @ t))"
  from JObj.prems obtain ts where ts: "map_res ?f (sort_key fst ob) = Inr ts" "t = [123] @ comma_join ts @ [125]"
    by (auto simp: bind_res_eq_Inr key_order_def)
  have "ts = map (\<lambda>kv. json_string (fst kv) @ [58] @ emit (canon (snd kv))) (sort_key fst ob)"
    using ts(1)
  proof (rule map_res_map)
    fix x t assume x: "x \<in> set (sort_key fst ob)" "?f x = Inr t"
    then have "x \<in> set ob" by simp
    moreover have "snd x \<in> Basic_BNFs.snds x" by (cases x) simp
    ultimately show "t = json_string (fst x) @ [58] @ emit (canon (snd x))"
      using x(2) JObj.IH [of x "snd x"] by (auto simp: bind_res_eq_Inr simp del: set_sort)
  qed
  moreover have "map (\<lambda>(k, v). json_string k @ [58] @ emit v) (sort_key fst (map (\<lambda>(k, v). (k, canon v)) ob)) =
      map (\<lambda>kv. json_string (fst kv) @ [58] @ emit (canon (snd kv))) (sort_key fst ob)"
    by (auto simp: sort_key_map_fst)
  ultimately show ?case using ts(2) by (simp only: canon.simps emit.simps)
qed (auto simp: encode_number_emit)


subsection \<open>Canonical texts are uniquely readable\<close>

text \<open>What may follow a value inside a document.\<close>

definition stops :: "pystr \<Rightarrow> bool" where
  "stops r = (case r of [] \<Rightarrow> True | c # _ \<Rightarrow> c = 44 \<or> c = 93 \<or> c = 125)"

definition number_char :: "nat \<Rightarrow> bool" where
  "number_char c = (is_digit c \<or> c = 45 \<or> c = 46 \<or> c = 101)"

lemma digit_text_number: "all_digits ds \<Longrightarrow> list_all number_char (digit_text ds)"
  using digit_text_digits by (auto simp: list_all_iff number_char_def)

lemma all_digits_tl: "all_digits ds \<Longrightarrow> all_digits (tl ds)"
  by (cases ds) (auto simp: all_digits_def)

lemma int_text_number: "list_all number_char (int_text n)"
  using digit_text_number [OF all_digits10] by (auto simp: int_text_def number_char_def)

lemma number_text_chars:
  assumes "all_digits ds" "ds \<noteq> []"
  shows "list_all number_char (number_text neg ds e)"
proof -
  have "list_all number_char (digit_text (take n ds))" "list_all number_char (digit_text (drop n ds))" for n
    using assms by (auto intro!: digit_text_number all_digits_parts)
  moreover have "number_char (hd (digit_text ds))"
    using assms digit_text_number [of ds] by (cases ds) (simp_all add: digit_text_def)
  moreover have "list_all number_char (tl (digit_text ds))"
    using assms by (auto simp: tl_digit_text intro!: digit_text_number all_digits_tl)
  moreover have "number_char 45" "number_char 46" "number_char 48" "number_char 101"
    by (simp_all add: number_char_def is_digit_def)
  ultimately show ?thesis
    using int_text_number digit_text_number [OF assms(1)]
    by (auto simp: number_text_def Let_def take_digit_text drop_digit_text list_all_iff)
qed

lemma emit_number_chars: "list_all number_char (emit_number d)"
  using number_text_chars [OF all_digits10 digits10_not_Nil]
  by (auto simp: emit_number_def number_char_def is_digit_def)

lemma emit_number_value:
  "\<exists>d'. scan_decimal (emit_number d) = Some d' \<and> dec_value d' = dec_value d"
proof (cases "dec_coef d = 0")
  case True
  then show ?thesis
    using scan_number(1) [of "[0]" "[]" "-1" False]
    by (simp add: all_digits_def digit_text_def emit_number_def dec_value_def)
next
  case False
  then show ?thesis
    using number_text_scan [OF all_digits10 digits10_not_Nil, of "dec_neg d" "dec_coef d" "dec_exp d"]
    by (auto simp: emit_number_def dec_value_def digits_value_def)
qed

lemma emit_number_head:
  obtains c cs where "emit_number d = c # cs" "number_char c"
proof -
  have "emit_number d \<noteq> []"
    using emit_number_value [of d] by (auto simp: scan_decimal_def read_sign_def read_digits_def read_fraction_def)
  then show ?thesis using emit_number_chars [of d] that by (cases "emit_number d") auto
qed

lemma stops_not_number: "stops r \<Longrightarrow> r = [] \<or> \<not> number_char (hd r)"
  by (cases r) (auto simp: stops_def number_char_def is_digit_def)

lemma take_number: "list_all number_char t \<Longrightarrow> stops r \<Longrightarrow>
    takeWhile number_char (t @ r) = t \<and> dropWhile number_char (t @ r) = r"
  using stops_not_number [of r] by (induction t) (cases r; auto)+

lemma emit_number_inj:
  assumes "emit_number a @ r = emit_number b @ s" "stops r" "stops s" "normal_dec a" "normal_dec b"
  shows "a = b \<and> r = s"
proof -
  have "emit_number a = emit_number b \<and> r = s"
    using take_number [OF emit_number_chars assms(2), of a] take_number [OF emit_number_chars assms(3), of b]
      assms(1) by metis
  moreover from this have "dec_value a = dec_value b"
    using emit_number_value [of a] emit_number_value [of b] by auto
  ultimately show ?thesis using normal_dec_unique assms(4,5) by blast
qed

definition hex_val :: "nat \<Rightarrow> nat" where
  "hex_val c = (if c < 87 then c - 48 else c - 87)"

definition unescape :: "pystr \<Rightarrow> nat \<times> pystr" where
  "unescape t =
    (if hd t \<noteq> 92 then (hd t, tl t)
     else
       let e = t ! 1; rest = drop 2 t
       in if e = 110 then (10, rest) else if e = 114 then (13, rest) else if e = 116 then (9, rest)
          else if e = 102 then (12, rest) else if e = 98 then (8, rest)
          else if e = 117 then (hex_val (t ! 4) * 16 + hex_val (t ! 5), drop 6 t)
          else (e, rest))"

lemma hex_val_char: "d < 16 \<Longrightarrow> hex_val (hex_char d) = d"
  by (simp add: hex_val_def hex_char_def)

lemma unescape_char: "unescape (escape_char c @ x) = (c, x)"
proof (cases "c < 32 \<and> c \<notin> {10, 13, 9, 12, 8}")
  case True
  then have "escape_char c = [92, 117, 48, 48, hex_char (c div 16), hex_char (c mod 16)]"
    by (simp add: escape_char_def)
  moreover have "c div 16 < 16" "c mod 16 < 16" using True by (auto intro!: less_mult_imp_div_less)
  ultimately show ?thesis by (simp add: unescape_def hex_val_char)
next
  case False
  then show ?thesis by (auto simp: escape_char_def unescape_def)
qed

lemma escape_char_inj:
  assumes "escape_char c @ x = escape_char d @ y"
  shows "c = d \<and> x = y"
  using unescape_char [of c x] unfolding assms by (simp add: unescape_char)

lemma escape_char_not_quote: "escape_char c @ x \<noteq> 34 # y"
  by (auto simp: escape_char_def)

lemma json_string_inj: "json_string a @ r = json_string b @ s \<Longrightarrow> a = b \<and> r = s"
proof -
  have "concat (map escape_char a) @ 34 # r = concat (map escape_char b) @ 34 # s \<Longrightarrow> a = b \<and> r = s"
  proof (induction a arbitrary: b)
    case Nil
    then show ?case using escape_char_not_quote by (cases b) (auto dest!: sym [of "34 # r"])
  next
    case (Cons c a)
    then obtain d b' where b: "b = d # b'" using escape_char_not_quote by (cases b) auto
    have "escape_char c @ concat (map escape_char a) @ 34 # r = escape_char d @ concat (map escape_char b') @ 34 # s"
      using Cons.prems b by simp
    from escape_char_inj [OF this] show ?case using Cons.IH [of b'] b by simp
  qed
  then show "json_string a @ r = json_string b @ s \<Longrightarrow> a = b \<and> r = s" by (simp add: json_string_def)
qed

lemma comma_join_Cons: "comma_join (p # ps) = p @ concat (map (\<lambda>q. 44 # q) ps)"
  by (induction ps arbitrary: p) auto

lemma join_tail_inj:
  assumes inj: "\<And>x y r s. x \<in> set xs \<Longrightarrow> y \<in> set ys \<Longrightarrow> f x @ r = f y @ s \<Longrightarrow> stops r \<Longrightarrow> stops s \<Longrightarrow> x = y \<and> r = s"
    and close: "close = 93 \<or> close = 125"
    and eq: "concat (map (\<lambda>x. 44 # f x) xs) @ close # r = concat (map (\<lambda>x. 44 # f x) ys) @ close # s"
  shows "xs = ys \<and> r = s"
  using inj eq
proof (induction xs arbitrary: ys)
  case Nil
  then show ?case using close by (cases ys) auto
next
  case (Cons x xs)
  then obtain y ys' where ys: "ys = y # ys'" using close by (cases ys) auto
  have stop: "stops (concat (map (\<lambda>x. 44 # f x) zs) @ close # q)" for zs q
    using close by (cases zs) (auto simp: stops_def)
  have "x = y \<and> concat (map (\<lambda>x. 44 # f x) xs) @ close # r = concat (map (\<lambda>x. 44 # f x) ys') @ close # s"
    using Cons.prems(2) ys by (intro Cons.prems(1) stop) simp_all
  then show ?case using Cons.IH [of ys'] Cons.prems(1) ys by auto
qed

lemma join_inj:
  assumes inj: "\<And>x y r s. x \<in> set xs \<Longrightarrow> y \<in> set ys \<Longrightarrow> f x @ r = f y @ s \<Longrightarrow> stops r \<Longrightarrow> stops s \<Longrightarrow> x = y \<and> r = s"
    and head: "\<And>x r. x \<in> set xs \<union> set ys \<Longrightarrow> f x @ r \<noteq> close # s" "\<And>x r. x \<in> set xs \<union> set ys \<Longrightarrow> close # r' \<noteq> f x @ r"
    and close: "close = 93 \<or> close = 125"
    and eq: "comma_join (map f xs) @ close # r' = comma_join (map f ys) @ close # s"
  shows "xs = ys \<and> r' = s"
proof (cases xs)
  case Nil
  then show ?thesis using eq head(2) by (cases ys) (auto simp: comma_join_Cons)
next
  case (Cons x xs')
  then obtain y ys' where ys: "ys = y # ys'" using eq head(1) by (cases ys) (auto simp: comma_join_Cons)
  have stop: "stops (concat (map (\<lambda>x. 44 # f x) zs) @ close # q)" for zs q
    using close by (cases zs) (auto simp: stops_def)
  have "x = y \<and> concat (map (\<lambda>x. 44 # f x) xs') @ close # r' = concat (map (\<lambda>x. 44 # f x) ys') @ close # s"
    using eq ys Cons by (intro inj stop) (simp_all add: comma_join_Cons comp_def)
  then show ?thesis using join_tail_inj [of xs' ys' f close r' s] inj close Cons ys by auto
qed

text \<open>The first character tells the kind of a value.\<close>

definition head_kind :: "nat \<Rightarrow> nat" where
  "head_kind c = (if number_char c then 45 else c)"

definition json_kind :: "json \<Rightarrow> nat" where
  "json_kind v = (case v of JNull \<Rightarrow> 110 | JBool b \<Rightarrow> if b then 116 else 102 | JDec _ \<Rightarrow> 45
    | JStr _ \<Rightarrow> 34 | JList _ \<Rightarrow> 91 | JObj _ \<Rightarrow> 123 | _ \<Rightarrow> 0)"

lemma emit_head: "canonical v \<Longrightarrow> \<exists>c cs. emit v = c # cs \<and> head_kind c = json_kind v"
proof (cases v)
  case (JDec d)
  obtain c cs where "emit_number d = c # cs" "number_char c" by (rule emit_number_head)
  then show ?thesis using JDec by (simp add: json_kind_def head_kind_def)
qed (auto simp: json_kind_def head_kind_def number_char_def is_digit_def json_string_def py_def)

lemma emit_kind:
  assumes "canonical v" "canonical w" "emit v @ r = emit w @ s"
  shows "json_kind v = json_kind w"
  using emit_head [OF assms(1)] emit_head [OF assms(2)] assms(3) by auto

lemma emit_inj:
  "emit v @ r = emit w @ s \<Longrightarrow> stops r \<Longrightarrow> stops s \<Longrightarrow> canonical v \<Longrightarrow> canonical w \<Longrightarrow> v = w \<and> r = s"
proof (induction v arbitrary: w r s)
  case JNull
  then show ?case using emit_kind [OF JNull(4,5,1)]
    by (cases w) (auto simp: json_kind_def split: if_splits)
next
  case (JBool b)
  then show ?case using emit_kind [OF JBool(4,5,1)]
    by (cases w) (auto simp: json_kind_def split: if_splits)
next
  case (JDec d)
  from emit_kind [OF JDec(4,5,1)] obtain d' where w: "w = JDec d'"
    using JDec(5) by (cases w) (auto simp: json_kind_def split: if_splits)
  then show ?case using JDec emit_number_inj [of d r d' s] by simp
next
  case (JStr a)
  from emit_kind [OF JStr(4,5,1)] obtain a' where w: "w = JStr a'"
    using JStr(5) by (cases w) (auto simp: json_kind_def split: if_splits)
  then show ?case using JStr json_string_inj [of a r a' s] by simp
next
  case (JList vs)
  from emit_kind [OF JList(5,6,2)] obtain ws where w: "w = JList ws"
    using JList(6) by (cases w) (auto simp: json_kind_def split: if_splits)
  have "vs = ws \<and> r = s"
  proof (rule join_inj [where f = emit and close = 93])
    show "comma_join (map emit vs) @ 93 # r = comma_join (map emit ws) @ 93 # s" using JList.prems(1) w by simp
    show "emit x @ r \<noteq> 93 # s" "93 # r' \<noteq> emit x @ r''" if "x \<in> set vs \<union> set ws" for x r r' r''
    proof -
      have "canonical x" using that JList.prems w by (auto simp: list_all_iff)
      from emit_head [OF this] show "emit x @ r \<noteq> 93 # s" "93 # r' \<noteq> emit x @ r''"
        by (auto simp: json_kind_def head_kind_def number_char_def is_digit_def split: json.splits if_splits)
    qed
  qed (use JList w in \<open>auto simp: list_all_iff\<close>)
  then show ?case using w by simp
next
  case (JObj ob)
  from emit_kind [OF JObj(5,6,2)] obtain ob' where w: "w = JObj ob'"
    using JObj(6) by (cases w) (auto simp: json_kind_def split: if_splits)
  let ?f = "\<lambda>(k, v). json_string k @ [58] @ emit v"
  have "ob = ob' \<and> r = s"
  proof (rule join_inj [where f = ?f and close = 125])
    show "comma_join (map ?f ob) @ 125 # r = comma_join (map ?f ob') @ 125 # s" using JObj.prems(1) w by simp
    show "?f x @ r \<noteq> 125 # s" "125 # r' \<noteq> ?f x @ r''" for x r r' r''
      by (auto simp: json_string_def split: prod.splits)
    fix x y r s assume xy: "x \<in> set ob" "y \<in> set ob'" "?f x @ r = ?f y @ s" "stops r" "stops s"
    obtain k v k' v' where kv: "x = (k, v)" "y = (k', v')" by (cases x, cases y) auto
    then have "json_string k @ 58 # emit v @ r = json_string k' @ 58 # emit v' @ s" using xy(3) by simp
    from json_string_inj [OF this] have "k = k'" "emit v @ r = emit v' @ s" by simp_all
    moreover have "canonical v" "canonical v'" using xy(1,2) kv JObj.prems w by (auto simp: list_all_iff)
    moreover have "v \<in> Basic_BNFs.snds x" using kv by simp
    ultimately have "v = v' \<and> r = s" using JObj.IH [OF xy(1), of v r v' s] xy(4,5) by blast
    then show "x = y \<and> r = s" using kv \<open>k = k'\<close> by simp
  qed simp
  then show ?case using w by simp
qed auto

lemma encode_json_canonical:
  assumes "encode_json True v = Inr t" "encode_json True w = Inr u"
  shows "t = u \<longleftrightarrow> canon v = canon w"
proof
  assume "t = u"
  then have "emit (canon v) @ [] = emit (canon w) @ []" using encode_emit assms by auto
  then show "canon v = canon w"
    using emit_inj [of "canon v" "[]" "canon w" "[]"] canonical_canon by (simp add: stops_def)
next
  assume "canon v = canon w"
  then show "t = u" using encode_emit assms by metis
qed

lemma object_pairs_iff:
  "distinct (map fst document) \<Longrightarrow> object_pairs document pairs = Inr ob \<longleftrightarrow>
    distinct (map fst (document @ pairs)) \<and> ob = document @ pairs"
proof (induction document pairs rule: object_pairs.induct)
  case (2 document k v pairs)
  then show ?case by (cases "k \<in> jkeys document") (auto simp: jkeys_def)
qed auto

text \<open>Reordering the keys of an object does not change its canonical form.\<close>

lemma sort_key_same_set:
  fixes xs ys :: "(pystr \<times> 'a) list"
  assumes "set xs = set ys" "distinct (map fst xs)" "distinct (map fst ys)"
  shows "sort_key fst xs = sort_key fst ys"
proof (rule map_sorted_distinct_set_unique [where f = fst])
  show "inj_on fst (set (sort_key fst xs) \<union> set (sort_key fst ys))"
    using assms by (simp add: distinct_map)
  have "distinct (map fst (sort_key fst zs))" if "distinct (map fst zs)" for zs :: "(pystr \<times> 'a) list"
    using that by (simp add: distinct_map)
  then show "distinct (map fst (sort_key fst xs))" "distinct (map fst (sort_key fst ys))"
    using assms by blast+
qed (use assms in simp_all)

lemma canon_reordered:
  assumes "set a = set b" "distinct (map fst a)" "distinct (map fst b)"
  shows "canon (JObj a) = canon (JObj b)"
  using assms by (simp add: comp_def split_def sort_key_same_set)

lemma encode_json_bytes_inj:
  assumes "encode_json_bytes True v = Inr b" "encode_json_bytes True w = Inr b"
  shows "canon v = canon w"
proof -
  obtain t u where "encode_json True v = Inr t" "utf8_encode t = Inr b"
      "encode_json True w = Inr u" "utf8_encode u = Inr b"
    using assms by (auto simp: encode_json_bytes_def bind_res_eq_Inr)
  then show ?thesis using encode_json_canonical utf8_encode_inj by blast
qed

end
