(* ===== verification/Py_Time.thy ===== *)
theory Py_Time
  imports Py_Text
begin

text \<open>
  Python's aware UTC \<open>datetime\<close> as the number of microseconds since 0001-01-01T00:00:00Z, so
  that comparison, subtraction and \<open>timedelta\<close> arithmetic are those of the integers, with the
  proleptic Gregorian calendar that \<open>strftime\<close> and \<open>strptime\<close> read and write.  The two
  functions of store.py, \<open>_timestamp\<close> and \<open>_parse_timestamp\<close>, are modelled here, and the
  main fact is that comparing the texts of two clock readings compares their whole seconds:
  the SQL of the store compares such texts.
\<close>

type_synonym datetime = int

subsection \<open>The calendar\<close>

definition is_leap :: "int \<Rightarrow> bool" where
  "is_leap y = (y mod 4 = 0 \<and> (y mod 100 \<noteq> 0 \<or> y mod 400 = 0))"

definition leap_day :: "int \<Rightarrow> int" where
  "leap_day y = (if is_leap y then 1 else 0)"

definition days_in_month :: "int \<Rightarrow> int \<Rightarrow> int" where
  "days_in_month y m =
    (if m = 2 then 28 + leap_day y
     else if m = 4 \<or> m = 6 \<or> m = 9 \<or> m = 11 then 30 else 31)"

text \<open>Days before the first of January of a year, and before the first of a month in it.\<close>

definition days_before_year :: "int \<Rightarrow> int" where
  "days_before_year y = (y - 1) * 365 + (y - 1) div 4 - (y - 1) div 100 + (y - 1) div 400"

definition days_before_month :: "int \<Rightarrow> int \<Rightarrow> int" where
  "days_before_month y m =
    (if m \<le> 1 then 0
     else if m = 2 then 31
     else leap_day y +
       (if m = 3 then 59 else if m = 4 then 90 else if m = 5 then 120 else if m = 6 then 151
        else if m = 7 then 181 else if m = 8 then 212 else if m = 9 then 243
        else if m = 10 then 273 else if m = 11 then 304 else if m = 12 then 334 else 365))"

definition ymd2ord :: "int \<Rightarrow> int \<Rightarrow> int \<Rightarrow> int" where
  "ymd2ord y m d = days_before_year y + days_before_month y m + d"

definition valid_ymd :: "int \<Rightarrow> int \<Rightarrow> int \<Rightarrow> bool" where
  "valid_ymd y m d = (1 \<le> m \<and> m \<le> 12 \<and> 1 \<le> d \<and> d \<le> days_in_month y m)"

text \<open>The inverse: the year is estimated from the mean year length and corrected.\<close>

definition year_of :: "int \<Rightarrow> int" where
  "year_of n =
    (let y = (n - 1) * 400 div 146097 + 1
     in if n \<le> days_before_year y then y - 1
        else if days_before_year (y + 1) < n then y + 1 else y)"

function month_from :: "int \<Rightarrow> int \<Rightarrow> int \<Rightarrow> int" where
  "month_from y k m =
    (if 12 \<le> m \<or> k \<le> days_before_month y (m + 1) then m else month_from y k (m + 1))"
  by pat_completeness auto
termination
  by (relation "measure (\<lambda>(y, k, m). nat (12 - m))") auto

declare month_from.simps [simp del]

definition month_of :: "int \<Rightarrow> int \<Rightarrow> int" where
  "month_of y k = month_from y k 1"

definition ord2ymd :: "int \<Rightarrow> int \<times> int \<times> int" where
  "ord2ymd n =
    (let y = year_of n; k = n - days_before_year y; m = month_of y k
     in (y, m, k - days_before_month y m))"

lemma leap_day_bounds: "0 \<le> leap_day y" "leap_day y \<le> 1"
  by (simp_all add: leap_day_def)

lemma days_before_year_bounds:
  "146097 * (y - 1) - 699 \<le> 400 * days_before_year y"
  "400 * days_before_year y \<le> 146097 * (y - 1) + 396"
proof -
  define q where "q = y - 1"
  have "4 * (q div 4) \<le> q" "q \<le> 4 * (q div 4) + 3"
    "100 * (q div 100) \<le> q" "q \<le> 100 * (q div 100) + 99"
    "400 * (q div 400) \<le> q" "q \<le> 400 * (q div 400) + 399"
    by presburger+
  moreover have "days_before_year y = q * 365 + q div 4 - q div 100 + q div 400"
    by (simp add: days_before_year_def q_def)
  ultimately show "146097 * (y - 1) - 699 \<le> 400 * days_before_year y"
    "400 * days_before_year y \<le> 146097 * (y - 1) + 396"
    by (simp_all flip: q_def)
qed

lemma div_Suc_int:
  fixes q k :: int
  assumes "0 < k"
  shows "(q + 1) div k = q div k + (if (q + 1) mod k = 0 then 1 else 0)"
proof (cases "(q + 1) mod k = 0")
  case True
  then obtain c where c: "q + 1 = k * c" by blast
  have "q = k * (c - 1) + (k - 1)" using c by (simp add: algebra_simps)
  then have "q div k = c - 1" using assms by simp
  with c True assms show ?thesis by simp
next
  case False
  define p r where "p = (q + 1) div k" and "r = (q + 1) mod k"
  have "q + 1 = k * p + r" by (simp add: p_def r_def)
  then have "q = k * p + (r - 1)" by simp
  moreover have "0 \<le> r - 1" "r - 1 < k"
    using False assms pos_mod_bound [of k "q + 1"] pos_mod_sign [of k "q + 1"]
    unfolding r_def by linarith+
  ultimately have "q div k = p" using assms by (simp add: div_pos_pos_trivial)
  with False show ?thesis by (simp add: p_def)
qed

lemma leap_step:
  fixes a b c y :: int
  assumes "a' = a + (if P then 1 else 0)" "b' = b + (if Q then 1 else 0)"
    "c' = c + (if R then 1 else 0)" "Q \<Longrightarrow> P" "R \<Longrightarrow> Q"
  shows "y * 365 + a' - b' + c' =
    (y - 1) * 365 + a - b + c + 365 + (if P \<and> (\<not> Q \<or> R) then 1 else 0)"
  using assms by (cases P; cases Q; cases R) simp_all

lemma days_before_year_Suc: "days_before_year (y + 1) = days_before_year y + 365 + leap_day y"
proof -
  have div: "y div 4 = (y - 1) div 4 + (if y mod 4 = 0 then 1 else 0)"
    "y div 100 = (y - 1) div 100 + (if y mod 100 = 0 then 1 else 0)"
    "y div 400 = (y - 1) div 400 + (if y mod 400 = 0 then 1 else 0)"
    using div_Suc_int [of 4 "y - 1", OF zero_less_numeral]
      div_Suc_int [of 100 "y - 1", OF zero_less_numeral]
      div_Suc_int [of 400 "y - 1", OF zero_less_numeral]
    by (simp_all only: diff_add_cancel)
  have imp: "y mod 4 = 0" if "y mod 100 = 0"
    using that dvd_trans [of 4 100 y] by (simp only: mod_eq_0_iff_dvd) simp
  have imp': "y mod 100 = 0" if "y mod 400 = 0"
    using that dvd_trans [of 100 400 y] by (simp only: mod_eq_0_iff_dvd) simp
  show ?thesis
    using leap_step [OF div imp imp', of y]
    by (simp only: days_before_year_def leap_day_def is_leap_def add_diff_cancel_right')
qed

lemma days_before_year_mono: "y \<le> z \<Longrightarrow> days_before_year y \<le> days_before_year z"
proof (induction z rule: int_ge_induct)
  case base
  then show ?case by simp
next
  case (step i)
  then show ?case using days_before_year_Suc [of i] leap_day_bounds [of i] by linarith
qed

lemma year_of_bounds:
  "days_before_year (year_of n) < n" "n \<le> days_before_year (year_of n + 1)"
proof -
  define y where "y = (n - 1) * 400 div 146097 + 1"
  have "y - 1 = (n - 1) * 400 div 146097" by (simp add: y_def)
  then have le: "146097 * (y - 1) \<le> (n - 1) * 400" "(n - 1) * 400 \<le> 146097 * (y - 1) + 146096"
    using mult_div_mod_eq [of 146097 "(n - 1) * 400"] pos_mod_bound [of 146097 "(n - 1) * 400"]
      pos_mod_sign [of 146097 "(n - 1) * 400"] by simp_all
  have "days_before_year (y - 1) < n"
    using days_before_year_bounds(2) [of "y - 1"] le by simp
  moreover have "n \<le> days_before_year (y + 2)"
    using days_before_year_bounds(1) [of "y + 2"] le by simp
  moreover have "year_of n = (if n \<le> days_before_year y then y - 1
      else if days_before_year (y + 1) < n then y + 1 else y)"
    by (simp add: year_of_def y_def Let_def)
  ultimately show "days_before_year (year_of n) < n" "n \<le> days_before_year (year_of n + 1)"
    by (auto simp: add.assoc)
qed

lemma month_cases:
  fixes m :: int
  assumes "1 \<le> m" "m \<le> 12"
  shows "m \<in> {1, 2, 3, 4, 5, 6, 7, 8, 9, 10, 11, 12}"
  using assms unfolding insert_iff empty_iff by presburger

lemma days_before_month_table:
  "days_before_month y 1 = 0" "days_before_month y 2 = 31"
  "days_before_month y 3 = 59 + leap_day y" "days_before_month y 4 = 90 + leap_day y"
  "days_before_month y 5 = 120 + leap_day y" "days_before_month y 6 = 151 + leap_day y"
  "days_before_month y 7 = 181 + leap_day y" "days_before_month y 8 = 212 + leap_day y"
  "days_before_month y 9 = 243 + leap_day y" "days_before_month y 10 = 273 + leap_day y"
  "days_before_month y 11 = 304 + leap_day y" "days_before_month y 12 = 334 + leap_day y"
  "days_before_month y 13 = 365 + leap_day y"
  by (simp_all add: days_before_month_def)

lemma days_before_month_Suc:
  assumes "1 \<le> m" "m \<le> 12"
  shows "days_before_month y (m + 1) = days_before_month y m + days_in_month y m"
  using month_cases [OF assms]
  by (elim insertE emptyE) (simp_all add: days_before_month_table days_in_month_def)

lemma month_from_bounds:
  assumes "m \<le> 12" "days_before_month y m < k" "k \<le> 365 + leap_day y"
  shows "m \<le> month_from y k m \<and> month_from y k m \<le> 12 \<and>
    days_before_month y (month_from y k m) < k \<and>
    k \<le> days_before_month y (month_from y k m + 1)"
  using assms
proof (induction y k m rule: month_from.induct)
  case (1 y k m)
  show ?case
  proof (cases "12 \<le> m \<or> k \<le> days_before_month y (m + 1)")
    case True
    then have "month_from y k m = m" by (simp add: month_from.simps [of y k m])
    moreover have "m = 12 \<Longrightarrow> days_before_month y (m + 1) = 365 + leap_day y"
      by (simp add: days_before_month_table)
    ultimately show ?thesis using True 1(2-4) by fastforce
  next
    case False
    then have "month_from y k m = month_from y k (m + 1)"
      by (simp add: month_from.simps [of y k m])
    with False 1 show ?thesis by simp
  qed
qed

lemma month_of_bounds:
  assumes "0 < k" "k \<le> 365 + leap_day y"
  shows "1 \<le> month_of y k \<and> month_of y k \<le> 12 \<and>
    days_before_month y (month_of y k) < k \<and>
    k \<le> days_before_month y (month_of y k) + days_in_month y (month_of y k)"
  using month_from_bounds [of 1 y k] days_before_month_Suc [of "month_of y k" y] assms
  by (simp add: month_of_def days_before_month_table)

lemma ord2ymd_valid: "ord2ymd n = (y, m, d) \<Longrightarrow> valid_ymd y m d \<and> ymd2ord y m d = n"
  using year_of_bounds [of n] month_of_bounds [of "n - days_before_year (year_of n)" "year_of n"]
    days_before_year_Suc [of "year_of n"]
  by (auto simp: ord2ymd_def valid_ymd_def ymd2ord_def Let_def)

lemma days_before_month_mono:
  assumes "m \<le> m'" "1 \<le> m" "m' \<le> 13"
  shows "days_before_month y m \<le> days_before_month y m'"
  using assms(1,3)
proof (induction m' rule: int_ge_induct)
  case base
  then show ?case by simp
next
  case (step i)
  have "0 \<le> days_in_month y i" using leap_day_bounds [of y] by (simp add: days_in_month_def)
  then show ?case using step assms(2) days_before_month_Suc [of i y] by simp
qed

lemma days_in_year:
  assumes "1 \<le> m" "m \<le> 12"
  shows "days_before_month y m + days_in_month y m \<le> 365 + leap_day y"
  using days_before_month_mono [of "m + 1" 13 y] assms
  by (simp add: days_before_month_Suc days_before_month_table)

lemma days_before_month_nonneg: "0 \<le> days_before_month y m"
  using leap_day_bounds [of y] by (simp add: days_before_month_def)

lemma ymd2ord_less:
  assumes "valid_ymd y m d" "valid_ymd y' m' d'"
    and "y < y' \<or> y = y' \<and> (m < m' \<or> m = m' \<and> d < d')"
  shows "ymd2ord y m d < ymd2ord y' m' d'"
proof -
  consider "y < y'" | "y = y'" "m < m'" | "y = y'" "m = m'" "d < d'" using assms(3) by blast
  then show ?thesis
  proof cases
    case 1
    have "days_before_year (y + 1) \<le> days_before_year y'"
      using 1 by (intro days_before_year_mono) simp
    then show ?thesis
      using assms(1,2) days_in_year [of m y] days_before_month_nonneg [of y' m']
      by (simp add: days_before_year_Suc ymd2ord_def valid_ymd_def)
  next
    case 2
    then show ?thesis
      using assms(1,2) days_before_month_mono [of "m + 1" m' y]
      by (simp add: ymd2ord_def valid_ymd_def days_before_month_Suc)
  next
    case 3
    then show ?thesis by (simp add: ymd2ord_def)
  qed
qed

lemma ord2ymd_unique: "valid_ymd y m d \<Longrightarrow> ord2ymd (ymd2ord y m d) = (y, m, d)"
proof -
  assume v: "valid_ymd y m d"
  obtain y' m' d' where o: "ord2ymd (ymd2ord y m d) = (y', m', d')" by (rule prod_cases3)
  from ord2ymd_valid [OF o] have v': "valid_ymd y' m' d'" "ymd2ord y' m' d' = ymd2ord y m d"
    by auto
  then have "y' = y \<and> m' = m \<and> d' = d"
    using ymd2ord_less [OF v v'(1)] ymd2ord_less [OF v'(1) v] by force
  with o show ?thesis by simp
qed

subsection \<open>store.py: \<open>_timestamp\<close>\<close>

definition dt_secs :: "datetime \<Rightarrow> int" where
  "dt_secs t = t div 1000000"

definition dt_year :: "datetime \<Rightarrow> int" where
  "dt_year t = year_of (dt_secs t div 86400 + 1)"

text \<open>\<open>strftime\<close> writes four year digits for the years 1000 to 9999.\<close>

definition clock_range :: "datetime \<Rightarrow> bool" where
  "clock_range t = (1000 \<le> dt_year t \<and> dt_year t \<le> 9999)"

definition time_text :: "int \<Rightarrow> pystr" where
  "time_text r =
    pad2 (r div 60 div 60) @ 58 # pad2 (r div 60 mod 60) @ 58 # pad2 (r mod 60) @ [90]"

definition stamp :: "int \<Rightarrow> pystr" where
  "stamp s = (case ord2ymd (s div 86400 + 1) of
     (y, m, d) \<Rightarrow> pad4 y @ 45 # pad2 m @ 45 # pad2 d @ 84 # time_text (s mod 86400))"

definition timestamp :: "datetime \<Rightarrow> pystr" where
  "timestamp t = stamp (dt_secs t)"

lemma lex_regroup: "(a \<or> b \<and> (c \<or> d \<and> e)) = ((a \<or> b \<and> c) \<or> (b \<and> d) \<and> e)"
  by blast

lemma lex_regroup_eq: "(a \<or> b \<and> (c \<or> d)) = ((a \<or> b \<and> c) \<or> (b \<and> d))"
  by blast

lemma hms_le:
  assumes "0 \<le> h" "h < 100" "0 \<le> h'" "h' < 100" "0 \<le> m" "m < 100" "0 \<le> m'" "m' < 100"
    "0 \<le> s" "s < 100" "0 \<le> s'" "s' < 100"
  shows "pad2 h @ 58 # pad2 m @ 58 # pad2 s @ [90] \<le> pad2 h' @ 58 # pad2 m' @ 58 # pad2 s' @ [90]
    \<longleftrightarrow> h < h' \<or> h = h' \<and> (m < m' \<or> m = m' \<and> s \<le> s')"
  using assms by (auto simp: pad2_append_le)

lemma time_text_le:
  assumes "0 \<le> r" "r < 86400" "0 \<le> r'" "r' < 86400"
  shows "time_text r \<le> time_text r' \<longleftrightarrow> r \<le> r'"
proof -
  define q q' where "q = r div 60" and "q' = r' div 60"
  have q: "0 \<le> q" "q < 1440" "0 \<le> q'" "q' < 1440"
    using assms unfolding q_def q'_def by linarith+
  have div: "0 \<le> q div 60" "q div 60 < 100" "0 \<le> q' div 60" "q' div 60 < 100"
    using q by linarith+
  have mod: "0 \<le> k mod 60" "k mod 60 < 100" for k :: int
    using pos_mod_bound [of 60 k] by simp_all
  have "time_text r \<le> time_text r' \<longleftrightarrow>
      q div 60 < q' div 60 \<or> q div 60 = q' div 60 \<and>
      (q mod 60 < q' mod 60 \<or> q mod 60 = q' mod 60 \<and> r mod 60 \<le> r' mod 60)"
    unfolding time_text_def q_def [symmetric] q'_def [symmetric] by (rule hms_le [OF div mod mod mod mod])
  also have "\<dots> \<longleftrightarrow> q < q' \<or> q = q' \<and> r mod 60 \<le> r' mod 60"
    unfolding div_mod_less_iff [of 60 q q', OF zero_less_numeral] div_mod_eq_iff [of q q' 60]
    by (rule lex_regroup)
  also have "\<dots> \<longleftrightarrow> r \<le> r'"
    unfolding q_def q'_def order_le_less [of r] order_le_less [of "r mod 60"]
      div_mod_less_iff [of 60 r r', OF zero_less_numeral] div_mod_eq_iff [of r r' 60]
    by (rule lex_regroup_eq)
  finally show ?thesis .
qed

text \<open>Comparing two texts compares the seconds they stand for.\<close>

lemma stamp_le:
  assumes "0 \<le> year_of (s div 86400 + 1)" "year_of (s div 86400 + 1) < 10000"
    and "0 \<le> year_of (s' div 86400 + 1)" "year_of (s' div 86400 + 1) < 10000"
  shows "stamp s \<le> stamp s' \<longleftrightarrow> s \<le> s'"
proof -
  obtain y m d where o: "ord2ymd (s div 86400 + 1) = (y, m, d)" by (rule prod_cases3)
  obtain y' m' d' where o': "ord2ymd (s' div 86400 + 1) = (y', m', d')" by (rule prod_cases3)
  note v = ord2ymd_valid [OF o] and v' = ord2ymd_valid [OF o']
  have dim: "days_in_month z k \<le> 31" for z k
    using leap_day_bounds [of z] by (simp add: days_in_month_def)
  have rng: "0 \<le> m" "m < 100" "0 \<le> d" "d < 100" "0 \<le> m'" "m' < 100" "0 \<le> d'" "d' < 100"
    using v v' dim [of y m] dim [of y' m'] by (auto simp: valid_ymd_def)
  have yr: "0 \<le> y" "y < 10000" "0 \<le> y'" "y' < 10000"
    using assms o o' by (auto simp: ord2ymd_def Let_def)
  let ?lex = "y < y' \<or> y = y' \<and> (m < m' \<or> m = m' \<and> d < d')"
  let ?eq = "y = y' \<and> m = m' \<and> d = d'"
  have cmp: "stamp s \<le> stamp s' \<longleftrightarrow> ?lex \<or> ?eq \<and> s mod 86400 \<le> s' mod 86400"
    using rng yr by (auto simp: stamp_def o o' pad4_append_le pad2_append_le time_text_le)
  have "?lex \<Longrightarrow> s div 86400 < s' div 86400" using ymd2ord_less v v' by fastforce
  moreover have "?eq \<Longrightarrow> s div 86400 = s' div 86400" using v v' by auto
  moreover have "\<not> ?lex \<Longrightarrow> \<not> ?eq \<Longrightarrow> s' div 86400 < s div 86400"
    using ymd2ord_less [of y' m' d' y m d] v v' by force
  ultimately show ?thesis
    using cmp div_mod_less_iff [of 86400 s s', OF zero_less_numeral] div_mod_eq_iff [of s s' 86400]
    unfolding order_le_less [of s] order_le_less [of "s mod 86400"]
    by (metis less_irrefl less_asym)
qed

lemma timestamp_le:
  assumes "clock_range a" "clock_range b"
  shows "timestamp a \<le> timestamp b \<longleftrightarrow> dt_secs a \<le> dt_secs b"
  using assms by (simp add: timestamp_def clock_range_def dt_year_def stamp_le)

lemma timestamp_less:
  assumes "clock_range a" "clock_range b"
  shows "timestamp a < timestamp b \<longleftrightarrow> dt_secs a < dt_secs b"
  using timestamp_le [OF assms(2,1)] by (simp flip: not_le)

subsection \<open>store.py: \<open>_parse_timestamp\<close>\<close>

text \<open>
  \<open>RFC3339_UTC_RE\<close> of contracts.py: twenty characters, the separators in place and a
  Unicode decimal digit in every other position.
\<close>

definition rfc3339_shape :: "pystr \<Rightarrow> bool" where
  "rfc3339_shape t =
    (length t = 20 \<and>
     t ! 4 = 45 \<and> t ! 7 = 45 \<and> t ! 10 = 84 \<and> t ! 13 = 58 \<and> t ! 16 = 58 \<and> t ! 19 = 90 \<and>
     list_all (\<lambda>i. udigit (t ! i) \<noteq> None) [0, 1, 2, 3, 5, 6, 8, 9, 11, 12, 14, 15, 17, 18])"

text \<open>
  The two-digit directives of \<open>strptime\<close> on such a text.  Their regular expressions spell
  the tens digit out in ASCII; the units digit is \<open>\d\<close>, any Unicode digit, where the tens
  digit does not bound it (\<open>wide\<close>), and spelled out otherwise.
\<close>

definition two_digits :: "(int \<Rightarrow> bool) \<Rightarrow> nat \<Rightarrow> nat \<Rightarrow> int option" where
  "two_digits wide a b =
    Option.bind (adigit a) (\<lambda>p.
      map_option (\<lambda>q. 10 * int p + int q) (if wide (int p) then udigit b else adigit b))"

definition four_digits :: "nat \<Rightarrow> nat \<Rightarrow> nat \<Rightarrow> nat \<Rightarrow> int option" where
  "four_digits a b c d =
    Option.bind (udigit a) (\<lambda>p. Option.bind (udigit b) (\<lambda>q. Option.bind (udigit c) (\<lambda>r.
      map_option (\<lambda>s. 1000 * int p + 100 * int q + 10 * int r + int s) (udigit d))))"

definition datetime_of :: "int \<Rightarrow> int \<Rightarrow> int \<Rightarrow> int \<Rightarrow> int \<Rightarrow> int \<Rightarrow> datetime" where
  "datetime_of y m d h mi s =
    (((ymd2ord y m d - 1) * 86400 + h * 3600 + mi * 60 + s) * 1000000)"

text \<open>\<open>None\<close> is the \<open>ValueError\<close> of \<open>strptime\<close>.\<close>

definition strptime_utc :: "pystr \<Rightarrow> datetime option" where
  "strptime_utc t =
    (if \<not> rfc3339_shape t then None
     else Option.bind (four_digits (t ! 0) (t ! 1) (t ! 2) (t ! 3)) (\<lambda>y.
       Option.bind (two_digits (\<lambda>_. False) (t ! 5) (t ! 6)) (\<lambda>m.
       Option.bind (two_digits (\<lambda>p. p = 1 \<or> p = 2) (t ! 8) (t ! 9)) (\<lambda>d.
       Option.bind (two_digits (\<lambda>p. p < 2) (t ! 11) (t ! 12)) (\<lambda>h.
       Option.bind (two_digits (\<lambda>_. True) (t ! 14) (t ! 15)) (\<lambda>mi.
       Option.bind (two_digits (\<lambda>_. True) (t ! 17) (t ! 18)) (\<lambda>s.
         if 1 \<le> y \<and> valid_ymd y m d \<and> h < 24 \<and> mi < 60 \<and> s < 60
         then Some (datetime_of y m d h mi s) else None)))))))"

definition parse_timestamp :: "pystr \<Rightarrow> datetime result" where
  "parse_timestamp t =
    (case strptime_utc t of None \<Rightarrow> Inl (ValueError ''time data does not match format'')
     | Some d \<Rightarrow> Inr d)"

lemma adigit_nat: "0 \<le> k \<Longrightarrow> k < 10 \<Longrightarrow> adigit (48 + nat k) = Some (nat k)" for k :: int
  by (simp add: adigit_def nat_less_iff)

lemma two_digits_pad2:
  assumes "0 \<le> n" "n < 100"
  shows "two_digits wide (tens n) (units n) = Some n"
proof -
  have div: "n div 10 mod 10 = n div 10" "0 \<le> n div 10" "n div 10 < 10"
    using assms by (auto intro!: mod_pos_pos_trivial)
  have mod: "0 \<le> n mod 10" "n mod 10 < 10" by simp_all
  note a = adigit_nat [OF div(2,3)] and b = adigit_nat [OF mod]
  have "10 * (n div 10) + n mod 10 = n" by simp
  then show ?thesis
    using a b udigit_of_adigit [OF b] div mod
    by (simp add: two_digits_def tens_def units_def)
qed

lemma four_digits_pad4:
  assumes "0 \<le> n" "n < 10000"
  shows "four_digits (tens (n div 100)) (units (n div 100)) (tens (n mod 100)) (units (n mod 100))
    = Some n"
proof -
  define h l where "h = n div 100" and "l = n mod 100"
  have "0 \<le> h" "h < 100" "0 \<le> l" "l < 100" using assms unfolding h_def l_def by linarith+
  moreover from this have "h div 10 mod 10 = h div 10" "l div 10 mod 10 = l div 10"
    by (auto intro!: mod_pos_pos_trivial)
  moreover have "udigit (48 + nat (k mod 10)) = Some (nat (k mod 10))" for k :: int
    by (rule udigit_ascii) simp
  moreover have "udigit (48 + nat (k div 10)) = Some (nat (k div 10))" if "k < 100" for k :: int
    using that by (intro udigit_ascii) linarith
  moreover have "1000 * (h div 10) + 100 * (h mod 10) = 100 * h" "10 * (l div 10) + l mod 10 = l"
    using mult_div_mod_eq [of 10 h] mult_div_mod_eq [of 10 l] by linarith+
  moreover have "0 \<le> h div 10" "0 \<le> l div 10"
    using assms by (simp_all add: h_def l_def)
  moreover have "100 * h + l = n" by (simp add: h_def l_def)
  ultimately show ?thesis
    by (simp add: four_digits_def tens_def units_def flip: h_def l_def)
qed

lemma udigit_pad:
  fixes n :: int
  shows "udigit (units n) \<noteq> None" "udigit (tens n) \<noteq> None"
  using udigit_ascii [of "nat (n mod 10)"] udigit_ascii [of "nat (n div 10 mod 10)"]
  by (simp_all add: units_def tens_def nat_less_iff)

lemma strptime_fields:
  assumes "1 \<le> y" "y < 10000" "valid_ymd y m d"
    "0 \<le> h" "h < 24" "0 \<le> mi" "mi < 60" "0 \<le> s" "s < 60"
  shows "strptime_utc (pad4 y @ 45 # pad2 m @ 45 # pad2 d @ 84 # pad2 h @ 58 # pad2 mi @ 58 #
    pad2 s @ [90]) = Some (datetime_of y m d h mi s)" (is "strptime_utc ?t = _")
proof -
  have dim: "days_in_month y m \<le> 31"
    using leap_day_bounds [of y] by (simp add: days_in_month_def)
  have shape: "rfc3339_shape ?t"
    by (simp add: rfc3339_shape_def pad4_def pad2_def udigit_pad del: not_None_eq)
  have "two_digits w (tens m) (units m) = Some m" "two_digits w (tens d) (units d) = Some d"
    "two_digits w (tens h) (units h) = Some h" "two_digits w (tens mi) (units mi) = Some mi"
    "two_digits w (tens s) (units s) = Some s" for w
    using assms dim by (simp_all add: two_digits_pad2 valid_ymd_def)
  moreover note four_digits_pad4 [of y]
  ultimately show ?thesis
    using shape assms by (simp add: strptime_utc_def pad4_def pad2_def)
qed

lemma radix_60: "60 * q + x = r \<Longrightarrow> 60 * p + t = q \<Longrightarrow> p * 3600 + t * 60 + x = r"
  for p q r t x :: int
  by simp

lemma seconds_of_day: "r div 60 div 60 * 3600 + r div 60 mod 60 * 60 + r mod 60 = r" for r :: int
  by (rule radix_60 [OF mult_div_mod_eq mult_div_mod_eq])

lemma micros_of_day:
  "n - 1 = k \<Longrightarrow> k * 86400 + r = s \<Longrightarrow> a + b + c = r \<Longrightarrow>
    ((n - 1) * 86400 + a + b + c) * 1000000 = s * 1000000" for n k r s a b c :: int
  by simp

lemma strptime_stamp:
  assumes "1 \<le> year_of (s div 86400 + 1)" "year_of (s div 86400 + 1) \<le> 9999"
  shows "strptime_utc (stamp s) = Some (s * 1000000)"
proof -
  obtain y m d where o: "ord2ymd (s div 86400 + 1) = (y, m, d)" by (rule prod_cases3)
  note v = ord2ymd_valid [OF o]
  have y: "1 \<le> y" "y < 10000" using assms o by (auto simp: ord2ymd_def Let_def)
  define r where "r = s mod 86400"
  have r: "0 \<le> r" "r < 86400" by (simp_all add: r_def)
  have h: "0 \<le> r div 60 div 60" "r div 60 div 60 < 24" using r by linarith+
  have mod: "0 \<le> k mod 60" "k mod 60 < 60" for k :: int by simp_all
  have "s div 86400 * 86400 + r = s" by (simp add: r_def)
  moreover have "ymd2ord y m d - 1 = s div 86400" using v by simp
  ultimately have "datetime_of y m d (r div 60 div 60) (r div 60 mod 60) (r mod 60) = s * 1000000"
    unfolding datetime_of_def using seconds_of_day [of r] by (intro micros_of_day)
  then show ?thesis
    using strptime_fields [OF y conjunct1 [OF v] h mod mod]
    by (simp only: stamp_def o prod.case time_text_def r_def)
qed

lemma parse_timestamp_stamp:
  assumes "clock_range t"
  shows "parse_timestamp (timestamp t) = Inr (dt_secs t * 1000000)"
  using assms strptime_stamp [of "dt_secs t"]
  by (simp add: parse_timestamp_def timestamp_def clock_range_def dt_year_def)

text \<open>A timestamp of ASCII digits that parses is the canonical text of the instant it names.\<close>

lemma udigit_ascii_inv:
  assumes "udigit c = Some p" "c < 128"
  shows "c = 48 + p \<and> p < 10"
proof -
  have "\<forall>z \<in> set nd_zeros. z = 48 \<or> 128 \<le> z" by (simp add: nd_zeros_def)
  moreover obtain z where "z \<in> set nd_zeros" "z \<le> c" "c < z + 10" "p = c - z"
    using assms(1) by (auto simp: udigit_def dest: find_Some_in)
  ultimately show ?thesis using assms(2) by fastforce
qed

lemma adigit_inv: "adigit c = Some p \<Longrightarrow> c = 48 + p \<and> p < 10"
  by (auto simp: adigit_def split: if_splits)

lemma two_digits_inv:
  assumes "two_digits wide a b = Some n" "a < 128" "b < 128"
  shows "[a, b] = pad2 n \<and> 0 \<le> n \<and> n < 100"
proof -
  obtain p q where "adigit a = Some p" "udigit b = Some q \<or> adigit b = Some q" "n = 10 * int p + int q"
    using assms(1) by (auto simp: two_digits_def bind_eq_Some_conv split: if_splits)
  then have pq: "a = 48 + p" "b = 48 + q" "p < 10" "q < 10" "n = 10 * int p + int q"
    using adigit_inv udigit_ascii_inv assms(3) by blast+
  then have "n div 10 = int p" "n mod 10 = int q" by simp_all
  then show ?thesis using pq by (simp add: pad2_def tens_def units_def)
qed

lemma four_digits_inv:
  assumes "four_digits a b c d = Some n" "a < 128" "b < 128" "c < 128" "d < 128"
  shows "[a, b, c, d] = pad4 n \<and> 0 \<le> n \<and> n < 10000"
proof -
  obtain p q r s where "udigit a = Some p" "udigit b = Some q" "udigit c = Some r" "udigit d = Some s"
    "n = 1000 * int p + 100 * int q + 10 * int r + int s"
    using assms(1) by (auto simp: four_digits_def bind_eq_Some_conv)
  then have dg: "a = 48 + p" "b = 48 + q" "c = 48 + r" "d = 48 + s" "p < 10" "q < 10" "r < 10" "s < 10"
    and n: "n = (10 * int p + int q) * 100 + (10 * int r + int s)"
    using udigit_ascii_inv assms(2-) by fastforce+
  have low: "0 \<le> 10 * int r + int s" "10 * int r + int s < 100" using dg(5-) by linarith+
  have "n div 100 = 10 * int p + int q" "n mod 100 = 10 * int r + int s"
    unfolding n using low by (simp_all only: div_mult_self3 mod_mult_self3) simp_all
  moreover have "(10 * int p + int q) div 10 = int p" "(10 * int p + int q) mod 10 = int q"
    "(10 * int r + int s) div 10 = int r" "(10 * int r + int s) mod 10 = int s"
    using dg(5-) by simp_all
  ultimately show ?thesis using dg n by (simp add: pad4_def pad2_def tens_def units_def)
qed

lemma list_20: "length s = 20 \<Longrightarrow> s = [s ! 0, s ! 1, s ! 2, s ! 3, s ! 4, s ! 5, s ! 6, s ! 7, s ! 8, s ! 9,
    s ! 10, s ! 11, s ! 12, s ! 13, s ! 14, s ! 15, s ! 16, s ! 17, s ! 18, s ! 19]"
proof -
  have "[0..<20] = [0, 1, 2, 3, 4, 5, 6, 7, 8, 9, 10, 11, 12, 13, 14, 15, 16, 17, 18, 19::nat]" by code_simp
  moreover assume "length s = 20"
  then have "s = map (\<lambda>i. s ! i) [0..<20]" by (metis map_nth)
  ultimately show ?thesis by simp
qed

lemma seconds_split:
  fixes h mi s :: int
  assumes "0 \<le> h" "h < 24" "0 \<le> mi" "mi < 60" "0 \<le> s" "s < 60"
  shows "(n * 86400 + (h * 3600 + mi * 60 + s)) div 86400 = n"
    and "(n * 86400 + (h * 3600 + mi * 60 + s)) mod 86400 = h * 3600 + mi * 60 + s"
    and "(h * 3600 + mi * 60 + s) div 60 div 60 = h"
    and "(h * 3600 + mi * 60 + s) div 60 mod 60 = mi" and "(h * 3600 + mi * 60 + s) mod 60 = s"
proof -
  have r: "0 \<le> h * 3600 + mi * 60 + s" "h * 3600 + mi * 60 + s < 86400" using assms by linarith+
  then show "(n * 86400 + (h * 3600 + mi * 60 + s)) div 86400 = n"
      "(n * 86400 + (h * 3600 + mi * 60 + s)) mod 86400 = h * 3600 + mi * 60 + s"
    by (simp_all add: div_pos_pos_trivial)
  have "h * 3600 + mi * 60 + s = (h * 60 + mi) * 60 + s" by simp
  then have q: "(h * 3600 + mi * 60 + s) div 60 = h * 60 + mi" "(h * 3600 + mi * 60 + s) mod 60 = s"
    using assms by (simp_all only: div_mult_self3 mod_mult_self3) simp_all
  then show "(h * 3600 + mi * 60 + s) div 60 div 60 = h" "(h * 3600 + mi * 60 + s) div 60 mod 60 = mi"
    "(h * 3600 + mi * 60 + s) mod 60 = s" using assms by simp_all
qed

lemma strptime_inv:
  assumes "strptime_utc t = Some d" "is_ascii_text t"
  obtains y m dd h mi s where "t = pad4 y @ 45 # pad2 m @ 45 # pad2 dd @ 84 # pad2 h @ 58 # pad2 mi @ 58 # pad2 s @ [90]"
    "1 \<le> y" "y < 10000" "valid_ymd y m dd" "0 \<le> h" "h < 24" "0 \<le> mi" "mi < 60" "0 \<le> s" "s < 60"
    "d = datetime_of y m dd h mi s"
proof -
  from assms(1) have shape: "rfc3339_shape t" by (auto simp: strptime_utc_def split: if_splits)
  then have len: "length t = 20" by (simp add: rfc3339_shape_def)
  then have asc: "t ! i < 128" if "i < 20" for i using that assms(2) by (simp add: is_ascii_text_def list_all_length)
  from assms(1) shape obtain y m dd h mi s where f:
    "four_digits (t ! 0) (t ! 1) (t ! 2) (t ! 3) = Some y"
    "two_digits (\<lambda>_. False) (t ! 5) (t ! 6) = Some m" "two_digits (\<lambda>p. p = 1 \<or> p = 2) (t ! 8) (t ! 9) = Some dd"
    "two_digits (\<lambda>p. p < 2) (t ! 11) (t ! 12) = Some h" "two_digits (\<lambda>_. True) (t ! 14) (t ! 15) = Some mi"
    "two_digits (\<lambda>_. True) (t ! 17) (t ! 18) = Some s"
    and v: "1 \<le> y" "valid_ymd y m dd" "h < 24" "mi < 60" "s < 60" "d = datetime_of y m dd h mi s"
    by (auto simp: strptime_utc_def bind_eq_Some_conv split: if_splits)
  note g = four_digits_inv [OF f(1) asc asc asc asc, simplified] two_digits_inv [OF f(2) asc asc, simplified]
    two_digits_inv [OF f(3) asc asc, simplified] two_digits_inv [OF f(4) asc asc, simplified]
    two_digits_inv [OF f(5) asc asc, simplified] two_digits_inv [OF f(6) asc asc, simplified]
  have "t = [t ! 0, t ! 1, t ! 2, t ! 3] @ t ! 4 # [t ! 5, t ! 6] @ t ! 7 # [t ! 8, t ! 9] @ t ! 10 #
      [t ! 11, t ! 12] @ t ! 13 # [t ! 14, t ! 15] @ t ! 16 # [t ! 17, t ! 18] @ [t ! 19]"
    using list_20 [OF len] by simp
  then have "t = pad4 y @ 45 # pad2 m @ 45 # pad2 dd @ 84 # pad2 h @ 58 # pad2 mi @ 58 # pad2 s @ [90]"
    using g shape by (simp add: rfc3339_shape_def)
  then show ?thesis using that v g by blast
qed

lemma stamp_strptime:
  assumes "strptime_utc t = Some d" "is_ascii_text t"
  shows "timestamp d = t" and "d = dt_secs d * 1000000" and "1 \<le> dt_year d" and "dt_year d \<le> 9999"
proof -
  from assms obtain y m dd h mi s where t: "t = pad4 y @ 45 # pad2 m @ 45 # pad2 dd @ 84 # pad2 h @ 58 # pad2 mi @ 58 # pad2 s @ [90]"
    and b: "1 \<le> y" "y < 10000" "valid_ymd y m dd" "0 \<le> h" "h < 24" "0 \<le> mi" "mi < 60" "0 \<le> s" "s < 60"
    and d: "d = datetime_of y m dd h mi s"
    by (rule strptime_inv)
  define n where "n = ymd2ord y m dd - 1"
  have secs: "dt_secs d = n * 86400 + (h * 3600 + mi * 60 + s)"
    by (simp add: dt_secs_def d datetime_of_def n_def)
  then show "d = dt_secs d * 1000000" by (simp add: d datetime_of_def n_def)
  note sp = seconds_split [OF b(4-9)]
  have "dt_secs d div 86400 + 1 = ymd2ord y m dd" by (simp only: secs sp n_def)
  then have ord: "ord2ymd (dt_secs d div 86400 + 1) = (y, m, dd)" using ord2ymd_unique [OF b(3)] by simp
  have "dt_secs d mod 86400 = h * 3600 + mi * 60 + s" by (simp only: secs sp)
  then show "timestamp d = t" using ord sp(3-5) by (simp only: timestamp_def stamp_def t time_text_def prod.case)
  show "1 \<le> dt_year d" "dt_year d \<le> 9999"
    using ord b by (auto simp: dt_year_def ord2ymd_def Let_def)
qed

end
