(* ===== verification/Contracts_Request.thy ===== *)
theory Contracts_Request
  imports Contracts_Schema Json_Text Py_Time
begin

text \<open>
  The request models of contracts.py: the records, the declared field constraints, the
  validators and the canonical digest.  The parts that are not Python are parameters of the
  definitions: the conversion of an exact decimal to the binary64 nearest to it
  (\<open>to_float\<close>), the JSON Schema meta-schema check (\<open>check_schema\<close>) and SHA-256
  (\<open>sha256_hex\<close>).
\<close>

definition PROTOCOL_VERSION :: int where "PROTOCOL_VERSION = 1"
definition MAX_MESSAGE_CHARS :: nat where "MAX_MESSAGE_CHARS = 500000"
definition MAX_SCHEMA_BYTES :: nat where "MAX_SCHEMA_BYTES = 250000"
definition MAX_OUTPUT_TOKENS :: int where "MAX_OUTPUT_TOKENS = 12288"
definition DOCUMENT_TASK_V2 :: "pystr \<times> int" where "DOCUMENT_TASK_V2 = (py ''document.summary.step'', 2)"
definition DOCUMENT_CONTEXT_TOKENS :: int where "DOCUMENT_CONTEXT_TOKENS = 32768"
definition DOCUMENT_MAX_OUTPUT_TOKENS :: int where "DOCUMENT_MAX_OUTPUT_TOKENS = 4096"

definition required_context_tokens :: "(pystr \<times> int) option \<Rightarrow> int" where
  "required_context_tokens task = (if task = Some DOCUMENT_TASK_V2 then DOCUMENT_CONTEXT_TOKENS else 0)"

definition document_task_profile :: json where
  "document_task_profile = JObj
    [(py ''version'', JInt 1), (py ''context_tokens'', JInt DOCUMENT_CONTEXT_TOKENS),
     (py ''max_output_tokens'', JInt DOCUMENT_MAX_OUTPUT_TOKENS),
     (py ''max_schema_bytes'', JInt (int MAX_SCHEMA_BYTES)),
     (py ''schema_features'', JList [JStr (py ''bounded_source_passages_v1'')])]"

subsection \<open>The models\<close>

record task_reference =
  task_id :: pystr
  task_version :: int

record requirements =
  input_modalities :: "pystr list"
  output_media_type :: pystr
  structured_output :: bool
  max_output_tokens :: int

record generation_message =
  msg_role :: pystr
  msg_content :: pystr

text \<open>A Python float is the decimal its \<open>repr\<close> spells.\<close>

record generation =
  messages :: "generation_message list"
  temperature :: decimal
  seed :: "int option"
  response_schema :: jobj

record inference_request =
  protocol_version :: int
  request_id :: pystr
  request_expires_at :: pystr
  task :: task_reference
  requirements :: requirements
  generation :: generation

record acknowledgement_request =
  ack_protocol_version :: int
  ack_request_id :: pystr
  ack_disposition :: pystr

subsection \<open>Declared fields\<close>

text \<open>
  Every validation failure surfaces as pydantic's \<open>ValidationError\<close>, a \<open>ValueError\<close>.
  \<open>extra="forbid"\<close> refuses unknown fields, \<open>strict=True\<close> refuses conversions; a missing
  field and a null one are both refused where the field is required.
\<close>

definition invalid :: "string \<Rightarrow> 'a result" where
  "invalid field = Inl (ValueError field)"

definition only_fields :: "string list \<Rightarrow> jobj \<Rightarrow> unit result" where
  "only_fields names ob = check (list_all (\<lambda>(k, v). k \<in> set (map py names)) ob)
    (ValueError ''extra fields not permitted'')"

definition str_field :: "jobj \<Rightarrow> string \<Rightarrow> (pystr \<Rightarrow> bool) \<Rightarrow> pystr result" where
  "str_field ob k ok = (case jget ob k of JStr s \<Rightarrow> if ok s then Inr s else invalid k | _ \<Rightarrow> invalid k)"

definition int_field :: "jobj \<Rightarrow> string \<Rightarrow> (int \<Rightarrow> bool) \<Rightarrow> int result" where
  "int_field ob k ok = (case jget ob k of JInt n \<Rightarrow> if ok n then Inr n else invalid k | _ \<Rightarrow> invalid k)"

definition obj_field :: "jobj \<Rightarrow> string \<Rightarrow> jobj result" where
  "obj_field ob k = (case jget ob k of JObj v \<Rightarrow> Inr v | _ \<Rightarrow> invalid k)"

definition list_field :: "jobj \<Rightarrow> string \<Rightarrow> nat \<Rightarrow> json list result" where
  "list_field ob k n = (case jget ob k of JList vs \<Rightarrow> if length vs = n then Inr vs else invalid k | _ \<Rightarrow> invalid k)"

text \<open>Strings under a length or pattern constraint must be encodable, so hold no surrogate.\<close>

definition is_unicode :: "pystr \<Rightarrow> bool" where
  "is_unicode s = list_all (\<lambda>c. utf8_char c \<noteq> None) s"

definition is_lower :: "nat \<Rightarrow> bool" where
  "is_lower c = (97 \<le> c \<and> c \<le> 122)"

definition task_id_ok :: "pystr \<Rightarrow> bool" where
  "task_id_ok s =
    (1 \<le> length s \<and> length s \<le> 128 \<and> is_lower (hd s) \<and>
     list_all (\<lambda>c. is_lower c \<or> is_digit c \<or> c = 95 \<or> c = 46 \<or> c = 45) (tl s))"

definition validate_task_reference :: "jobj \<Rightarrow> task_reference result" where
  "validate_task_reference ob =
    bind_res (only_fields [''id'', ''version''] ob) (\<lambda>_.
    bind_res (str_field ob ''id'' task_id_ok) (\<lambda>i.
    bind_res (int_field ob ''version'' (\<lambda>n. 1 \<le> n \<and> n \<le> 2147483647)) (\<lambda>n.
    Inr \<lparr>task_id = i, task_version = n\<rparr>)))"

definition validate_requirements :: "jobj \<Rightarrow> requirements result" where
  "validate_requirements ob =
    bind_res (only_fields [''input_modalities'', ''output_media_type'', ''structured_output'',
      ''max_output_tokens''] ob) (\<lambda>_.
    bind_res (check (jget ob ''input_modalities'' = JList [JStr (py ''text'')])
      (ValueError ''input_modalities must be exactly ['text']'')) (\<lambda>_.
    bind_res (str_field ob ''output_media_type'' (\<lambda>s. s = py ''application/json'')) (\<lambda>media.
    bind_res (check (jget ob ''structured_output'' = JBool True) (ValueError ''structured_output''))
      (\<lambda>_.
    bind_res (int_field ob ''max_output_tokens'' (\<lambda>n. 1 \<le> n \<and> n \<le> MAX_OUTPUT_TOKENS)) (\<lambda>n.
    Inr \<lparr>input_modalities = [py ''text''], output_media_type = media, structured_output = True,
      max_output_tokens = n\<rparr>)))))"

definition validate_message :: "json \<Rightarrow> generation_message result" where
  "validate_message v =
    (case v of
       JObj ob \<Rightarrow>
         bind_res (only_fields [''role'', ''content''] ob) (\<lambda>_.
         bind_res (str_field ob ''role'' (\<lambda>s. s = py ''system'' \<or> s = py ''user'')) (\<lambda>r.
         bind_res (str_field ob ''content''
             (\<lambda>s. is_unicode s \<and> 1 \<le> length s \<and> length s \<le> MAX_MESSAGE_CHARS)) (\<lambda>c.
         Inr \<lparr>msg_role = r, msg_content = c\<rparr>)))
     | _ \<Rightarrow> invalid ''messages'')"

definition number_of :: "json \<Rightarrow> decimal option" where
  "number_of v =
    (case v of
       JInt n \<Rightarrow> Some (Dec (n < 0) (nat \<bar>n\<bar>) 0) | JDec d \<Rightarrow> Some d | JFloat d \<Rightarrow> Some d
     | _ \<Rightarrow> None)"

definition temperature_field :: "(decimal \<Rightarrow> decimal) \<Rightarrow> jobj \<Rightarrow> decimal result" where
  "temperature_field to_float ob =
    (case number_of (jget ob ''temperature'') of
       None \<Rightarrow> invalid ''temperature''
     | Some d \<Rightarrow>
         if 0 \<le> dec_value (to_float d) \<and> dec_value (to_float d) \<le> 1
         then Inr (to_float d) else invalid ''temperature'')"

text \<open>\<open>reject_explicit_null_seed\<close> runs first: the field may be left out but not be null.\<close>

definition seed_field :: "jobj \<Rightarrow> int option result" where
  "seed_field ob =
    (if \<not> jhas ob ''seed'' then Inr None
     else map_sum id Some (int_field ob ''seed'' (\<lambda>n. 0 \<le> n \<and> n \<le> 9223372036854775807)))"

subsection \<open>The shape of a generation\<close>

definition validate_generation_shape :: "(json \<Rightarrow> bool) \<Rightarrow> generation \<Rightarrow> unit result" where
  "validate_generation_shape check_schema g =
    (let schema = response_schema g;
         root = filter (\<lambda>(k, v). k \<noteq> py ''$defs'') schema
     in
     bind_res (check (map msg_role (messages g) = [py ''system'', py ''user''])
       (ValueError ''messages must contain one system message followed by one user message'')) (\<lambda>_.
     bind_res (encode_json_bytes True (JObj schema)) (\<lambda>schema_bytes.
     bind_res (check (length schema_bytes \<le> MAX_SCHEMA_BYTES)
       (ValueError ''response_schema exceeds its byte limit'')) (\<lambda>_.
     bind_res (validate_json_shape (JObj schema)) (\<lambda>_.
     bind_res (passage_definitions schema) (\<lambda>definitions.
     bind_res (validate_supported_schema definitions True True 1 0 root)
       (\<lambda>(passage_values, references).
     bind_res (check (passage_values \<le> MAX_PASSAGE_VALUES)
       (ValueError ''response_schema exceeds its passage comparison budget'')) (\<lambda>_.
     bind_res (check (check_schema (JObj schema))
       (ValueError ''response_schema is not valid JSON Schema'')) (\<lambda>_.
     check (jget schema ''type'' = JStr (py ''object'') \<or> is_bounded_root_object_choice schema)
       (ValueError
         ''response_schema root must be an object or one bounded closed-object choice''))))))))))"

definition validate_generation ::
    "(decimal \<Rightarrow> decimal) \<Rightarrow> (json \<Rightarrow> bool) \<Rightarrow> jobj \<Rightarrow> generation result" where
  "validate_generation to_float check_schema ob =
    bind_res (only_fields [''messages'', ''temperature'', ''seed'', ''response_schema''] ob) (\<lambda>_.
    bind_res (list_field ob ''messages'' 2) (\<lambda>vs.
    bind_res (map_res validate_message vs) (\<lambda>ms.
    bind_res (temperature_field to_float ob) (\<lambda>t.
    bind_res (seed_field ob) (\<lambda>s.
    bind_res (obj_field ob ''response_schema'') (\<lambda>schema.
    let g = \<lparr>messages = ms, temperature = t, seed = s, response_schema = schema\<rparr>
    in bind_res (validate_generation_shape check_schema g) (\<lambda>_. Inr g)))))))"

subsection \<open>Requests\<close>

definition is_hex_lower :: "nat \<Rightarrow> bool" where
  "is_hex_lower c = (is_digit c \<or> 97 \<le> c \<and> c \<le> 102)"

text \<open>\<open>UUID_V4_RE.fullmatch\<close>\<close>

definition uuid4_text :: "pystr \<Rightarrow> bool" where
  "uuid4_text s =
    (length s = 36 \<and>
     list_all (\<lambda>(i, c).
       if i \<in> set [8, 13, 18, 23] then c = 45
       else if i = 14 then c = 52
       else if i = 19 then c \<in> set [56, 57, 97, 98]
       else is_hex_lower c) (enumerate 0 s))"

definition validate_protocol_version :: "json \<Rightarrow> int result" where
  "validate_protocol_version v =
    (case v of
       JInt n \<Rightarrow> if n = PROTOCOL_VERSION then Inr n
         else Inl (ValueError ''protocol_version must be exactly 1'')
     | _ \<Rightarrow> Inl (ValueError ''protocol_version must be exactly 1''))"

definition validate_request_id :: "pystr \<Rightarrow> pystr result" where
  "validate_request_id value =
    (if uuid4_text value then Inr value
     else Inl (ValueError ''request_id must be canonical lowercase UUIDv4 text''))"

definition safe_request_id :: "json \<Rightarrow> pystr option" where
  "safe_request_id value = (case value of JStr s \<Rightarrow> if uuid4_text s then Some s else None | _ \<Rightarrow> None)"

definition validate_request_expiry :: "pystr \<Rightarrow> pystr result" where
  "validate_request_expiry value =
    (if \<not> rfc3339_shape value
     then Inl (ValueError ''request_expires_at must be whole-second RFC3339 UTC text'')
     else if strptime_utc value = None
     then Inl (ValueError ''request_expires_at must be a valid timestamp'')
     else Inr value)"

definition validate_inference_request ::
    "(decimal \<Rightarrow> decimal) \<Rightarrow> (json \<Rightarrow> bool) \<Rightarrow> jobj \<Rightarrow> inference_request result" where
  "validate_inference_request to_float check_schema ob =
    bind_res (only_fields [''protocol_version'', ''request_id'', ''request_expires_at'', ''task'',
      ''requirements'', ''generation''] ob) (\<lambda>_.
    bind_res (validate_protocol_version (jget ob ''protocol_version'')) (\<lambda>v.
    bind_res (bind_res (str_field ob ''request_id'' (\<lambda>_. True)) validate_request_id) (\<lambda>i.
    bind_res (bind_res (str_field ob ''request_expires_at'' (\<lambda>_. True)) validate_request_expiry) (\<lambda>e.
    bind_res (bind_res (obj_field ob ''task'') validate_task_reference) (\<lambda>t.
    bind_res (bind_res (obj_field ob ''requirements'') validate_requirements) (\<lambda>r.
    bind_res (bind_res (obj_field ob ''generation'') (validate_generation to_float check_schema)) (\<lambda>g.
    Inr \<lparr>protocol_version = v, request_id = i, request_expires_at = e, task = t,
      requirements = r, generation = g\<rparr>)))))))"

definition validate_acknowledgement_request :: "jobj \<Rightarrow> acknowledgement_request result" where
  "validate_acknowledgement_request ob =
    bind_res (only_fields [''protocol_version'', ''request_id'', ''disposition''] ob) (\<lambda>_.
    bind_res (validate_protocol_version (jget ob ''protocol_version'')) (\<lambda>v.
    bind_res (bind_res (str_field ob ''request_id'' (\<lambda>_. True)) validate_request_id) (\<lambda>i.
    bind_res (str_field ob ''disposition''
      (\<lambda>s. s = py ''persisted'' \<or> s = py ''application_rejected'')) (\<lambda>d.
    Inr \<lparr>ack_protocol_version = v, ack_request_id = i, ack_disposition = d\<rparr>))))"

text \<open>The property \<open>expires_at\<close>; it raises nothing on a validated request.\<close>

definition expires_at :: "inference_request \<Rightarrow> datetime" where
  "expires_at r = (case strptime_utc (request_expires_at r) of Some t \<Rightarrow> t | None \<Rightarrow> 0)"

text \<open>\<open>model_dump(mode="python", exclude_none=True)\<close>\<close>

definition model_dump :: "inference_request \<Rightarrow> json" where
  "model_dump r = JObj
    [(py ''protocol_version'', JInt (protocol_version r)),
     (py ''request_id'', JStr (request_id r)),
     (py ''request_expires_at'', JStr (request_expires_at r)),
     (py ''task'', JObj
       [(py ''id'', JStr (task_id (task r))), (py ''version'', JInt (task_version (task r)))]),
     (py ''requirements'', JObj
       [(py ''input_modalities'', JList (map JStr (input_modalities (requirements r)))),
        (py ''output_media_type'', JStr (output_media_type (requirements r))),
        (py ''structured_output'', JBool (structured_output (requirements r))),
        (py ''max_output_tokens'', JInt (max_output_tokens (requirements r)))]),
     (py ''generation'', JObj
       ([(py ''messages'', JList (map (\<lambda>m. JObj [(py ''role'', JStr (msg_role m)),
            (py ''content'', JStr (msg_content m))]) (messages (generation r)))),
         (py ''temperature'', JFloat (temperature (generation r)))] @
        (case seed (generation r) of None \<Rightarrow> [] | Some n \<Rightarrow> [(py ''seed'', JInt n)]) @
        [(py ''response_schema'', JObj (response_schema (generation r)))]))]"

definition canonical_digest :: "(nat list \<Rightarrow> pystr) \<Rightarrow> inference_request \<Rightarrow> pystr result" where
  "canonical_digest sha256_hex r =
    bind_res (encode_json_bytes True (model_dump r)) (\<lambda>encoded. Inr (sha256_hex encoded))"

subsection \<open>What an accepted generation is\<close>

lemma validate_generation_shape_iff:
  "validate_generation_shape check_schema g = Inr () \<longleftrightarrow>
    (let schema = response_schema g; root = filter (\<lambda>(k, v). k \<noteq> py ''$defs'') schema
     in map msg_role (messages g) = [py ''system'', py ''user''] \<and>
       (\<exists>bytes. encode_json_bytes True (JObj schema) = Inr bytes \<and> length bytes \<le> MAX_SCHEMA_BYTES) \<and>
       json_nodes (JObj schema) \<le> MAX_JSON_NODES \<and> json_depth (JObj schema) \<le> MAX_JSON_DEPTH \<and>
       (\<exists>definitions. passage_definitions schema = Inr definitions \<and>
         admissible definitions True True root \<and>
         ref_count definitions root \<le> MAX_PASSAGE_REFERENCES \<and>
         weight definitions root \<le> MAX_PASSAGE_VALUES) \<and>
       check_schema (JObj schema) \<and>
       (jget schema ''type'' = JStr (py ''object'') \<or> is_bounded_root_object_choice schema))"
proof -
  have f0: "fits 0" by (simp add: fits_def)
  show ?thesis
    by (auto simp: validate_generation_shape_def Let_def bind_res_eq_Inr validate_json_shape_iff
        validate_iff [OF f0] fits_def)
qed

end
