(* ===== verification/Gateway_Config.thy ===== *)
theory Gateway_Config
  imports Contracts_Request
begin

text \<open>
  config.py: credentials and settings.  Floating point numbers of the settings are exact
  rationals; paths are text.
\<close>

subsection \<open>Credentials\<close>

definition MAX_CREDENTIALS :: nat where "MAX_CREDENTIALS = 100"
definition TOKEN_DIGEST_LENGTH :: nat where "TOKEN_DIGEST_LENGTH = 64"

record credential =
  identity_hash :: pystr
  token_digest :: pystr
  tasks :: "(pystr \<times> int) set"

definition configuration :: "string \<Rightarrow> 'a result" where
  "configuration message = Inl (ConfigurationError message)"

definition has_exactly :: "string list \<Rightarrow> jobj \<Rightarrow> bool" where
  "has_exactly keys ob = (jkeys ob = set (map py keys))"

fun parse_task :: "json \<Rightarrow> (pystr \<times> int) result" where
  "parse_task (JObj item) =
    (if \<not> has_exactly [''id'', ''version''] item then configuration ''credential task entries are invalid''
     else (case (jget item ''id'', jget item ''version'') of
         (JStr name, JInt version) \<Rightarrow>
           if name = [] \<or> version < 1 then configuration ''credential task identity is invalid''
           else Inr (name, version)
       | _ \<Rightarrow> configuration ''credential task identity is invalid''))"
| "parse_task _ = configuration ''credential task entries are invalid''"

definition parse_tasks :: "json \<Rightarrow> (pystr \<times> int) set result" where
  "parse_tasks value =
    (case value of
       JList (item # items) \<Rightarrow>
         bind_res (map_res parse_task (item # items)) (\<lambda>parsed.
         bind_res (check (card (set parsed) = length (item # items))
           (ConfigurationError ''credential task entries must be unique'')) (\<lambda>_.
         Inr (set parsed)))
     | _ \<Rightarrow> configuration ''credential tasks must be a non-empty list'')"

text \<open>One entry of the credential file; SHA-256 of text in hexadecimal is a parameter.\<close>

definition parse_credential :: "(nat list \<Rightarrow> pystr) \<Rightarrow> json \<Rightarrow> credential result" where
  "parse_credential sha256_hex raw =
    (case raw of
       JObj ob \<Rightarrow>
         bind_res (check (has_exactly [''id'', ''token_sha256'', ''tasks''] ob)
           (ConfigurationError ''credential entries contain invalid fields'')) (\<lambda>_.
         bind_res (case jget ob ''id'' of
             JStr s \<Rightarrow> if 1 \<le> length s \<and> length s \<le> 128 then Inr s else configuration ''credential id is invalid''
           | _ \<Rightarrow> configuration ''credential id is invalid'') (\<lambda>identity.
         bind_res (case jget ob ''token_sha256'' of
             JStr s \<Rightarrow> if length s = TOKEN_DIGEST_LENGTH \<and> list_all is_hex_lower s then Inr s
               else configuration ''credential token digest is invalid''
           | _ \<Rightarrow> configuration ''credential token digest is invalid'') (\<lambda>digest.
         bind_res (parse_tasks (jget ob ''tasks'')) (\<lambda>parsed_tasks.
         bind_res (utf8_encode identity) (\<lambda>bytes.
         Inr \<lparr>identity_hash = sha256_hex bytes, token_digest = digest, tasks = parsed_tasks\<rparr>)))))
     | _ \<Rightarrow> configuration ''credential entries contain invalid fields'')"

text \<open>The loop over the entries, with the identities and digests seen so far.\<close>

fun parse_credentials ::
    "(nat list \<Rightarrow> pystr) \<Rightarrow> pystr set \<Rightarrow> pystr set \<Rightarrow> json list \<Rightarrow> credential list result" where
  "parse_credentials sha256_hex identities token_digests [] = Inr []"
| "parse_credentials sha256_hex identities token_digests (raw # raws) =
    bind_res (parse_credential sha256_hex raw) (\<lambda>credential.
    bind_res (check (\<not> (identity_hash credential \<in> identities \<or> token_digest credential \<in> token_digests))
      (ConfigurationError ''credential identities and token digests must be unique'')) (\<lambda>_.
    bind_res (parse_credentials sha256_hex (insert (identity_hash credential) identities)
      (insert (token_digest credential) token_digests) raws) (\<lambda>credentials.
    Inr (credential # credentials))))"

definition credentials_of_document :: "(nat list \<Rightarrow> pystr) \<Rightarrow> jobj \<Rightarrow> credential list result" where
  "credentials_of_document sha256_hex document =
    bind_res (check (has_exactly [''version'', ''credentials''] document \<and> jget document ''version'' = JInt 1)
      (ConfigurationError ''credential file must use schema version 1'')) (\<lambda>_.
    case jget document ''credentials'' of
      JList raws \<Rightarrow>
        if 1 \<le> length raws \<and> length raws \<le> MAX_CREDENTIALS then parse_credentials sha256_hex {} {} raws
        else configuration ''credential file must contain a bounded non-empty list''
    | _ \<Rightarrow> configuration ''credential file must contain a bounded non-empty list'')"

text \<open>The loop does not stop at the first match, so the last one counts.\<close>

definition token_ok :: "pystr \<Rightarrow> bool" where
  "token_ok token = (32 \<le> length token \<and> length token \<le> 512 \<and> is_ascii_text token \<and> \<not> has_space token)"

definition authenticate :: "(nat list \<Rightarrow> pystr) \<Rightarrow> credential list \<Rightarrow> pystr \<Rightarrow> credential option" where
  "authenticate sha256_hex credentials token =
    (if \<not> token_ok token then None
     else fold (\<lambda>credential matched. if sha256_hex token = token_digest credential then Some credential else matched)
       credentials None)"

subsection \<open>Settings\<close>

record lm_studio_settings =
  fallback_base_url :: pystr
  fallback_model :: pystr
  fallback_token_path :: pystr
  fallback_idle_ttl_seconds :: int

record settings =
  database_path :: pystr
  credentials_path :: pystr
  encryption_key_path :: pystr
  ollama_base_url :: pystr
  ollama_model :: pystr
  deployment_id :: pystr
  lm_studio_fallback :: "lm_studio_settings option"
  bind_host :: pystr
  bind_port :: int
  tls_certificate_path :: "pystr option"
  tls_key_path :: "pystr option"
  request_max_bytes :: int
  request_max_lifetime_seconds :: int
  worker_timeout_seconds :: rat
  retry_after_seconds :: int
  open_total_limit :: int
  open_per_credential_limit :: int
  tombstone_seconds :: int
  maintenance_interval_seconds :: rat

subsection \<open>What a loaded credential file guarantees\<close>

lemma parse_task_Inr: "parse_task v = Inr (name, version) \<Longrightarrow> name \<noteq> [] \<and> 1 \<le> version"
  by (cases v rule: parse_task.cases)
    (auto simp: configuration_def split: if_splits json.splits)

lemma map_res_set: "map_res f xs = Inr ys \<Longrightarrow> y \<in> set ys \<Longrightarrow> \<exists>x \<in> set xs. f x = Inr y"
  by (induction xs arbitrary: ys) (auto simp: bind_res_eq_Inr)

lemma parse_tasks_Inr:
  assumes "parse_tasks v = Inr ts"
  shows "ts \<noteq> {} \<and> (\<forall>(name, version) \<in> ts. name \<noteq> [] \<and> 1 \<le> version)"
proof -
  obtain vs parsed where p: "vs \<noteq> []" "map_res parse_task vs = Inr parsed" "ts = set parsed"
  proof (cases v)
    case (JList vs)
    then show thesis using assms that [of vs]
      by (cases vs) (auto simp: parse_tasks_def configuration_def bind_res_eq_Inr simp del: map_res.simps)
  qed (use assms in \<open>auto simp: parse_tasks_def configuration_def\<close>)
  from map_res_Inr_length [OF p(2)] p(1) have "parsed \<noteq> []" by auto
  then show ?thesis using p(3) map_res_set [OF p(2)] parse_task_Inr by fastforce
qed

lemma parse_credential_Inr:
  assumes "parse_credential sha256_hex raw = Inr c"
  shows "tasks c \<noteq> {} \<and> length (token_digest c) = TOKEN_DIGEST_LENGTH \<and> list_all is_hex_lower (token_digest c)"
  using assms parse_tasks_Inr
  by (auto simp: parse_credential_def configuration_def bind_res_eq_Inr split: json.splits if_splits)

lemma parse_credentials_Inr:
  assumes "parse_credentials sha256_hex identities digests raws = Inr cs"
  shows "distinct (map identity_hash cs) \<and> distinct (map token_digest cs) \<and> length cs = length raws \<and>
    identity_hash ` set cs \<inter> identities = {} \<and> token_digest ` set cs \<inter> digests = {} \<and>
    (\<forall>c \<in> set cs. tasks c \<noteq> {} \<and> list_all is_hex_lower (token_digest c))"
  using assms
proof (induction raws arbitrary: identities digests cs)
  case Nil
  then show ?case by simp
next
  case (Cons raw raws)
  then obtain c cs' where c: "parse_credential sha256_hex raw = Inr c" "cs = c # cs'"
      "identity_hash c \<notin> identities" "token_digest c \<notin> digests"
      "parse_credentials sha256_hex (insert (identity_hash c) identities) (insert (token_digest c) digests) raws = Inr cs'"
    by (auto simp: bind_res_eq_Inr)
  from Cons.IH [OF c(5)] show ?case using c parse_credential_Inr [OF c(1)] by auto
qed

lemma find_append: "find P (xs @ ys) = (case find P xs of None \<Rightarrow> find P ys | Some x \<Rightarrow> Some x)"
  by (induction xs) auto

lemma fold_last_match:
  "fold (\<lambda>c matched. if P c then Some c else matched) cs m =
    (case find P (rev cs) of None \<Rightarrow> m | Some c \<Rightarrow> Some c)"
  by (induction cs arbitrary: m) (auto simp: find_append split: option.split)

end
