(* ===== verification/Result_Cipher.thy ===== *)
theory Result_Cipher
  imports Py_Text Py_Time
begin

text \<open>
  store.py: the record of a durable request and the cipher of its output.  AES-GCM is a
  parameter, a pair of functions; the nonce \<open>os.urandom\<close> draws is an argument of \<open>encrypt\<close>.
  The associated data binds a ciphertext to its request, owner and digest.
\<close>

datatype request_state =
  Reserved | In_Progress | Completed | Failed | Ambiguous | Expired | Acknowledged

record request_record =
  r_request_id :: pystr
  r_credential_hash :: pystr
  r_request_digest :: pystr
  r_task_id :: pystr
  r_task_version :: int
  r_expires_at :: datetime
  r_state :: request_state
  r_attempt_id :: "pystr option"
  r_output_media_type :: "pystr option"
  r_output_nonce :: "nat list option"
  r_output_ciphertext :: "nat list option"
  r_producing_deployment_id :: "pystr option"
  r_producing_task_policy_version :: "int option"
  r_error_code :: "pystr option"
  r_error_retryable :: "bool option"
  r_error_retry_after_seconds :: "int option"
  r_acknowledgement_disposition :: "pystr option"

subsection \<open>The cipher\<close>

text \<open>\<open>seal nonce plaintext aad\<close> and \<open>unseal nonce ciphertext aad\<close>; \<open>None\<close> is \<open>InvalidTag\<close>.\<close>

record aead =
  seal :: "nat list \<Rightarrow> nat list \<Rightarrow> nat list \<Rightarrow> nat list"
  unseal :: "nat list \<Rightarrow> nat list \<Rightarrow> nat list \<Rightarrow> nat list option"

definition check_key :: "nat list \<Rightarrow> unit result" where
  "check_key key = check (length key = 32) (StoreFault ''encryption key must decode to 32 bytes'')"

definition ascii_encode :: "pystr \<Rightarrow> nat list result" where
  "ascii_encode s = (if is_ascii_text s then Inr s else Inl UnicodeEncodeError)"

definition aad :: "request_record \<Rightarrow> nat list result" where
  "aad record =
    ascii_encode (r_request_id record @ [10] @ r_credential_hash record @ [10] @ r_request_digest record)"

definition encrypt :: "aead \<Rightarrow> nat list \<Rightarrow> request_record \<Rightarrow> pystr \<Rightarrow> (nat list \<times> nat list) result" where
  "encrypt cipher nonce record plaintext =
    bind_res (utf8_encode plaintext) (\<lambda>bytes.
    bind_res (aad record) (\<lambda>associated.
    Inr (nonce, seal cipher nonce bytes associated)))"

text \<open>
  The \<open>except\<close> clause covers \<open>InvalidTag\<close> and every \<open>ValueError\<close>, so also the encoding of
  the associated data and the decoding of the plaintext.
\<close>

definition integrity_failure :: exn where
  "integrity_failure = StoreFault ''encrypted output failed integrity verification''"

definition decrypt :: "aead \<Rightarrow> request_record \<Rightarrow> pystr result" where
  "decrypt cipher record =
    (case (r_output_nonce record, r_output_ciphertext record) of
       (Some nonce, Some ciphertext) \<Rightarrow>
         (case aad record of
            Inl e \<Rightarrow> Inl integrity_failure
          | Inr associated \<Rightarrow>
              (case unseal cipher nonce ciphertext associated of
                 None \<Rightarrow> Inl integrity_failure
               | Some bytes \<Rightarrow>
                   (case utf8_decode bytes of None \<Rightarrow> Inl integrity_failure | Some text \<Rightarrow> Inr text)))
     | _ \<Rightarrow> Inl (StoreFault ''completed result has no encrypted output''))"

definition faithful :: "aead \<Rightarrow> bool" where
  "faithful cipher =
    (\<forall>nonce plain associated. unseal cipher nonce (seal cipher nonce plain associated) associated = Some plain)"

lemma decrypt_encrypt:
  assumes "faithful cipher" "encrypt cipher nonce record plaintext = Inr (n, c)"
    "aad record' = aad record" "r_output_nonce record' = Some n" "r_output_ciphertext record' = Some c"
  shows "decrypt cipher record' = Inr plaintext"
  using assms utf8_decode_encode
  by (auto simp: encrypt_def decrypt_def bind_res_eq_Inr faithful_def)

lemma decrypt_error: "decrypt cipher record = Inl e \<Longrightarrow> is_store_error e"
  by (auto simp: decrypt_def integrity_failure_def split: option.splits sum.splits)

text \<open>The associated data determines the request, its owner and its digest.\<close>

lemma split_line:
  assumes "10 \<notin> set a" "10 \<notin> set b" "a @ 10 # x = b @ 10 # y"
  shows "a = b \<and> x = y"
  using assms
proof (induction a arbitrary: b)
  case Nil
  then show ?case by (cases b) auto
next
  case (Cons c a)
  then show ?case by (cases b) auto
qed

lemma aad_inj:
  assumes "aad r = Inr a" "aad q = Inr a"
    "10 \<notin> set (r_request_id r)" "10 \<notin> set (r_request_id q)"
    "10 \<notin> set (r_credential_hash r)" "10 \<notin> set (r_credential_hash q)"
  shows "r_request_id r = r_request_id q \<and> r_credential_hash r = r_credential_hash q \<and>
    r_request_digest r = r_request_digest q"
proof -
  have eq: "r_request_id r @ 10 # r_credential_hash r @ 10 # r_request_digest r =
      r_request_id q @ 10 # r_credential_hash q @ 10 # r_request_digest q"
    using assms(1,2) by (auto simp: aad_def ascii_encode_def split: if_splits)
  from split_line [OF assms(3,4) eq] show ?thesis using split_line [OF assms(5,6)] by blast
qed

end
