(* ===== verification/Request_Store.thy ===== *)
theory Request_Store
  imports Result_Cipher Contracts_Request
begin

text \<open>
  store.py: the durable request table and its operations.  The table \<open>inference_requests\<close> is the
  list of its rows; the columns hold what SQLite holds, timestamps as text.  Each operation is a
  transaction: it either commits the table it computes or, when it raises, leaves the table it
  found.  Comparisons of timestamps are comparisons of text, as in the SQL.
\<close>

record request_row =
  c_request_id :: pystr
  c_credential_hash :: pystr
  c_request_digest :: pystr
  c_task_id :: pystr
  c_task_version :: int
  c_expires_at :: pystr
  c_state :: request_state
  c_attempt_id :: "pystr option"
  c_output_media_type :: "pystr option"
  c_output_nonce :: "nat list option"
  c_output_ciphertext :: "nat list option"
  c_producing_deployment_id :: "pystr option"
  c_producing_task_policy_version :: "int option"
  c_error_code :: "pystr option"
  c_error_retryable :: "int option"
  c_error_retry_after_seconds :: "int option"
  c_acknowledgement_disposition :: "pystr option"
  c_created_at :: pystr
  c_updated_at :: pystr
  c_acknowledged_at :: "pystr option"

type_synonym request_table = "request_row list"
type_synonym 'a transaction = "(request_table, 'a) action"

record store_config =
  max_open_total :: nat
  max_open_per_credential :: nat
  tombstone_retention_seconds :: int

subsection \<open>Statements\<close>

definition update_where ::
    "(request_row \<Rightarrow> bool) \<Rightarrow> (request_row \<Rightarrow> request_row) \<Rightarrow> request_table \<Rightarrow> request_table" where
  "update_where P f t = map (\<lambda>r. if P r then f r else r) t"

definition count_where :: "(request_row \<Rightarrow> bool) \<Rightarrow> request_table \<Rightarrow> nat" where
  "count_where P t = length (filter P t)"

text \<open>\<open>UPDATE\<close> returning the number of rows it matched.\<close>

definition update_count :: "(request_row \<Rightarrow> bool) \<Rightarrow> (request_row \<Rightarrow> request_row) \<Rightarrow> nat transaction" where
  "update_count P f t = (Inr (count_where P t), update_where P f t)"

definition insert_row :: "request_row \<Rightarrow> unit transaction" where
  "insert_row row t =
    (if c_request_id row \<in> set (map c_request_id t) then (Inl IntegrityError, t)
     else (Inr (), t @ [row]))"

definition is_retired :: "request_state \<Rightarrow> bool" where
  "is_retired s = (s = Acknowledged \<or> s = Expired)"

definition is_open :: "request_state \<Rightarrow> bool" where
  "is_open s = (s = Reserved \<or> s = In_Progress \<or> s = Completed \<or> s = Ambiguous)"

definition overdue :: "datetime \<Rightarrow> request_row \<Rightarrow> bool" where
  "overdue now r = (\<not> is_retired (c_state r) \<and> c_expires_at r \<le> timestamp now)"

definition expire_row :: "datetime \<Rightarrow> request_row \<Rightarrow> request_row" where
  "expire_row now r = r\<lparr>c_state := Expired, c_output_media_type := None, c_output_nonce := None,
     c_output_ciphertext := None, c_updated_at := timestamp now\<rparr>"

definition retention_cutoff :: "store_config \<Rightarrow> datetime \<Rightarrow> datetime" where
  "retention_cutoff cfg now = now - tombstone_retention_seconds cfg * 1000000"

definition stale :: "store_config \<Rightarrow> datetime \<Rightarrow> request_row \<Rightarrow> bool" where
  "stale cfg now r = (is_retired (c_state r) \<and> c_updated_at r < timestamp (retention_cutoff cfg now))"

definition cleanup :: "store_config \<Rightarrow> datetime \<Rightarrow> request_table \<Rightarrow> request_table" where
  "cleanup cfg now t =
    filter (\<lambda>r. \<not> stale cfg now r) (update_where (overdue now) (expire_row now) t)"

definition find_row :: "pystr \<Rightarrow> request_table \<Rightarrow> request_row option" where
  "find_row rid t = find (\<lambda>r. c_request_id r = rid) t"

definition record_of_row :: "request_row \<Rightarrow> request_record result" where
  "record_of_row r =
    bind_res (parse_timestamp (c_expires_at r)) (\<lambda>expires.
    Inr \<lparr>r_request_id = c_request_id r, r_credential_hash = c_credential_hash r,
      r_request_digest = c_request_digest r, r_task_id = c_task_id r,
      r_task_version = c_task_version r, r_expires_at = expires, r_state = c_state r,
      r_attempt_id = c_attempt_id r, r_output_media_type = c_output_media_type r,
      r_output_nonce = c_output_nonce r, r_output_ciphertext = c_output_ciphertext r,
      r_producing_deployment_id = c_producing_deployment_id r,
      r_producing_task_policy_version = c_producing_task_policy_version r,
      r_error_code = c_error_code r,
      r_error_retryable = map_option (\<lambda>n. n \<noteq> 0) (c_error_retryable r),
      r_error_retry_after_seconds = c_error_retry_after_seconds r,
      r_acknowledgement_disposition = c_acknowledgement_disposition r\<rparr>)"

definition select_request :: "pystr \<Rightarrow> request_table \<Rightarrow> request_record option result" where
  "select_request rid t =
    (case find_row rid t of None \<Rightarrow> Inr None | Some r \<Rightarrow> map_sum id Some (record_of_row r))"

definition authorize_existing :: "request_record \<Rightarrow> pystr \<Rightarrow> pystr option \<Rightarrow> unit result" where
  "authorize_existing record credential digest =
    (if r_credential_hash record \<noteq> credential then Inl RequestForbidden
     else if digest \<noteq> None \<and> Some (r_request_digest record) \<noteq> digest then Inl RequestIdentityConflict
     else Inr ())"

text \<open>\<open>assert record is not None\<close>\<close>

definition reselect :: "pystr \<Rightarrow> request_record transaction" where
  "reselect rid =
    act_bind (act_query (select_request rid)) (\<lambda>record.
    case record of None \<Rightarrow> act_raise AssertionError | Some r \<Rightarrow> act_return r)"

subsection \<open>Operations\<close>

definition new_row :: "inference_request \<Rightarrow> pystr \<Rightarrow> pystr \<Rightarrow> datetime \<Rightarrow> request_row" where
  "new_row request credential digest now =
    \<lparr>c_request_id = request_id request, c_credential_hash = credential, c_request_digest = digest,
     c_task_id = task_id (task request), c_task_version = task_version (task request),
     c_expires_at = request_expires_at request, c_state = Reserved, c_attempt_id = None,
     c_output_media_type = None, c_output_nonce = None, c_output_ciphertext = None,
     c_producing_deployment_id = None, c_producing_task_policy_version = None,
     c_error_code = None, c_error_retryable = None, c_error_retry_after_seconds = None,
     c_acknowledgement_disposition = None, c_created_at = timestamp now,
     c_updated_at = timestamp now, c_acknowledged_at = None\<rparr>"

definition open_count :: "request_table \<Rightarrow> nat" where
  "open_count t = count_where (\<lambda>r. is_open (c_state r)) t"

definition owner_open_count :: "pystr \<Rightarrow> request_table \<Rightarrow> nat" where
  "owner_open_count credential t =
    count_where (\<lambda>r. c_credential_hash r = credential \<and> is_open (c_state r)) t"

definition admit ::
    "store_config \<Rightarrow> inference_request \<Rightarrow> pystr \<Rightarrow> pystr \<Rightarrow> datetime \<Rightarrow> request_record transaction" where
  "admit cfg request credential digest now = atomically (
     act_bind (act_update (cleanup cfg now)) (\<lambda>_.
     act_bind (act_query (select_request (request_id request))) (\<lambda>existing.
     case existing of
       Some record \<Rightarrow>
         act_bind (act_lift (authorize_existing record credential (Some digest))) (\<lambda>_.
         act_return record)
     | None \<Rightarrow>
         act_bind (act_check (\<not> expires_at request \<le> now) RequestExpired) (\<lambda>_.
         act_bind (act_query (\<lambda>t. Inr (open_count t, owner_open_count credential t)))
           (\<lambda>(total, per_owner).
         act_bind (act_check (\<not> (max_open_total cfg \<le> total \<or> max_open_per_credential cfg \<le> per_owner))
           RequestCapacityLimited) (\<lambda>_.
         act_bind (insert_row (new_row request credential digest now)) (\<lambda>_.
         reselect (request_id request))))))))"

definition get_owned ::
    "store_config \<Rightarrow> pystr \<Rightarrow> pystr \<Rightarrow> pystr option \<Rightarrow> datetime \<Rightarrow> request_record transaction" where
  "get_owned cfg rid credential digest now = atomically (
     act_bind (act_update (cleanup cfg now)) (\<lambda>_.
     act_bind (act_query (select_request rid)) (\<lambda>record.
     case record of
       None \<Rightarrow> act_raise RequestUnknown
     | Some r \<Rightarrow>
         act_bind (act_lift (authorize_existing r credential digest)) (\<lambda>_.
         act_return r))))"

definition mark_in_progress ::
    "store_config \<Rightarrow> pystr \<Rightarrow> pystr \<Rightarrow> datetime \<Rightarrow> request_record transaction" where
  "mark_in_progress cfg rid attempt now = atomically (
     act_bind (act_update (cleanup cfg now)) (\<lambda>_.
     act_bind (update_count (\<lambda>r. c_request_id r = rid \<and> c_state r = Reserved)
       (\<lambda>r. r\<lparr>c_state := In_Progress, c_attempt_id := Some attempt, c_updated_at := timestamp now\<rparr>))
       (\<lambda>rowcount.
     act_bind (act_check (rowcount = 1) (StoreFault ''request is not reserved for dispatch'')) (\<lambda>_.
     reselect rid))))"

definition owns_attempt :: "pystr \<Rightarrow> pystr \<Rightarrow> request_row \<Rightarrow> bool" where
  "owns_attempt rid attempt r =
    (c_request_id r = rid \<and> c_state r = In_Progress \<and> c_attempt_id r = Some attempt)"

definition reset_reserved :: "pystr \<Rightarrow> pystr \<Rightarrow> datetime \<Rightarrow> unit transaction" where
  "reset_reserved rid attempt now = atomically (act_update (update_where (owns_attempt rid attempt)
     (\<lambda>r. r\<lparr>c_state := Reserved, c_attempt_id := None, c_updated_at := timestamp now\<rparr>)))"

definition mark_ambiguous :: "pystr \<Rightarrow> pystr \<Rightarrow> datetime \<Rightarrow> unit transaction" where
  "mark_ambiguous rid attempt now = atomically (act_update (update_where (owns_attempt rid attempt)
     (\<lambda>r. r\<lparr>c_state := Ambiguous, c_updated_at := timestamp now\<rparr>)))"

definition mark_failed ::
    "pystr \<Rightarrow> pystr \<Rightarrow> pystr \<Rightarrow> bool \<Rightarrow> int option \<Rightarrow> datetime \<Rightarrow> unit transaction" where
  "mark_failed rid attempt code retryable retry_after now =
     atomically (act_update (update_where (owns_attempt rid attempt)
       (\<lambda>r. r\<lparr>c_state := Failed, c_error_code := Some code,
          c_error_retryable := Some (if retryable then 1 else 0),
          c_error_retry_after_seconds := retry_after, c_updated_at := timestamp now\<rparr>)))"

text \<open>
  The column check of the schema refuses a task policy version below one.  The nonce is the one
  \<open>encrypt\<close> draws.
\<close>

definition complete ::
    "store_config \<Rightarrow> aead \<Rightarrow> nat list \<Rightarrow> pystr \<Rightarrow> pystr \<Rightarrow> pystr \<Rightarrow> pystr \<Rightarrow> pystr \<Rightarrow> int \<Rightarrow> datetime \<Rightarrow>
      bool transaction" where
  "complete cfg cipher nonce rid attempt media_type content deployment policy_version now = atomically (
     act_bind (act_update (cleanup cfg now)) (\<lambda>_.
     act_bind (act_query (select_request rid)) (\<lambda>record.
     case record of
       None \<Rightarrow> act_return False
     | Some r \<Rightarrow>
         if r_state r = Expired then act_return False
         else if r_state r \<noteq> In_Progress \<or> r_attempt_id r \<noteq> Some attempt
         then act_raise (StoreFault ''worker completion does not own the active attempt'')
         else
           act_bind (act_lift (encrypt cipher nonce r content)) (\<lambda>(n, ciphertext).
           act_bind (act_check (1 \<le> policy_version) IntegrityError) (\<lambda>_.
           act_bind (update_count (owns_attempt rid attempt)
             (\<lambda>w. w\<lparr>c_state := Completed, c_output_media_type := Some media_type,
                c_output_nonce := Some n, c_output_ciphertext := Some ciphertext,
                c_producing_deployment_id := Some deployment,
                c_producing_task_policy_version := Some policy_version,
                c_updated_at := timestamp now\<rparr>)) (\<lambda>rowcount.
           act_return (rowcount = 1)))))))"

definition maintain :: "store_config \<Rightarrow> datetime \<Rightarrow> unit transaction" where
  "maintain cfg now = atomically (act_update (cleanup cfg now))"

definition output_of :: "aead \<Rightarrow> request_record \<Rightarrow> pystr result" where
  "output_of cipher record =
    (if r_state record \<noteq> Completed then Inl RequestNotTerminal else decrypt cipher record)"

definition acknowledge ::
    "store_config \<Rightarrow> pystr \<Rightarrow> pystr \<Rightarrow> pystr \<Rightarrow> datetime \<Rightarrow> request_record transaction" where
  "acknowledge cfg rid credential disposition now = atomically (
     act_bind (act_update (cleanup cfg now)) (\<lambda>_.
     act_bind (act_query (select_request rid)) (\<lambda>record.
     case record of
       None \<Rightarrow> act_raise RequestUnknown
     | Some r \<Rightarrow>
         act_bind (act_lift (authorize_existing r credential None)) (\<lambda>_.
         if r_state r = Acknowledged then
           (if r_acknowledgement_disposition r \<noteq> Some disposition
            then act_raise AcknowledgementConflict else act_return r)
         else if r_state r = Expired then act_raise RequestExpired
         else if r_state r \<noteq> Completed then act_raise RequestNotTerminal
         else
           act_bind (act_update (update_where (\<lambda>w. c_request_id w = rid \<and> c_state w = Completed)
             (\<lambda>w. w\<lparr>c_state := Acknowledged, c_acknowledgement_disposition := Some disposition,
                c_output_media_type := None, c_output_nonce := None, c_output_ciphertext := None,
                c_updated_at := timestamp now, c_acknowledged_at := Some (timestamp now)\<rparr>)))
             (\<lambda>_. reselect rid)))))"

definition raw_persisted_values ::
    "pystr \<Rightarrow> request_table \<Rightarrow> (nat list option \<times> nat list option) result" where
  "raw_persisted_values rid t =
    (case find_row rid t of
       None \<Rightarrow> Inl RequestUnknown
     | Some r \<Rightarrow> Inr (c_output_nonce r, c_output_ciphertext r))"

end
