(* ===== verification/Store_Lifecycle.thy ===== *)
theory Store_Lifecycle
  imports Request_Store
begin

text \<open>
  What every sequence of store operations keeps.  A call of the store is replayed as a few
  elementary changes of the table (\<open>table_step\<close>): a clean-up, the insertion of a reserved row,
  or a move of rows along the request lifecycle (\<open>row_move\<close>).  The invariants are proved for
  the elementary changes and carried to calls and to sequences of calls.
\<close>

subsection \<open>Rows\<close>

definition no_output :: "request_row \<Rightarrow> bool" where
  "no_output r = (c_output_media_type r = None \<and> c_output_nonce r = None \<and> c_output_ciphertext r = None)"

definition full_output :: "request_row \<Rightarrow> bool" where
  "full_output r =
    (c_output_media_type r \<noteq> None \<and> c_output_nonce r \<noteq> None \<and> c_output_ciphertext r \<noteq> None \<and>
     c_producing_deployment_id r \<noteq> None \<and>
     (case c_producing_task_policy_version r of None \<Rightarrow> False | Some v \<Rightarrow> 1 \<le> v))"

text \<open>The columns a row fills in each state.\<close>

definition row_ok :: "request_row \<Rightarrow> bool" where
  "row_ok r =
    (strptime_utc (c_expires_at r) \<noteq> None \<and>
     (case c_state r of
        Reserved \<Rightarrow> c_attempt_id r = None \<and> no_output r \<and> c_error_code r = None \<and>
          c_acknowledgement_disposition r = None
      | In_Progress \<Rightarrow> c_attempt_id r \<noteq> None \<and> no_output r \<and> c_error_code r = None \<and>
          c_acknowledgement_disposition r = None
      | Completed \<Rightarrow> c_attempt_id r \<noteq> None \<and> full_output r \<and> c_error_code r = None \<and>
          c_acknowledgement_disposition r = None
      | Failed \<Rightarrow> c_attempt_id r \<noteq> None \<and> no_output r \<and> c_error_code r \<noteq> None \<and>
          c_error_retryable r \<noteq> None \<and> c_acknowledgement_disposition r = None
      | Ambiguous \<Rightarrow> c_attempt_id r \<noteq> None \<and> no_output r \<and> c_error_code r = None \<and>
          c_acknowledgement_disposition r = None
      | Expired \<Rightarrow> no_output r \<and> c_acknowledgement_disposition r = None
      | Acknowledged \<Rightarrow> no_output r \<and> c_acknowledgement_disposition r \<noteq> None \<and>
          c_acknowledged_at r \<noteq> None))"

definition table_ok :: "request_table \<Rightarrow> bool" where
  "table_ok t = (distinct (map c_request_id t) \<and> list_all row_ok t)"

definition within_capacity :: "store_config \<Rightarrow> request_table \<Rightarrow> bool" where
  "within_capacity cfg t =
    (open_count t \<le> max_open_total cfg \<and>
     list_all (\<lambda>r. owner_open_count (c_credential_hash r) t \<le> max_open_per_credential cfg) t)"

text \<open>The moves of one row that the operations make.\<close>

inductive row_move :: "datetime \<Rightarrow> request_row \<Rightarrow> request_row \<Rightarrow> bool" for now where
  expire: "overdue now r \<Longrightarrow> row_move now r (expire_row now r)"
| start: "c_state r = Reserved \<Longrightarrow>
    row_move now r (r\<lparr>c_state := In_Progress, c_attempt_id := Some attempt, c_updated_at := timestamp now\<rparr>)"
| release: "c_state r = In_Progress \<Longrightarrow>
    row_move now r (r\<lparr>c_state := Reserved, c_attempt_id := None, c_updated_at := timestamp now\<rparr>)"
| lose: "c_state r = In_Progress \<Longrightarrow>
    row_move now r (r\<lparr>c_state := Ambiguous, c_updated_at := timestamp now\<rparr>)"
| reject: "c_state r = In_Progress \<Longrightarrow>
    row_move now r (r\<lparr>c_state := Failed, c_error_code := Some code,
      c_error_retryable := Some (if retryable then 1 else 0),
      c_error_retry_after_seconds := retry_after, c_updated_at := timestamp now\<rparr>)"
| finish: "c_state r = In_Progress \<Longrightarrow> 1 \<le> version \<Longrightarrow>
    row_move now r (r\<lparr>c_state := Completed, c_output_media_type := Some media,
      c_output_nonce := Some n, c_output_ciphertext := Some ciphertext,
      c_producing_deployment_id := Some deployment, c_producing_task_policy_version := Some version,
      c_updated_at := timestamp now\<rparr>)"
| acknowledge: "c_state r = Completed \<Longrightarrow>
    row_move now r (r\<lparr>c_state := Acknowledged, c_acknowledgement_disposition := Some disposition,
      c_output_media_type := None, c_output_nonce := None, c_output_ciphertext := None,
      c_updated_at := timestamp now, c_acknowledged_at := Some (timestamp now)\<rparr>)"

inductive_cases row_moveE: "row_move now r r'"

lemma row_move_ok: "row_move now r r' \<Longrightarrow> row_ok r \<Longrightarrow> row_ok r'"
  by (erule row_moveE)
    (auto simp: row_ok_def no_output_def full_output_def expire_row_def overdue_def is_retired_def
      split: request_state.splits)

lemma row_move_identity:
  "row_move now r r' \<Longrightarrow> c_request_id r' = c_request_id r \<and> c_credential_hash r' = c_credential_hash r \<and>
    c_request_digest r' = c_request_digest r \<and> c_expires_at r' = c_expires_at r \<and>
    c_created_at r' = c_created_at r \<and> c_updated_at r' = timestamp now"
  by (erule row_moveE) (auto simp: expire_row_def)

lemma row_move_open: "row_move now r r' \<Longrightarrow> is_open (c_state r') \<Longrightarrow> is_open (c_state r)"
  by (erule row_moveE) (auto simp: is_open_def expire_row_def)

definition advances :: "request_state \<Rightarrow> request_state \<Rightarrow> bool" where
  "advances a b =
    (case a of
       Reserved \<Rightarrow> b = In_Progress \<or> b = Expired
     | In_Progress \<Rightarrow> b \<in> set [Reserved, Completed, Failed, Ambiguous, Expired]
     | Completed \<Rightarrow> b = Acknowledged \<or> b = Expired
     | Failed \<Rightarrow> b = Expired
     | Ambiguous \<Rightarrow> b = Expired
     | Expired \<Rightarrow> False
     | Acknowledged \<Rightarrow> False)"

lemma row_move_advances: "row_move now r r' \<Longrightarrow> advances (c_state r) (c_state r')"
  by (erule row_moveE)
    (auto simp: advances_def expire_row_def overdue_def is_retired_def split: request_state.splits)

subsection \<open>Elementary changes of the table\<close>

inductive table_step :: "store_config \<Rightarrow> datetime \<Rightarrow> request_table \<Rightarrow> request_table \<Rightarrow> bool" for cfg now where
  clean: "table_step cfg now t (cleanup cfg now t)"
| update: "(\<And>r. r \<in> set t \<Longrightarrow> P r \<Longrightarrow> row_move now r (f r)) \<Longrightarrow>
    table_step cfg now t (update_where P f t)"
| insert: "c_request_id row \<notin> set (map c_request_id t) \<Longrightarrow> row = new_row request credential digest now \<Longrightarrow>
    strptime_utc (request_expires_at request) \<noteq> None \<Longrightarrow> \<not> expires_at request \<le> now \<Longrightarrow>
    open_count t < max_open_total cfg \<Longrightarrow>
    owner_open_count credential t < max_open_per_credential cfg \<Longrightarrow>
    table_step cfg now t (t @ [row])"

lemma update_where_ids:
  "(\<And>r. r \<in> set t \<Longrightarrow> P r \<Longrightarrow> c_request_id (f r) = c_request_id r) \<Longrightarrow>
    map c_request_id (update_where P f t) = map c_request_id t"
  by (induction t) (auto simp: update_where_def)

lemma table_ok_update:
  assumes "table_ok t" "\<And>r. r \<in> set t \<Longrightarrow> P r \<Longrightarrow> row_move now r (f r)"
  shows "table_ok (update_where P f t)"
proof -
  have "map c_request_id (update_where P f t) = map c_request_id t"
    using assms(2) row_move_identity by (intro update_where_ids) metis
  moreover have "row_ok (f r)" if "r \<in> set t" "P r" for r
    using assms that row_move_ok [OF assms(2) [OF that]] by (auto simp: table_ok_def list_all_iff)
  ultimately show ?thesis
    using assms(1) by (simp add: table_ok_def) (auto simp: list_all_iff update_where_def)
qed

lemma table_ok_filter: "table_ok t \<Longrightarrow> table_ok (filter P t)"
  by (auto simp: table_ok_def list_all_iff distinct_map_filter)

lemma table_step_ok: "table_step cfg now t t' \<Longrightarrow> table_ok t \<Longrightarrow> table_ok t'"
proof (induction rule: table_step.induct)
  case (clean t)
  show ?case unfolding cleanup_def
    by (intro table_ok_filter table_ok_update [OF clean]) (rule row_move.expire)
next
  case (update t P f)
  then show ?case by (intro table_ok_update) auto
next
  case (insert row t request credential digest)
  then show ?case
    by (auto simp: table_ok_def row_ok_def new_row_def no_output_def)
qed

text \<open>Open rows are only added by an insertion, which checks both limits.\<close>

lemma count_update_le:
  assumes "\<And>r. r \<in> set t \<Longrightarrow> P r \<Longrightarrow> Q (f r) \<Longrightarrow> Q r"
  shows "count_where Q (update_where P f t) \<le> count_where Q t"
  unfolding count_where_def update_where_def
  by (rule length_filter_map_mono) (use assms in \<open>auto split: if_splits\<close>)

lemma count_filter_le: "count_where Q (filter P t) \<le> count_where Q t"
  by (induction t) (auto simp: count_where_def)

lemma count_append: "count_where Q (t @ [r]) = count_where Q t + (if Q r then 1 else 0)"
  by (simp add: count_where_def)

definition capacity_bound :: "store_config \<Rightarrow> request_table \<Rightarrow> bool" where
  "capacity_bound cfg t =
    (open_count t \<le> max_open_total cfg \<and>
     (\<forall>owner. owner_open_count owner t \<le> max_open_per_credential cfg))"

lemma within_capacity_iff: "within_capacity cfg t \<longleftrightarrow> capacity_bound cfg t"
proof -
  have "owner_open_count owner t = 0" if "owner \<notin> c_credential_hash ` set t" for owner
    using that by (auto simp: owner_open_count_def count_where_def filter_empty_conv)
  then show ?thesis
    by (auto simp: within_capacity_def capacity_bound_def list_all_iff)
      (metis image_iff le0)
qed

lemma update_open_le:
  assumes "\<And>r. r \<in> set t \<Longrightarrow> P r \<Longrightarrow> row_move now r (f r)"
  shows "open_count (update_where P f t) \<le> open_count t"
    and "owner_open_count owner (update_where P f t) \<le> owner_open_count owner t"
  unfolding open_count_def owner_open_count_def
  using assms row_move_open row_move_identity by (auto intro!: count_update_le) metis+

lemma table_step_capacity:
  "table_step cfg now t t' \<Longrightarrow> capacity_bound cfg t \<Longrightarrow> capacity_bound cfg t'"
proof (induction rule: table_step.induct)
  case (clean t)
  let ?u = "update_where (overdue now) (expire_row now) t"
  have "open_count (cleanup cfg now t) \<le> open_count ?u" "owner_open_count owner (cleanup cfg now t) \<le> owner_open_count owner ?u" for owner
    by (simp_all add: cleanup_def open_count_def owner_open_count_def count_filter_le)
  moreover have "open_count ?u \<le> open_count t" "owner_open_count owner ?u \<le> owner_open_count owner t" for owner
    by (rule update_open_le, erule row_move.expire)+
  ultimately show ?case using clean unfolding capacity_bound_def by (meson le_trans)
next
  case (update t P f)
  then show ?case using update_open_le [of t P now f] unfolding capacity_bound_def by (meson le_trans)
next
  case (insert row t request credential digest)
  then show ?case
    by (auto simp: capacity_bound_def open_count_def owner_open_count_def count_append new_row_def)
qed

subsection \<open>Calls are sequences of elementary changes\<close>

text \<open>\<open>Call_Recover\<close> is the part of \<open>initialize\<close> that touches an existing table.\<close>

definition recover :: "store_config \<Rightarrow> datetime \<Rightarrow> request_table \<Rightarrow> request_table" where
  "recover cfg now t = cleanup cfg now (update_where (\<lambda>r. c_state r = In_Progress)
     (\<lambda>r. r\<lparr>c_state := Ambiguous, c_updated_at := timestamp now\<rparr>) t)"

datatype store_call =
    Call_Recover
  | Call_Admit inference_request pystr pystr
  | Call_Get_Owned pystr pystr "pystr option"
  | Call_Mark_In_Progress pystr pystr
  | Call_Reset_Reserved pystr pystr
  | Call_Mark_Ambiguous pystr pystr
  | Call_Mark_Failed pystr pystr pystr bool "int option"
  | Call_Complete "nat list" pystr pystr pystr pystr pystr int
  | Call_Maintain
  | Call_Acknowledge pystr pystr pystr

fun run_call :: "store_config \<Rightarrow> aead \<Rightarrow> datetime \<Rightarrow> store_call \<Rightarrow> request_table \<Rightarrow> request_table" where
  "run_call cfg cipher now Call_Recover t = recover cfg now t"
| "run_call cfg cipher now (Call_Admit request owner digest) t = snd (admit cfg request owner digest now t)"
| "run_call cfg cipher now (Call_Get_Owned rid owner digest) t = snd (get_owned cfg rid owner digest now t)"
| "run_call cfg cipher now (Call_Mark_In_Progress rid attempt) t = snd (mark_in_progress cfg rid attempt now t)"
| "run_call cfg cipher now (Call_Reset_Reserved rid attempt) t = snd (reset_reserved rid attempt now t)"
| "run_call cfg cipher now (Call_Mark_Ambiguous rid attempt) t = snd (mark_ambiguous rid attempt now t)"
| "run_call cfg cipher now (Call_Mark_Failed rid attempt code retryable after) t =
    snd (mark_failed rid attempt code retryable after now t)"
| "run_call cfg cipher now (Call_Complete nonce rid attempt media content deployment version) t =
    snd (complete cfg cipher nonce rid attempt media content deployment version now t)"
| "run_call cfg cipher now Call_Maintain t = snd (maintain cfg now t)"
| "run_call cfg cipher now (Call_Acknowledge rid owner disposition) t =
    snd (acknowledge cfg rid owner disposition now t)"

text \<open>An admitted request has passed validation.\<close>

fun call_ok :: "store_call \<Rightarrow> bool" where
  "call_ok (Call_Admit request owner digest) = (strptime_utc (request_expires_at request) \<noteq> None)"
| "call_ok _ = True"

abbreviation table_steps :: "store_config \<Rightarrow> datetime \<Rightarrow> request_table \<Rightarrow> request_table \<Rightarrow> bool" where
  "table_steps cfg now \<equiv> (table_step cfg now)\<^sup>*\<^sup>*"

lemmas transaction_simps = atomically_snd act_bind_def act_return_def act_raise_def act_lift_def act_query_def
  act_update_def act_check_def update_count_def insert_row_def reselect_def

lemma clean_then:
  "table_step cfg now (cleanup cfg now t) u \<Longrightarrow> table_steps cfg now t u"
  by (meson converse_rtranclp_into_rtranclp r_into_rtranclp table_step.clean)

lemma clean_steps: "table_steps cfg now t (cleanup cfg now t)"
  by (simp add: r_into_rtranclp table_step.clean)

lemma select_None_fresh: "select_request rid t = Inr None \<Longrightarrow> rid \<notin> set (map c_request_id t)"
  by (cases "find_row rid t"; cases "record_of_row (the (find_row rid t))")
    (auto simp: select_request_def find_row_def find_None_iff)

lemma run_call_steps:
  assumes "call_ok call"
  shows "table_steps cfg now t (run_call cfg cipher now call t)"
proof (cases call)
  case Call_Recover
  have "table_step cfg now t (update_where (\<lambda>r. c_state r = In_Progress)
      (\<lambda>r. r\<lparr>c_state := Ambiguous, c_updated_at := timestamp now\<rparr>) t)"
    by (intro table_step.update row_move.lose)
  then show ?thesis
    using Call_Recover by (simp add: recover_def) (meson table_step.clean converse_rtranclp_into_rtranclp r_into_rtranclp)
next
  case (Call_Admit request owner digest)
  let ?u = "cleanup cfg now t" and ?row = "new_row request owner digest now"
  have id: "c_request_id ?row = request_id request" by (simp add: new_row_def)
  have "snd (admit cfg request owner digest now t) \<in> {t, ?u} \<or>
    (snd (admit cfg request owner digest now t) = ?u @ [?row] \<and> table_step cfg now ?u (?u @ [?row]))"
    using assms Call_Admit id
    by (auto simp: admit_def transaction_simps not_le split: sum.splits option.splits prod.splits if_splits
        intro!: table_step.insert dest: select_None_fresh)
  then show ?thesis using Call_Admit clean_steps clean_then by auto
next
  case (Call_Get_Owned rid owner digest)
  have "snd (get_owned cfg rid owner digest now t) \<in> {t, cleanup cfg now t}"
    by (auto simp: get_owned_def transaction_simps split: sum.splits option.splits prod.splits)
  then show ?thesis using Call_Get_Owned clean_steps by auto
next
  case (Call_Mark_In_Progress rid attempt)
  let ?u = "cleanup cfg now t"
  let ?v = "update_where (\<lambda>r. c_request_id r = rid \<and> c_state r = Reserved)
    (\<lambda>r. r\<lparr>c_state := In_Progress, c_attempt_id := Some attempt, c_updated_at := timestamp now\<rparr>) ?u"
  have "snd (mark_in_progress cfg rid attempt now t) \<in> {t, ?v}"
    by (auto simp: mark_in_progress_def transaction_simps split: sum.splits option.splits prod.splits if_splits)
  moreover have "table_step cfg now ?u ?v" by (intro table_step.update row_move.start) simp
  ultimately show ?thesis using Call_Mark_In_Progress clean_then by auto
next
  case (Call_Reset_Reserved rid attempt)
  then show ?thesis
    by (auto simp: reset_reserved_def transaction_simps owns_attempt_def
        intro!: r_into_rtranclp table_step.update row_move.release)
next
  case (Call_Mark_Ambiguous rid attempt)
  then show ?thesis
    by (auto simp: mark_ambiguous_def transaction_simps owns_attempt_def
        intro!: r_into_rtranclp table_step.update row_move.lose)
next
  case (Call_Mark_Failed rid attempt code retryable after)
  have "table_step cfg now t (update_where (owns_attempt rid attempt)
       (\<lambda>r. r\<lparr>c_state := Failed, c_error_code := Some code,
          c_error_retryable := Some (if retryable then 1 else 0),
          c_error_retry_after_seconds := after, c_updated_at := timestamp now\<rparr>) t)"
    by (intro table_step.update row_move.reject) (simp add: owns_attempt_def)
  then show ?thesis
    using Call_Mark_Failed by (simp add: mark_failed_def transaction_simps r_into_rtranclp)
next
  case (Call_Complete nonce rid attempt media content deployment version)
  let ?u = "cleanup cfg now t"
  let ?v = "\<lambda>n ct. update_where (owns_attempt rid attempt)
             (\<lambda>w. w\<lparr>c_state := Completed, c_output_media_type := Some media,
                c_output_nonce := Some n, c_output_ciphertext := Some ct,
                c_producing_deployment_id := Some deployment,
                c_producing_task_policy_version := Some version,
                c_updated_at := timestamp now\<rparr>) ?u"
  have "snd (complete cfg cipher nonce rid attempt media content deployment version now t) \<in> {t, ?u} \<or>
    (\<exists>n ct. 1 \<le> version \<and> snd (complete cfg cipher nonce rid attempt media content deployment version now t) = ?v n ct)"
    by (auto simp: complete_def transaction_simps split: sum.splits option.splits prod.splits if_splits)
  moreover have "table_step cfg now ?u (?v n ct)" if "1 \<le> version" for n ct
    using that by (intro table_step.update row_move.finish) (simp_all add: owns_attempt_def)
  ultimately show ?thesis using Call_Complete clean_then clean_steps by auto
next
  case Call_Maintain
  then show ?thesis using clean_steps by (simp add: maintain_def transaction_simps)
next
  case (Call_Acknowledge rid owner disposition)
  let ?u = "cleanup cfg now t"
  let ?v = "update_where (\<lambda>w. c_request_id w = rid \<and> c_state w = Completed)
             (\<lambda>w. w\<lparr>c_state := Acknowledged, c_acknowledgement_disposition := Some disposition,
                c_output_media_type := None, c_output_nonce := None, c_output_ciphertext := None,
                c_updated_at := timestamp now, c_acknowledged_at := Some (timestamp now)\<rparr>) ?u"
  have "snd (acknowledge cfg rid owner disposition now t) \<in> {t, ?u, ?v}"
    by (auto simp: acknowledge_def transaction_simps split: sum.splits option.splits prod.splits if_splits)
  moreover have "table_step cfg now ?u ?v" by (intro table_step.update row_move.acknowledge) simp
  ultimately show ?thesis using Call_Acknowledge clean_then clean_steps by auto
qed

lemma run_call_ok:
  assumes "call_ok call" "table_ok t"
  shows "table_ok (run_call cfg cipher now call t)"
  using run_call_steps [OF assms(1), of cfg now t cipher] assms(2)
  by (induction rule: rtranclp_induct) (auto intro: table_step_ok)

lemma run_call_capacity:
  assumes "call_ok call" "within_capacity cfg t"
  shows "within_capacity cfg (run_call cfg cipher now call t)"
  using run_call_steps [OF assms(1), of cfg now t cipher] assms(2)
  unfolding within_capacity_iff
  by (induction rule: rtranclp_induct) (auto intro: table_step_capacity)

text \<open>A run of the store: each call with the clock value it read.\<close>

definition run_calls :: "store_config \<Rightarrow> aead \<Rightarrow> (datetime \<times> store_call) list \<Rightarrow> request_table \<Rightarrow> request_table" where
  "run_calls cfg cipher calls t = fold (\<lambda>(now, call). run_call cfg cipher now call) calls t"

lemma run_calls_invariants:
  "list_all (\<lambda>(now, call). call_ok call) calls \<Longrightarrow> table_ok t \<Longrightarrow> within_capacity cfg t \<Longrightarrow>
    table_ok (run_calls cfg cipher calls t) \<and> within_capacity cfg (run_calls cfg cipher calls t)"
  by (induction calls arbitrary: t) (auto simp: run_calls_def run_call_ok run_call_capacity)


subsection \<open>The request lifecycle\<close>

definition status :: "request_table \<Rightarrow> pystr \<Rightarrow> request_state option" where
  "status t rid = map_option c_state (find_row rid t)"

text \<open>
  How the status of a request id may change: it appears as reserved, it advances, and it is
  forgotten only once it has been acknowledged or has expired.
\<close>

definition lifecycle_step :: "request_state option \<Rightarrow> request_state option \<Rightarrow> bool" where
  "lifecycle_step a b =
    (a = b \<or>
     (case a of
        None \<Rightarrow> b = Some Reserved
      | Some s \<Rightarrow> (case b of None \<Rightarrow> is_retired s | Some s' \<Rightarrow> advances s s')))"

text \<open>The clock shows years of four digits, also at the cut-off of the retention.\<close>

definition clock_ok :: "store_config \<Rightarrow> datetime \<Rightarrow> bool" where
  "clock_ok cfg now =
    (clock_range now \<and> clock_range (retention_cutoff cfg now) \<and> 0 \<le> tombstone_retention_seconds cfg)"

lemma find_row_update:
  assumes "\<And>r. r \<in> set t \<Longrightarrow> P r \<Longrightarrow> c_request_id (f r) = c_request_id r"
  shows "find_row rid (update_where P f t) = map_option (\<lambda>r. if P r then f r else r) (find_row rid t)"
  using assms by (induction t) (auto simp: find_row_def update_where_def)

lemma expired_not_stale: "clock_ok cfg now \<Longrightarrow> \<not> stale cfg now (expire_row now r)"
proof -
  assume ok: "clock_ok cfg now"
  have "dt_secs (retention_cutoff cfg now) \<le> dt_secs now"
    using ok by (simp add: clock_ok_def dt_secs_def retention_cutoff_def zdiv_mono1)
  then show ?thesis
    using ok timestamp_less [of now "retention_cutoff cfg now"]
    by (simp add: stale_def expire_row_def clock_ok_def)
qed

lemma find_row_cleanup:
  assumes "distinct (map c_request_id t)" "clock_ok cfg now"
  shows "find_row rid (cleanup cfg now t) =
    (case find_row rid t of
       None \<Rightarrow> None
     | Some r \<Rightarrow> if overdue now r then Some (expire_row now r)
         else if stale cfg now r then None else Some r)"
proof -
  let ?u = "update_where (overdue now) (expire_row now) t"
  have ids: "c_request_id (expire_row now r) = c_request_id r" for r by (simp add: expire_row_def)
  have "distinct (map c_request_id ?u)" using assms(1) by (simp add: update_where_ids ids)
  from find_filter_key [OF this, of rid "\<lambda>r. \<not> stale cfg now r"]
  have "find_row rid (cleanup cfg now t) =
      (case find_row rid ?u of None \<Rightarrow> None | Some y \<Rightarrow> if \<not> stale cfg now y then Some y else None)"
    by (simp add: cleanup_def find_row_def)
  also have "find_row rid ?u = map_option (\<lambda>r. if overdue now r then expire_row now r else r) (find_row rid t)"
    by (simp add: find_row_update ids)
  finally show ?thesis using expired_not_stale [OF assms(2)] by (auto split: option.split)
qed

lemma table_step_lifecycle:
  assumes "table_step cfg now t t'" "distinct (map c_request_id t)" "clock_ok cfg now"
  shows "lifecycle_step (status t rid) (status t' rid)"
  using assms
proof (induction rule: table_step.induct)
  case (clean t)
  have "overdue now r \<Longrightarrow> advances (c_state r) Expired" for r
    by (cases "c_state r") (auto simp: overdue_def is_retired_def advances_def)
  then show ?case
    using find_row_cleanup [OF clean(1,2), of rid]
    by (auto simp: status_def lifecycle_step_def expire_row_def stale_def split: option.split)
next
  case (update t P f)
  then have ids: "c_request_id (f r) = c_request_id r" if "r \<in> set t" "P r" for r
    using that row_move_identity by blast
  have "find_row rid (update_where P f t) = map_option (\<lambda>r. if P r then f r else r) (find_row rid t)"
    using ids by (intro find_row_update)
  moreover have "r \<in> set t \<Longrightarrow> P r \<Longrightarrow> advances (c_state r) (c_state (f r))" for r
    using update(1) row_move_advances by blast
  moreover have "find_row rid t = Some r \<Longrightarrow> r \<in> set t" for r by (auto simp: find_row_def dest: find_Some_in)
  ultimately show ?case by (auto simp: status_def lifecycle_step_def split: option.split)
next
  case (insert row t request credential digest)
  have "find_row rid (t @ [row]) = (case find_row rid t of Some r \<Rightarrow> Some r
      | None \<Rightarrow> if c_request_id row = rid then Some row else None)"
    by (induction t) (auto simp: find_row_def)
  then show ?case
    using insert by (auto simp: status_def lifecycle_step_def new_row_def split: option.splits)
qed


text \<open>
  The contract of the durable ledger: a step relation whose steps keep a well-formedness
  predicate and move the status of every id along the lifecycle.
\<close>

locale request_ledger =
  fixes step :: "'s \<Rightarrow> 's \<Rightarrow> bool"
    and status_of :: "'s \<Rightarrow> pystr \<Rightarrow> request_state option"
    and good :: "'s \<Rightarrow> bool"
  assumes step_good: "good s \<Longrightarrow> step s s' \<Longrightarrow> good s'"
    and step_status: "good s \<Longrightarrow> step s s' \<Longrightarrow> lifecycle_step (status_of s k) (status_of s' k)"
begin

lemma steps_good: "step\<^sup>*\<^sup>* s s' \<Longrightarrow> good s \<Longrightarrow> good s'"
  by (induction rule: rtranclp_induct) (auto intro: step_good)

lemma new_is_reserved:
  "good s \<Longrightarrow> step s s' \<Longrightarrow> status_of s k = None \<Longrightarrow> status_of s' k = Some b \<Longrightarrow> b = Reserved"
  using step_status [of s s' k] by (auto simp: lifecycle_step_def)

lemma dispatched_from_reserved:
  "good s \<Longrightarrow> step s s' \<Longrightarrow> status_of s' k = Some In_Progress \<Longrightarrow>
    status_of s k = Some Reserved \<or> status_of s k = Some In_Progress"
  using step_status [of s s' k]
  by (auto simp: lifecycle_step_def advances_def split: option.splits request_state.splits)

lemma forgotten_only_retired:
  "good s \<Longrightarrow> step s s' \<Longrightarrow> status_of s k = Some a \<Longrightarrow> status_of s' k = None \<Longrightarrow> is_retired a"
  using step_status [of s s' k] by (auto simp: lifecycle_step_def)

text \<open>A settled id is settled for good, or retired, as long as it is not forgotten.\<close>

definition retains :: "pystr \<Rightarrow> 's \<Rightarrow> 's \<Rightarrow> bool" where
  "retains k s s' = (step s s' \<and> status_of s' k \<noteq> None)"

lemma settled_stays:
  assumes "(retains k)\<^sup>*\<^sup>* s s'" "good s" "status_of s k = Some a" "a \<notin> {Reserved, In_Progress}"
  shows "\<exists>b. status_of s' k = Some b \<and> b \<notin> {Reserved, In_Progress} \<and> (is_retired a \<longrightarrow> b = a)"
  using assms
proof (induction rule: rtranclp_induct)
  case base
  then show ?case by blast
next
  case (step u v)
  then obtain b where b: "status_of u k = Some b" "b \<notin> {Reserved, In_Progress}" "is_retired a \<longrightarrow> b = a" by blast
  have "(step)\<^sup>*\<^sup>* s u" using step.hyps(1) by (induction rule: rtranclp_induct) (auto simp: retains_def)
  then have "good u" using steps_good step.prems by blast
  moreover have "step u v" "status_of v k \<noteq> None" using step.hyps(2) by (auto simp: retains_def)
  ultimately have "lifecycle_step (Some b) (status_of v k)" using step_status b(1) by metis
  then show ?case using b \<open>status_of v k \<noteq> None\<close>
    by (cases b) (auto simp: lifecycle_step_def advances_def is_retired_def)
qed

end

definition clocked_step :: "store_config \<Rightarrow> request_table \<Rightarrow> request_table \<Rightarrow> bool" where
  "clocked_step cfg t t' = (\<exists>now. clock_ok cfg now \<and> table_step cfg now t t')"

interpretation ledger: request_ledger "clocked_step cfg" status table_ok for cfg
proof
  fix s s' k
  assume good: "table_ok s" and step: "clocked_step cfg s s'"
  then show "table_ok s'" by (auto simp: clocked_step_def intro: table_step_ok)
  show "lifecycle_step (status s k) (status s' k)"
    using good step by (auto simp: clocked_step_def table_ok_def intro: table_step_lifecycle)
qed

lemma run_call_clocked:
  "call_ok call \<Longrightarrow> clock_ok cfg now \<Longrightarrow> (clocked_step cfg)\<^sup>*\<^sup>* t (run_call cfg cipher now call t)"
proof -
  assume "call_ok call" and clock: "clock_ok cfg now"
  then have "table_steps cfg now t (run_call cfg cipher now call t)" by (intro run_call_steps)
  then show ?thesis
    by (rule mono_rtranclp [rule_format, rotated]) (use clock in \<open>auto simp: clocked_step_def\<close>)
qed

end
