(* ===== verification/Service_Core.thy ===== *)
theory Service_Core
  imports Gateway_Program Gateway_Config Store_Lifecycle
begin

text \<open>
  app.py: the gateway service.  A call of \<open>infer\<close> is a program that several threads run at the
  same time; they share the request table, changed by the transactions of the store, and the
  lane, the one slot for a running worker call, guarded by a lock.
\<close>

subsection \<open>Failures\<close>

definition failing :: "string \<Rightarrow> bool \<Rightarrow> int \<Rightarrow> exn" where
  "failing code again http = GatewayFailure
     \<lparr>failure_code = py code, failure_retryable = again, failure_status = http, failure_retry_after = None\<rparr>"

definition failing_after :: "string \<Rightarrow> int \<Rightarrow> int \<Rightarrow> exn" where
  "failing_after code http seconds = GatewayFailure
     \<lparr>failure_code = py code, failure_retryable = True, failure_status = http, failure_retry_after = Some seconds\<rparr>"

fun is_gateway_failure :: "exn \<Rightarrow> bool" where
  "is_gateway_failure (GatewayFailure _) = True"
| "is_gateway_failure _ = False"

subsection \<open>Task policies\<close>

definition TASK_POLICY_VERSION :: int where "TASK_POLICY_VERSION = 2"

record task_policy =
  policy_temperature :: decimal
  policy_max_output_tokens :: int
  allow_root_object_choice :: bool
  allow_passage_definitions :: bool

definition TASK_POLICIES :: "((pystr \<times> int) \<times> task_policy) list" where
  "TASK_POLICIES =
    [((py ''document.summary.step'', 1), \<lparr>policy_temperature = Dec False 0 0,
        policy_max_output_tokens = DOCUMENT_MAX_OUTPUT_TOKENS,
        allow_root_object_choice = True, allow_passage_definitions = False\<rparr>),
     (DOCUMENT_TASK_V2, \<lparr>policy_temperature = Dec False 0 0,
        policy_max_output_tokens = DOCUMENT_MAX_OUTPUT_TOKENS,
        allow_root_object_choice = True, allow_passage_definitions = True\<rparr>),
     ((py ''email.analyze'', 1), \<lparr>policy_temperature = Dec False 1 (-1),
        policy_max_output_tokens = 1500,
        allow_root_object_choice = False, allow_passage_definitions = False\<rparr>),
     ((py ''email.schedule.extract'', 1), \<lparr>policy_temperature = Dec False 1 (-1),
        policy_max_output_tokens = 1500,
        allow_root_object_choice = False, allow_passage_definitions = False\<rparr>),
     ((py ''invoice.extract.batch'', 1), \<lparr>policy_temperature = Dec False 0 0,
        policy_max_output_tokens = 12288,
        allow_root_object_choice = False, allow_passage_definitions = False\<rparr>)]"

definition task_of :: "inference_request \<Rightarrow> pystr \<times> int" where
  "task_of request = (task_id (task request), task_version (task request))"

subsection \<open>Shared state\<close>

record active_attempt =
  identity :: nat
  attempt_request :: pystr

text \<open>
  \<open>_ActiveAttempt\<close> objects are compared by identity, here a number, and \<open>finished\<close> holds the
  numbers whose event is set.
\<close>

record gateway =
  requests :: request_table
  lane :: "active_attempt option"
  next_identity :: nat
  finished_attempts :: "nat set"

record worker_result =
  media_type :: pystr
  content :: pystr

text \<open>What a thread asks its environment, and what it is told.\<close>

datatype service_question =
    Read_Clock
  | Draw_Uuid
  | Draw_Nonce
  | Begin_Transaction
  | Wait_For active_attempt rat
  | Call_Worker inference_request rat
  | Probe_Worker "pystr \<times> int"

datatype service_reply =
    Time (the_time: datetime)
  | Uuid (the_uuid: pystr)
  | Nonce (the_nonce: "nat list")
  | Begun (has_begun: bool)
  | Waited (has_finished: bool)
  | Answer (the_answer: "worker_result result")
  | Probed (the_probe: "bool result")

type_synonym 'a service_program = "(gateway, service_question, service_reply, 'a) program"

definition read_clock :: "datetime service_program" where
  "read_clock = Ask Read_Clock (\<lambda>r. give (the_time r))"

text \<open>
  A transaction of the store.  SQLite may refuse it, for a locked database or a full disk; the
  \<open>with\<close> block then raises and nothing has changed.
\<close>

definition transact :: "'a transaction \<Rightarrow> 'a service_program" where
  "transact act = Ask Begin_Transaction (\<lambda>r.
     if has_begun r
     then Change (\<lambda>g. g\<lparr>requests := snd (act (requests g))\<rparr>) (\<lambda>g. Finish (fst (act (requests g))))
     else throw OperationalError)"

record service =
  the_settings :: settings
  the_store :: store_config
  the_cipher :: aead
  sha256_hex :: "nat list \<Rightarrow> pystr"

abbreviation retry_after :: "service \<Rightarrow> int" where
  "retry_after srv \<equiv> retry_after_seconds (the_settings srv)"

subsection \<open>Policy\<close>

definition maximum_expiry :: "int \<Rightarrow> datetime \<Rightarrow> datetime" where
  "maximum_expiry lifetime_seconds now =
    (let m = now + lifetime_seconds * 1000000
     in if m mod 1000000 \<noteq> 0 then m - m mod 1000000 + 1000000 else m)"

definition validate_policy ::
    "service \<Rightarrow> credential \<Rightarrow> inference_request \<Rightarrow> datetime \<Rightarrow> unit result" where
  "validate_policy srv credential request now =
    (let policy = map_of TASK_POLICIES (task_of request);
         schema = response_schema (generation request)
     in if task_of request \<notin> tasks credential then Inl (failing ''forbidden'' False 403)
     else (case policy of
       None \<Rightarrow> Inl (failing ''unsupported_task'' False 422)
     | Some policy \<Rightarrow>
         if expires_at request \<le> now then Inl (failing ''request_expired'' False 409)
         else if maximum_expiry (request_max_lifetime_seconds (the_settings srv)) now < expires_at request
         then Inl (failing ''invalid_request'' False 422)
         else if dec_value (temperature (generation request)) \<noteq> dec_value (policy_temperature policy)
         then Inl (failing ''unsupported_task'' False 422)
         else if policy_max_output_tokens policy < max_output_tokens (requirements request)
         then Inl (failing ''unsupported_task'' False 422)
         else if uses_passage_definitions schema \<and> \<not> allow_passage_definitions policy
         then Inl (failing ''unsupported_task'' False 422)
         else if is_bounded_root_object_choice schema \<and> \<not> allow_root_object_choice policy
         then Inl (failing ''unsupported_task'' False 422)
         else Inr ()))"

subsection \<open>Responses\<close>

definition text_or_null :: "pystr option \<Rightarrow> json" where
  "text_or_null v = (case v of None \<Rightarrow> JNull | Some s \<Rightarrow> JStr s)"

definition completed_response :: "request_record \<Rightarrow> pystr \<Rightarrow> int \<Rightarrow> pystr \<Rightarrow> json" where
  "completed_response record deployment version output = JObj
    [(py ''protocol_version'', JInt PROTOCOL_VERSION),
     (py ''request_id'', JStr (r_request_id record)),
     (py ''status'', JStr (py ''completed'')),
     (py ''output'', JObj
       [(py ''media_type'', text_or_null (r_output_media_type record)), (py ''content'', JStr output)]),
     (py ''provenance'', JObj
       [(py ''task_policy_version'', JInt version), (py ''deployment_id'', JStr deployment)])]"

definition existing_response :: "service \<Rightarrow> request_record \<Rightarrow> json option result" where
  "existing_response srv record =
    (case r_state record of
       Completed \<Rightarrow>
         (case (r_producing_deployment_id record, r_producing_task_policy_version record) of
            (Some deployment, Some version) \<Rightarrow>
              (case output_of (the_cipher srv) record of
                 Inl e \<Rightarrow> Inl (if is_store_error e then failing ''invalid_worker_output'' False 500 else e)
               | Inr output \<Rightarrow> Inr (Some (completed_response record deployment version output)))
          | _ \<Rightarrow> Inl (failing ''invalid_worker_output'' False 500))
     | Failed \<Rightarrow> Inl (GatewayFailure
         \<lparr>failure_code = (case r_error_code record of None \<Rightarrow> py ''invalid_worker_output''
            | Some c \<Rightarrow> if c = [] then py ''invalid_worker_output'' else c),
          failure_retryable = (r_error_retryable record = Some True), failure_status = 502,
          failure_retry_after = r_error_retry_after_seconds record\<rparr>)
     | Expired \<Rightarrow> Inl (failing ''request_expired'' False 409)
     | Acknowledged \<Rightarrow> Inl (failing ''unknown_request'' False 410)
     | _ \<Rightarrow> Inr None)"

subsection \<open>The lane\<close>

definition claim_lane :: "pystr \<Rightarrow> (active_attempt \<times> bool) service_program" where
  "claim_lane rid = Change
     (\<lambda>g. case lane g of
        None \<Rightarrow> g\<lparr>lane := Some \<lparr>identity = next_identity g, attempt_request = rid\<rparr>,
          next_identity := Suc (next_identity g)\<rparr>
      | Some active \<Rightarrow> g)
     (\<lambda>g. case lane g of
        None \<Rightarrow> give (\<lparr>identity = next_identity g, attempt_request = rid\<rparr>, True)
      | Some active \<Rightarrow> give (active, False))"

definition release_lane :: "active_attempt \<Rightarrow> unit service_program" where
  "release_lane active = Change
     (\<lambda>g. g\<lparr>finished_attempts := insert (identity active) (finished_attempts g),
        lane := (if map_option identity (lane g) = Some (identity active) then None else lane g)\<rparr>)
     (\<lambda>g. give ())"

definition read_lane :: "active_attempt option service_program" where
  "read_lane = Change id (\<lambda>g. give (lane g))"

subsection \<open>Waiting for the attempt of another thread\<close>

definition seconds_between :: "datetime \<Rightarrow> datetime \<Rightarrow> rat" where
  "seconds_between later earlier = rat_of_int (later - earlier) / 1000000"

definition reload_after_attempt :: "service \<Rightarrow> pystr \<Rightarrow> credential \<Rightarrow> pystr \<Rightarrow> json service_program" where
  "reload_after_attempt srv rid credential digest =
    bind_p read_clock (\<lambda>now.
    bind_p (transact (get_owned (the_store srv) rid (identity_hash credential) (Some digest) now)) (\<lambda>record.
    bind_p (Finish (existing_response srv record)) (\<lambda>response.
    case response of
      Some body \<Rightarrow> give body
    | None \<Rightarrow>
        if r_state record = Reserved then throw (failing_after ''worker_unavailable'' 503 (retry_after srv))
        else throw (failing_after ''inference_timeout'' 504 (retry_after srv)))))"

definition wait_and_reload ::
    "service \<Rightarrow> active_attempt \<Rightarrow> credential \<Rightarrow> pystr \<Rightarrow> datetime \<Rightarrow> json service_program" where
  "wait_and_reload srv active credential digest expiry =
    bind_p read_clock (\<lambda>now.
    Ask (Wait_For active
        (min (worker_timeout_seconds (the_settings srv) + 1) (max (1 / 1000) (seconds_between expiry now))))
      (\<lambda>r.
       if \<not> has_finished r then throw (failing_after ''inference_timeout'' 504 (retry_after srv))
       else reload_after_attempt srv (attempt_request active) credential digest))"

definition join_active :: "service \<Rightarrow> request_record \<Rightarrow> credential \<Rightarrow> pystr \<Rightarrow> json service_program" where
  "join_active srv record credential digest =
    bind_p read_lane (\<lambda>active.
    case active of
      None \<Rightarrow> reload_after_attempt srv (r_request_id record) credential digest
    | Some a \<Rightarrow>
        if attempt_request a \<noteq> r_request_id record
        then reload_after_attempt srv (r_request_id record) credential digest
        else wait_and_reload srv a credential digest (r_expires_at record))"

subsection \<open>Inference\<close>

text \<open>The store's refusals, as the handler of \<open>admit\<close> names them.\<close>

definition admission_failure :: "service \<Rightarrow> exn \<Rightarrow> exn" where
  "admission_failure srv e =
    (case e of
       RequestCapacityLimited \<Rightarrow> failing_after ''capacity_limited'' 429 (retry_after srv)
     | RequestExpired \<Rightarrow> failing ''request_expired'' False 409
     | RequestForbidden \<Rightarrow> failing ''forbidden'' False 403
     | RequestIdentityConflict \<Rightarrow> failing ''invalid_request'' False 409
     | _ \<Rightarrow> e)"

text \<open>
  The handlers around the call of the worker: an attempt the worker never admitted is returned
  to the reserved state, an answer that breaks the contract fails it, and any other exception
  leaves it ambiguous.
\<close>

definition worker_exception :: "service \<Rightarrow> pystr \<Rightarrow> pystr \<Rightarrow> exn \<Rightarrow> worker_result service_program" where
  "worker_exception srv rid attempt e =
    (case e of
       WorkerUnavailable _ \<Rightarrow>
         bind_p read_clock (\<lambda>now.
         bind_p (transact (reset_reserved rid attempt now)) (\<lambda>_.
         throw (failing_after ''worker_unavailable'' 503 (retry_after srv))))
     | InvalidWorkerOutput _ \<Rightarrow>
         bind_p read_clock (\<lambda>now.
         bind_p (transact (mark_failed rid attempt (py ''invalid_worker_output'') False None now)) (\<lambda>_.
         throw (failing ''invalid_worker_output'' False 502)))
     | _ \<Rightarrow>
         bind_p read_clock (\<lambda>now.
         bind_p (transact (mark_ambiguous rid attempt now)) (\<lambda>_.
         throw (failing_after ''inference_timeout'' 504 (retry_after srv)))))"

definition call_worker ::
    "service \<Rightarrow> inference_request \<Rightarrow> pystr \<Rightarrow> pystr \<Rightarrow> rat \<Rightarrow> worker_result service_program" where
  "call_worker srv request rid attempt timeout =
    try_except (Ask (Call_Worker request timeout) (\<lambda>r. Finish (the_answer r))) (worker_exception srv rid attempt)"

definition finish_attempt ::
    "service \<Rightarrow> credential \<Rightarrow> pystr \<Rightarrow> pystr \<Rightarrow> pystr \<Rightarrow> worker_result \<Rightarrow> json service_program" where
  "finish_attempt srv credential digest rid attempt result =
    bind_p read_clock (\<lambda>now.
    Ask Draw_Nonce (\<lambda>n.
    bind_p (transact (complete (the_store srv) (the_cipher srv) (the_nonce n) rid attempt
      (media_type result) (content result) (deployment_id (the_settings srv)) TASK_POLICY_VERSION now)) (\<lambda>done.
    if \<not> done then throw (failing ''request_expired'' False 409)
    else
      bind_p read_clock (\<lambda>now.
      bind_p (transact (get_owned (the_store srv) rid (identity_hash credential) (Some digest) now)) (\<lambda>completed.
      bind_p (Finish (existing_response srv completed)) (\<lambda>response.
      case response of
        None \<Rightarrow> throw (failing ''invalid_worker_output'' False 500)
      | Some body \<Rightarrow> give body))))))"

text \<open>An expired request is looked up once, so that the store records the expiry.\<close>

definition refuse_expired ::
    "service \<Rightarrow> credential \<Rightarrow> inference_request \<Rightarrow> pystr \<Rightarrow> pystr \<Rightarrow> datetime \<Rightarrow> unit service_program" where
  "refuse_expired srv credential request digest rid now =
    (if expires_at request \<le> now
     then bind_p (transact (get_owned (the_store srv) rid (identity_hash credential) (Some digest) now)) (\<lambda>_.
       throw (failing ''request_expired'' False 409))
     else give ())"

definition attempt_body ::
    "service \<Rightarrow> credential \<Rightarrow> inference_request \<Rightarrow> pystr \<Rightarrow> pystr \<Rightarrow> pystr \<Rightarrow> json service_program" where
  "attempt_body srv credential request digest rid attempt =
    bind_p read_clock (\<lambda>current.
    bind_p (refuse_expired srv credential request digest rid current) (\<lambda>_.
    bind_p (transact (mark_in_progress (the_store srv) rid attempt current)) (\<lambda>_.
    bind_p read_clock (\<lambda>dispatch_at.
    bind_p (refuse_expired srv credential request digest rid dispatch_at) (\<lambda>_.
    let timeout = min (worker_timeout_seconds (the_settings srv))
      (max (1 / 1000) (seconds_between (expires_at request) dispatch_at))
    in bind_p (call_worker srv request rid attempt timeout) (\<lambda>result.
    finish_attempt srv credential digest rid attempt result))))))"

definition store_exception :: "service \<Rightarrow> pystr \<Rightarrow> pystr \<Rightarrow> exn \<Rightarrow> json service_program" where
  "store_exception srv rid attempt e =
    (if is_gateway_failure e then throw e
     else if is_store_error e then
       bind_p read_clock (\<lambda>now.
       bind_p (transact (mark_ambiguous rid attempt now)) (\<lambda>_.
       throw (failing_after ''inference_timeout'' 504 (retry_after srv))))
     else throw e)"

definition run_attempt ::
    "service \<Rightarrow> credential \<Rightarrow> inference_request \<Rightarrow> pystr \<Rightarrow> pystr \<Rightarrow> active_attempt \<Rightarrow> json service_program" where
  "run_attempt srv credential request digest rid active =
    Ask Draw_Uuid (\<lambda>u.
    try_finally
      (try_except (attempt_body srv credential request digest rid (the_uuid u))
        (store_exception srv rid (the_uuid u)))
      (release_lane active))"

definition infer :: "service \<Rightarrow> credential \<Rightarrow> inference_request \<Rightarrow> json service_program" where
  "infer srv credential request =
    bind_p read_clock (\<lambda>now.
    bind_p (Finish (validate_policy srv credential request now)) (\<lambda>_.
    bind_p (Finish (canonical_digest (sha256_hex srv) request)) (\<lambda>digest.
    bind_p (try_except (transact (admit (the_store srv) request (identity_hash credential) digest now))
      (\<lambda>e. throw (admission_failure srv e))) (\<lambda>record.
    bind_p (Finish (existing_response srv record)) (\<lambda>response.
    case response of
      Some body \<Rightarrow> give body
    | None \<Rightarrow>
        (case r_state record of
           In_Progress \<Rightarrow> join_active srv record credential digest
         | Ambiguous \<Rightarrow> throw (failing_after ''inference_timeout'' 504 (retry_after srv))
         | Reserved \<Rightarrow>
             bind_p (claim_lane (r_request_id record)) (\<lambda>(active, owner).
             if \<not> owner then
               (if attempt_request active = r_request_id record
                then wait_and_reload srv active credential digest (expires_at request)
                else throw (failing_after ''capacity_limited'' 429 (retry_after srv)))
             else run_attempt srv credential request digest (r_request_id record) active)
         | _ \<Rightarrow> throw (failing ''invalid_request'' False 409)))))))"

subsection \<open>Acknowledgement, health and task profile\<close>

definition acknowledgement_failure :: "exn \<Rightarrow> exn" where
  "acknowledgement_failure e =
    (case e of
       RequestForbidden \<Rightarrow> failing ''forbidden'' False 403
     | RequestUnknown \<Rightarrow> failing ''unknown_request'' False 404
     | RequestExpired \<Rightarrow> failing ''request_expired'' False 409
     | RequestNotTerminal \<Rightarrow> failing ''result_not_terminal'' False 409
     | AcknowledgementConflict \<Rightarrow> failing ''acknowledgement_conflict'' False 409
     | _ \<Rightarrow> e)"

definition acknowledge_request :: "service \<Rightarrow> credential \<Rightarrow> acknowledgement_request \<Rightarrow> json service_program" where
  "acknowledge_request srv credential request =
    bind_p read_clock (\<lambda>now.
    bind_p (try_except (transact (acknowledge (the_store srv) (ack_request_id request)
        (identity_hash credential) (ack_disposition request) now))
      (\<lambda>e. throw (acknowledgement_failure e))) (\<lambda>record.
    give (JObj
      [(py ''protocol_version'', JInt PROTOCOL_VERSION),
       (py ''request_id'', JStr (r_request_id record)),
       (py ''status'', JStr (py ''acknowledged'')),
       (py ''disposition'', text_or_null (r_acknowledgement_disposition record))])))"

definition probe_worker :: "pystr \<times> int \<Rightarrow> bool service_program" where
  "probe_worker name = Ask (Probe_Worker name) (\<lambda>r. Finish (the_probe r))"

definition availability_fields :: "bool \<Rightarrow> jobj" where
  "availability_fields available =
    [(py ''status'', JStr (if available then py ''available'' else py ''unavailable'')),
     (py ''diagnostic_code'', JStr (if available then py ''ready'' else py ''worker_unavailable''))]"

fun probe_tasks :: "(pystr \<times> int) list \<Rightarrow> json list service_program" where
  "probe_tasks [] = give []"
| "probe_tasks ((name, version) # rest) =
    bind_p (probe_worker (name, version)) (\<lambda>available.
    bind_p (probe_tasks rest) (\<lambda>entries.
    give (JObj ([(py ''id'', JStr name), (py ''version'', JInt version)] @ availability_fields available) # entries)))"

text \<open>\<open>sorted\<close> orders the tasks by name and version; a list of pairs is sorted by two stable sorts.\<close>

definition authorized_tasks :: "credential \<Rightarrow> (pystr \<times> int) list" where
  "authorized_tasks credential =
    sort_key fst (sort_key snd (filter (\<lambda>t. t \<in> tasks credential) (map fst TASK_POLICIES)))"

definition health :: "service \<Rightarrow> credential \<Rightarrow> json service_program" where
  "health srv credential =
    bind_p (probe_tasks (authorized_tasks credential)) (\<lambda>entries.
    give (JObj [(py ''protocol_version'', JInt PROTOCOL_VERSION), (py ''tasks'', JList entries)]))"

definition task_profile :: "service \<Rightarrow> credential \<Rightarrow> pystr \<times> int \<Rightarrow> json service_program" where
  "task_profile srv credential name =
    (if name \<notin> tasks credential then throw (failing ''forbidden'' False 403)
     else if name \<noteq> DOCUMENT_TASK_V2 then throw (failing ''unsupported_task'' False 404)
     else bind_p (probe_worker name) (\<lambda>available.
       give (JObj ([(py ''protocol_version'', JInt PROTOCOL_VERSION),
         (py ''task'', JObj [(py ''id'', JStr (fst name)), (py ''version'', JInt (snd name))]),
         (py ''profile'', document_task_profile)] @ availability_fields available))))"

end
