(* ===== verification/Store_Contract.thy ===== *)
theory Store_Contract
  imports Store_Lifecycle
begin

text \<open>
  What each operation of the store promises, on every branch: the outcome and the table it
  leaves, in terms of the row the clean-up leaves under the request id.  From these the
  contract of the store follows: idempotent admission, ownership, isolation of requests,
  at most one dispatch per reservation, the output round trip, acknowledgement and expiry.
\<close>

subsection \<open>Reading rows\<close>

definition the_record :: "request_row \<Rightarrow> request_record" where
  "the_record r = projr (record_of_row r)"

lemma record_of_row_ok: "row_ok r \<Longrightarrow> record_of_row r = Inr (the_record r)"
  by (auto simp: row_ok_def the_record_def record_of_row_def parse_timestamp_def)

lemma the_record_simps:
  assumes "row_ok r"
  shows "r_request_id (the_record r) = c_request_id r" "r_credential_hash (the_record r) = c_credential_hash r"
    "r_request_digest (the_record r) = c_request_digest r" "r_state (the_record r) = c_state r"
    "r_attempt_id (the_record r) = c_attempt_id r" "r_output_media_type (the_record r) = c_output_media_type r"
    "r_output_nonce (the_record r) = c_output_nonce r" "r_output_ciphertext (the_record r) = c_output_ciphertext r"
    "r_producing_deployment_id (the_record r) = c_producing_deployment_id r"
    "r_producing_task_policy_version (the_record r) = c_producing_task_policy_version r"
    "r_error_code (the_record r) = c_error_code r"
    "r_error_retryable (the_record r) = map_option (\<lambda>n. n \<noteq> 0) (c_error_retryable r)"
    "r_error_retry_after_seconds (the_record r) = c_error_retry_after_seconds r"
    "r_acknowledgement_disposition (the_record r) = c_acknowledgement_disposition r"
    "Some (r_expires_at (the_record r)) = strptime_utc (c_expires_at r)"
  using assms by (auto simp: row_ok_def the_record_def record_of_row_def parse_timestamp_def)

lemma find_row_in: "find_row rid t = Some r \<Longrightarrow> r \<in> set t \<and> c_request_id r = rid"
  by (auto simp: find_row_def dest: find_Some_in)

lemma find_row_ok: "table_ok t \<Longrightarrow> find_row rid t = Some r \<Longrightarrow> row_ok r"
  by (auto simp: table_ok_def list_all_iff dest: find_row_in)

lemma find_row_iff:
  "table_ok t \<Longrightarrow> find_row rid t = Some r \<longleftrightarrow> r \<in> set t \<and> c_request_id r = rid"
  using find_unique_key [of c_request_id t r rid] find_row_in [of rid t r]
  unfolding table_ok_def find_row_def by blast

lemma select_request_eq: "table_ok t \<Longrightarrow> select_request rid t = Inr (map_option the_record (find_row rid t))"
  using find_row_ok record_of_row_ok by (auto simp: select_request_def split: option.split)

lemma cleanup_ok: "table_ok t \<Longrightarrow> table_ok (cleanup cfg now t)"
  by (rule table_step_ok [OF table_step.clean])

lemma cleanup_id: "table_ok t \<Longrightarrow> clock_ok cfg now \<Longrightarrow> cleanup cfg now (cleanup cfg now t) = cleanup cfg now t"
proof -
  assume "clock_ok cfg now"
  have none: "\<not> overdue now r" if "r \<in> set (cleanup cfg now t)" for r
    using that by (auto simp: cleanup_def update_where_def overdue_def expire_row_def is_retired_def split: if_splits)
  then have "update_where (overdue now) (expire_row now) (cleanup cfg now t) = cleanup cfg now t"
    by (auto simp: update_where_def intro: map_idI)
  moreover have "filter (\<lambda>r. \<not> stale cfg now r) (cleanup cfg now t) = cleanup cfg now t"
    by (simp add: cleanup_def)
  ultimately show ?thesis by (simp add: cleanup_def [of cfg now "cleanup cfg now t"])
qed

text \<open>One update of the row of an id.\<close>

lemma count_one:
  assumes "table_ok t" "\<And>r. P r \<Longrightarrow> c_request_id r = rid"
  shows "count_where P t = (case find_row rid t of None \<Rightarrow> 0 | Some r \<Rightarrow> if P r then 1 else 0)"
proof -
  have "distinct (map c_request_id t) \<Longrightarrow>
      length (filter P t) = (case find (\<lambda>r. c_request_id r = rid) t of None \<Rightarrow> 0 | Some r \<Rightarrow> if P r then 1 else 0)"
    using assms(2)
  proof (induction t)
    case (Cons r t)
    have "filter P t = []" if "c_request_id r = rid"
      using Cons.prems that by (auto simp: filter_empty_conv) (metis image_eqI)
    then show ?case using Cons by auto
  qed simp
  then show ?thesis using assms(1) by (simp add: count_where_def find_row_def table_ok_def)
qed

lemma find_row_update_self:
  assumes "\<And>r. c_request_id (f r) = c_request_id r" "\<And>r. P r \<Longrightarrow> c_request_id r = rid"
  shows "find_row k (update_where P f t) =
    (if k = rid then map_option (\<lambda>r. if P r then f r else r) (find_row rid t) else find_row k t)"
proof (cases "k = rid")
  case True
  then show ?thesis using assms(1) by (simp add: find_row_update)
next
  case False
  then have "map_option (\<lambda>r. if P r then f r else r) (find_row k t) = find_row k t"
    using assms(2) by (cases "find_row k t") (auto dest: find_row_in)
  then show ?thesis using False assms(1) by (simp add: find_row_update)
qed

subsection \<open>Admission\<close>

lemma admit_existing:
  assumes "table_ok t" "find_row (request_id request) (cleanup cfg now t) = Some r"
  shows "admit cfg request owner digest now t =
    (if c_credential_hash r \<noteq> owner then (Inl RequestForbidden, t)
     else if c_request_digest r \<noteq> digest then (Inl RequestIdentityConflict, t)
     else (Inr (the_record r), cleanup cfg now t))"
proof -
  have ok: "table_ok (cleanup cfg now t)" using assms(1) by (rule cleanup_ok)
  have "row_ok r" using find_row_ok [OF ok assms(2)] .
  then show ?thesis
    using assms(2) select_request_eq [OF ok, of "request_id request"]
    by (auto simp: admit_def atomically_def authorize_existing_def the_record_simps result_simps)
qed

lemma reselect_eq:
  assumes "table_ok t" "find_row rid t = Some r"
  shows "reselect rid t = (Inr (the_record r), t)"
  using assms by (simp add: reselect_def result_simps select_request_eq)

lemma admit_new:
  assumes "table_ok t" "find_row (request_id request) (cleanup cfg now t) = None"
    "strptime_utc (request_expires_at request) \<noteq> None"
  shows "admit cfg request owner digest now t =
    (if expires_at request \<le> now then (Inl RequestExpired, t)
     else if max_open_total cfg \<le> open_count (cleanup cfg now t) \<or>
       max_open_per_credential cfg \<le> owner_open_count owner (cleanup cfg now t)
     then (Inl RequestCapacityLimited, t)
     else (Inr (the_record (new_row request owner digest now)),
       cleanup cfg now t @ [new_row request owner digest now]))"
proof -
  let ?u = "cleanup cfg now t" and ?r = "new_row request owner digest now"
  have ok: "table_ok ?u" using assms(1) by (rule cleanup_ok)
  have fresh: "c_request_id ?r \<notin> set (map c_request_id ?u)"
    using assms(2) by (auto simp: new_row_def find_row_def find_None_iff)
  have "row_ok ?r" using assms(3) by (auto simp: row_ok_def new_row_def no_output_def)
  then have ok': "table_ok (?u @ [?r])" using ok fresh by (auto simp: table_ok_def)
  have "find_row (request_id request) (?u @ [?r]) = Some ?r"
    using find_row_iff [OF ok'] by (auto simp: new_row_def)
  from reselect_eq [OF ok' this] show ?thesis
    using fresh assms(2) select_request_eq [OF ok, of "request_id request"]
    by (auto simp: admit_def atomically_def result_simps insert_row_def act_bind_def [of "insert_row _"])
qed


subsection \<open>Reads and dispatch\<close>

lemma get_owned_eq:
  assumes "table_ok t"
  shows "get_owned cfg rid owner digest now t =
    (case find_row rid (cleanup cfg now t) of
       None \<Rightarrow> (Inl RequestUnknown, t)
     | Some r \<Rightarrow>
         if c_credential_hash r \<noteq> owner then (Inl RequestForbidden, t)
         else if digest \<noteq> None \<and> Some (c_request_digest r) \<noteq> digest then (Inl RequestIdentityConflict, t)
         else (Inr (the_record r), cleanup cfg now t))"
proof -
  have ok: "table_ok (cleanup cfg now t)" using assms by (rule cleanup_ok)
  show ?thesis
    using select_request_eq [OF ok, of rid] find_row_ok [OF ok, of rid]
    by (auto simp: get_owned_def atomically_def authorize_existing_def the_record_simps result_simps
        split: option.split)
qed

definition started :: "pystr \<Rightarrow> datetime \<Rightarrow> request_row \<Rightarrow> request_row" where
  "started attempt now r = r\<lparr>c_state := In_Progress, c_attempt_id := Some attempt, c_updated_at := timestamp now\<rparr>"

lemma mark_in_progress_eq:
  assumes "table_ok t"
  shows "mark_in_progress cfg rid attempt now t =
    (case find_row rid (cleanup cfg now t) of
       None \<Rightarrow> (Inl (StoreFault ''request is not reserved for dispatch''), t)
     | Some r \<Rightarrow>
         if c_state r = Reserved
         then (Inr (the_record (started attempt now r)),
           update_where (\<lambda>r. c_request_id r = rid \<and> c_state r = Reserved) (started attempt now) (cleanup cfg now t))
         else (Inl (StoreFault ''request is not reserved for dispatch''), t))"
proof -
  let ?u = "cleanup cfg now t" and ?P = "\<lambda>r. c_request_id r = rid \<and> c_state r = Reserved"
  let ?v = "update_where ?P (started attempt now) ?u"
  have ok: "table_ok ?u" using assms by (rule cleanup_ok)
  have ok': "table_ok ?v"
    by (rule table_ok_update [OF ok, of ?P now]) (auto simp: started_def intro: row_move.start)
  have f: "find_row rid ?v = map_option (\<lambda>r. if ?P r then started attempt now r else r) (find_row rid ?u)"
    by (rule find_row_update) (simp add: started_def)
  have c: "count_where ?P ?u = (case find_row rid ?u of None \<Rightarrow> 0 | Some r \<Rightarrow> if ?P r then 1 else 0)"
    using ok by (rule count_one) simp
  have fold: "(\<lambda>r. r\<lparr>c_state := In_Progress, c_attempt_id := Some attempt, c_updated_at := timestamp now\<rparr>) =
      started attempt now" by (rule ext) (simp add: started_def)
  show ?thesis
    using c f find_row_in [of rid ?u] reselect_eq [OF ok', of rid]
    by (auto simp: mark_in_progress_def atomically_def result_simps fold update_count_def
        act_bind_def [of "update_count _ _"] split: option.split)
qed

definition finished :: "pystr \<Rightarrow> nat list \<Rightarrow> nat list \<Rightarrow> pystr \<Rightarrow> int \<Rightarrow> datetime \<Rightarrow> request_row \<Rightarrow> request_row" where
  "finished media n ct deployment version now w = w\<lparr>c_state := Completed, c_output_media_type := Some media,
     c_output_nonce := Some n, c_output_ciphertext := Some ct,
     c_producing_deployment_id := Some deployment, c_producing_task_policy_version := Some version,
     c_updated_at := timestamp now\<rparr>"

lemma complete_eq:
  assumes "table_ok t"
  shows "complete cfg cipher nonce rid attempt media content deployment version now t =
    (case find_row rid (cleanup cfg now t) of
       None \<Rightarrow> (Inr False, cleanup cfg now t)
     | Some r \<Rightarrow>
         if c_state r = Expired then (Inr False, cleanup cfg now t)
         else if \<not> owns_attempt rid attempt r
         then (Inl (StoreFault ''worker completion does not own the active attempt''), t)
         else (case encrypt cipher nonce (the_record r) content of
             Inl e \<Rightarrow> (Inl e, t)
           | Inr (n, ct) \<Rightarrow>
               if version < 1 then (Inl IntegrityError, t)
               else (Inr True, update_where (owns_attempt rid attempt)
                 (finished media n ct deployment version now) (cleanup cfg now t))))"
proof -
  let ?u = "cleanup cfg now t"
  have ok: "table_ok ?u" using assms by (rule cleanup_ok)
  have c: "count_where (owns_attempt rid attempt) ?u =
      (case find_row rid ?u of None \<Rightarrow> 0 | Some r \<Rightarrow> if owns_attempt rid attempt r then 1 else 0)"
    using ok by (rule count_one) (simp add: owns_attempt_def)
  have fold: "(\<lambda>w. w\<lparr>c_state := Completed, c_output_media_type := Some media, c_output_nonce := Some n,
      c_output_ciphertext := Some ct, c_producing_deployment_id := Some deployment,
      c_producing_task_policy_version := Some version, c_updated_at := timestamp now\<rparr>) =
    finished media n ct deployment version now" for n ct by (rule ext) (simp add: finished_def)
  show ?thesis
  proof (cases "find_row rid ?u")
    case None
    then show ?thesis using select_request_eq [OF ok, of rid]
      by (simp add: complete_def atomically_def result_simps)
  next
    case (Some r)
    then have r: "row_ok r" "c_request_id r = rid" using find_row_ok [OF ok] find_row_in by auto
    show ?thesis
      using Some r c select_request_eq [OF ok, of rid]
      by (auto simp: complete_def atomically_def result_simps fold update_count_def the_record_simps
          owns_attempt_def act_bind_def [of "update_count _ _"] split: sum.split prod.split)
  qed
qed

subsection \<open>Acknowledgement\<close>

definition acknowledged :: "pystr \<Rightarrow> datetime \<Rightarrow> request_row \<Rightarrow> request_row" where
  "acknowledged disposition now w = w\<lparr>c_state := Acknowledged, c_acknowledgement_disposition := Some disposition,
     c_output_media_type := None, c_output_nonce := None, c_output_ciphertext := None,
     c_updated_at := timestamp now, c_acknowledged_at := Some (timestamp now)\<rparr>"

lemma acknowledge_eq:
  assumes "table_ok t"
  shows "acknowledge cfg rid owner disposition now t =
    (case find_row rid (cleanup cfg now t) of
       None \<Rightarrow> (Inl RequestUnknown, t)
     | Some r \<Rightarrow>
         if c_credential_hash r \<noteq> owner then (Inl RequestForbidden, t)
         else if c_state r = Acknowledged then
           (if c_acknowledgement_disposition r \<noteq> Some disposition then (Inl AcknowledgementConflict, t)
            else (Inr (the_record r), cleanup cfg now t))
         else if c_state r = Expired then (Inl RequestExpired, t)
         else if c_state r \<noteq> Completed then (Inl RequestNotTerminal, t)
         else (Inr (the_record (acknowledged disposition now r)),
           update_where (\<lambda>w. c_request_id w = rid \<and> c_state w = Completed)
             (acknowledged disposition now) (cleanup cfg now t)))"
proof -
  let ?u = "cleanup cfg now t" and ?P = "\<lambda>r. c_request_id r = rid \<and> c_state r = Completed"
  let ?v = "update_where ?P (acknowledged disposition now) ?u"
  have ok: "table_ok ?u" using assms by (rule cleanup_ok)
  have ok': "table_ok ?v"
    by (rule table_ok_update [OF ok, of ?P now]) (auto simp: acknowledged_def intro: row_move.acknowledge)
  have f: "find_row rid ?v = map_option (\<lambda>r. if ?P r then acknowledged disposition now r else r) (find_row rid ?u)"
    by (rule find_row_update) (simp add: acknowledged_def)
  have fold: "(\<lambda>w. w\<lparr>c_state := Acknowledged, c_acknowledgement_disposition := Some disposition,
     c_output_media_type := None, c_output_nonce := None, c_output_ciphertext := None,
     c_updated_at := timestamp now, c_acknowledged_at := Some (timestamp now)\<rparr>) =
      acknowledged disposition now" by (rule ext) (simp add: acknowledged_def)
  show ?thesis
  proof (cases "find_row rid ?u")
    case None
    then show ?thesis using select_request_eq [OF ok, of rid]
      by (simp add: acknowledge_def atomically_def result_simps)
  next
    case (Some r)
    then have r: "row_ok r" "c_request_id r = rid" using find_row_ok [OF ok] find_row_in by auto
    show ?thesis
      using Some r f select_request_eq [OF ok, of rid] reselect_eq [OF ok', of rid]
      by (auto simp: acknowledge_def atomically_def result_simps fold the_record_simps authorize_existing_def)
  qed
qed

subsection \<open>Consequences\<close>

text \<open>What the clean-up leaves under an id.\<close>

definition cleaned :: "store_config \<Rightarrow> datetime \<Rightarrow> request_row option \<Rightarrow> request_row option" where
  "cleaned cfg now entry =
    (case entry of
       None \<Rightarrow> None
     | Some r \<Rightarrow> if overdue now r then Some (expire_row now r) else if stale cfg now r then None else Some r)"

lemma find_row_cleaned:
  "table_ok t \<Longrightarrow> clock_ok cfg now \<Longrightarrow> find_row rid (cleanup cfg now t) = cleaned cfg now (find_row rid t)"
  by (simp add: find_row_cleanup table_ok_def cleaned_def)

text \<open>A call touches one id; every other row is left as it was or as the clean-up leaves it.\<close>

fun call_target :: "store_call \<Rightarrow> pystr option" where
  "call_target (Call_Admit request _ _) = Some (request_id request)"
| "call_target (Call_Mark_In_Progress rid _) = Some rid"
| "call_target (Call_Reset_Reserved rid _) = Some rid"
| "call_target (Call_Mark_Ambiguous rid _) = Some rid"
| "call_target (Call_Mark_Failed rid _ _ _ _) = Some rid"
| "call_target (Call_Complete _ rid _ _ _ _ _) = Some rid"
| "call_target (Call_Acknowledge rid _ _) = Some rid"
| "call_target _ = None"

lemma find_row_append: "find_row k (t @ [r]) = (case find_row k t of Some x \<Rightarrow> Some x
    | None \<Rightarrow> if c_request_id r = k then Some r else None)"
  by (induction t) (auto simp: find_row_def)

lemma find_row_other:
  assumes "\<And>r. P r \<Longrightarrow> c_request_id r = rid" "\<And>r. c_request_id (f r) = c_request_id r" "k \<noteq> rid"
  shows "find_row k (update_where P f t) = find_row k t"
  using assms by (simp add: find_row_update_self)

lemma find_row_owned:
  "(\<And>r. c_request_id (f r) = c_request_id r) \<Longrightarrow> k \<noteq> rid \<Longrightarrow>
    find_row k (update_where (owns_attempt rid attempt) f t) = find_row k t"
  by (rule find_row_other [where rid = rid]) (auto simp: owns_attempt_def)

lemma isolation:
  assumes ok: "table_ok t" and clock: "clock_ok cfg now" and "call_ok call" "call \<noteq> Call_Recover"
    and other: "call_target call \<noteq> Some k"
  shows "find_row k (run_call cfg cipher now call t) \<in> {find_row k t, cleaned cfg now (find_row k t)}"
proof -
  let ?u = "cleanup cfg now t"
  note fc = find_row_cleaned [OF ok clock, of k]
  show ?thesis
  proof (cases call)
    case (Call_Admit request owner digest)
    have "snd (admit cfg request owner digest now t) \<in> {t, ?u, ?u @ [new_row request owner digest now]}"
    proof (cases "find_row (request_id request) ?u")
      case None
      then show ?thesis using admit_new [OF ok] assms(3) Call_Admit by auto
    next
      case (Some r)
      then show ?thesis using admit_existing [OF ok] by auto
    qed
    moreover have "find_row k (?u @ [new_row request owner digest now]) = find_row k ?u"
      using other Call_Admit by (auto simp: find_row_append new_row_def split: option.split)
    ultimately show ?thesis using Call_Admit fc by auto
  next
    case (Call_Get_Owned rid owner digest)
    then show ?thesis using fc by (auto simp: get_owned_eq [OF ok] split: option.split)
  next
    case (Call_Mark_In_Progress rid attempt)
    have "find_row k (update_where (\<lambda>r. c_request_id r = rid \<and> c_state r = Reserved) (started attempt now) ?u) = find_row k ?u"
      using other Call_Mark_In_Progress by (intro find_row_other [where rid = rid]) (auto simp: started_def)
    then show ?thesis using Call_Mark_In_Progress fc by (auto simp: mark_in_progress_eq [OF ok] split: option.split)
  next
    case (Call_Reset_Reserved rid attempt)
    then show ?thesis using other by (simp add: reset_reserved_def transaction_simps find_row_owned)
  next
    case (Call_Mark_Ambiguous rid attempt)
    then show ?thesis using other by (simp add: mark_ambiguous_def transaction_simps find_row_owned)
  next
    case (Call_Mark_Failed rid attempt code retryable after)
    then show ?thesis using other by (simp add: mark_failed_def transaction_simps find_row_owned)
  next
    case (Call_Complete nonce rid attempt media content deployment version)
    have "find_row k (update_where (owns_attempt rid attempt) (finished media n ct deployment version now) ?u) = find_row k ?u" for n ct
      using other Call_Complete by (intro find_row_other [where rid = rid]) (auto simp: finished_def owns_attempt_def)
    then show ?thesis using Call_Complete fc
      by (auto simp: complete_eq [OF ok] split: option.split sum.split)
  next
    case Call_Maintain
    then show ?thesis using fc by (simp add: maintain_def transaction_simps)
  next
    case (Call_Acknowledge rid owner disposition)
    have "find_row k (update_where (\<lambda>w. c_request_id w = rid \<and> c_state w = Completed) (acknowledged disposition now) ?u) = find_row k ?u"
      using other Call_Acknowledge by (intro find_row_other [where rid = rid]) (auto simp: acknowledged_def)
    then show ?thesis using Call_Acknowledge fc by (auto simp: acknowledge_eq [OF ok] split: option.split)
  qed (use assms(4) in simp)
qed

text \<open>What an admission that succeeds leaves under the id: a row of the owner and the digest.\<close>

lemma admission_kept:
  assumes "table_ok t" "strptime_utc (request_expires_at request) \<noteq> None"
    "admit cfg request owner digest now t = (Inr record, t')"
  shows "table_ok t' \<and> (\<exists>r. find_row (request_id request) t' = Some r \<and> record = the_record r \<and>
    c_credential_hash r = owner \<and> c_request_digest r = digest)"
proof -
  let ?u = "cleanup cfg now t" and ?r = "new_row request owner digest now"
  have ok: "table_ok t'"
    using run_call_ok [of "Call_Admit request owner digest" t cfg undefined now] assms(1-3) by simp
  show ?thesis
  proof (cases "find_row (request_id request) ?u")
    case (Some q)
    then show ?thesis using admit_existing [OF assms(1) Some] assms(3) ok by (auto split: if_splits)
  next
    case None
    then have "t' = ?u @ [?r]" "record = the_record ?r"
      using admit_new [OF assms(1) None assms(2)] assms(3) by (auto split: if_splits)
    moreover from this have "find_row (request_id request) t' = Some ?r" using None by (simp add: find_row_append new_row_def)
    ultimately show ?thesis using ok by (simp add: new_row_def)
  qed
qed

subsection \<open>Time\<close>

text \<open>
  An expiry the store can compare: ASCII digits, in the years the text order covers.  Then the
  text comparison of the SQL is the comparison of instants.
\<close>

definition comparable_expiry :: "pystr \<Rightarrow> bool" where
  "comparable_expiry s =
    (is_ascii_text s \<and> (case strptime_utc s of None \<Rightarrow> False | Some d \<Rightarrow> clock_range d))"

lemma comparable_expiry_le:
  assumes "comparable_expiry s" "strptime_utc s = Some d" "clock_range now"
  shows "s \<le> timestamp now \<longleftrightarrow> d \<le> now"
proof -
  note c = stamp_strptime [OF assms(2)]
  have s: "timestamp d = s" "d = dt_secs d * 1000000" "clock_range d"
    using assms c by (auto simp: comparable_expiry_def)
  have "s \<le> timestamp now \<longleftrightarrow> dt_secs d \<le> dt_secs now"
    using timestamp_le [OF s(3) assms(3)] s(1) by simp
  also have "\<dots> \<longleftrightarrow> d \<le> now"
    using s(2) by (simp add: dt_secs_def) linarith
  finally show ?thesis .
qed

lemma overdue_iff:
  assumes "comparable_expiry (c_expires_at r)" "strptime_utc (c_expires_at r) = Some d" "clock_range now"
  shows "overdue now r \<longleftrightarrow> \<not> is_retired (c_state r) \<and> d \<le> now"
  using comparable_expiry_le [OF assms] by (simp add: overdue_def)

text \<open>After a clean-up every overdue request is retired and holds no output.\<close>

lemma cleanup_row:
  assumes "r \<in> set (cleanup cfg now t)"
  shows "\<not> overdue now r \<and> \<not> stale cfg now r"
  using assms
  by (auto simp: cleanup_def update_where_def overdue_def expire_row_def is_retired_def split: if_splits)

lemma cleanup_private:
  assumes "table_ok t" "clock_range now" "r \<in> set (cleanup cfg now t)" "comparable_expiry (c_expires_at r)"
    "strptime_utc (c_expires_at r) = Some d" "d \<le> now"
  shows "is_retired (c_state r) \<and> no_output r"
proof -
  have "is_retired (c_state r)"
    using cleanup_row [OF assms(3)] overdue_iff [OF assms(4,5,2)] assms(6) by blast
  moreover have "row_ok r" using cleanup_ok [OF assms(1), of cfg now] assms(3) by (auto simp: table_ok_def list_all_iff)
  ultimately show ?thesis by (auto simp: row_ok_def is_retired_def)
qed

subsection \<open>Settled requests\<close>

text \<open>
  Within one call a request that has left the open states of dispatch is never reserved or in
  progress again, and one that is retired keeps its state until it is forgotten.
\<close>

definition settled_row :: "store_config \<Rightarrow> datetime \<Rightarrow> request_state \<Rightarrow> request_row \<Rightarrow> bool" where
  "settled_row cfg now a r =
    (c_state r = a \<and> \<not> is_retired a \<or>
     is_retired (c_state r) \<and> \<not> stale cfg now r \<and> (c_state r = Acknowledged \<longrightarrow> a = Completed \<or> a = Acknowledged) \<and>
     (is_retired a \<longrightarrow> c_state r = a))"

lemma fresh_not_stale: "clock_ok cfg now \<Longrightarrow> c_updated_at r = timestamp now \<Longrightarrow> \<not> stale cfg now r"
  using expired_not_stale [of cfg now r] by (auto simp: stale_def expire_row_def is_retired_def)

lemma settled_move:
  assumes "row_move now r r'" "settled_row cfg now a r" "a \<notin> {Reserved, In_Progress}" "clock_ok cfg now"
  shows "settled_row cfg now a r'"
  using assms(1) assms(2-) fresh_not_stale [OF assms(4), of r'] row_move_identity [OF assms(1)]
  by (cases rule: row_move.cases) (auto simp: settled_row_def expire_row_def is_retired_def overdue_def)

lemma settled_step:
  assumes "table_step cfg now t t'" "table_ok t" "clock_ok cfg now" "a \<notin> {Reserved, In_Progress}"
    "find_row rid t = Some r" "settled_row cfg now a r"
  shows "\<exists>r'. find_row rid t' = Some r' \<and> settled_row cfg now a r'"
  using assms
proof (induction rule: table_step.induct)
  case (clean t)
  have "\<not> stale cfg now r" using clean(5) by (auto simp: settled_row_def stale_def)
  then show ?case
    using find_row_cleaned [OF clean(1,2), of rid] clean settled_move [OF row_move.expire]
    by (auto simp: cleaned_def)
next
  case (update t P f)
  have "find_row rid (update_where P f t) = map_option (\<lambda>r. if P r then f r else r) (find_row rid t)"
    using update(1) row_move_identity by (intro find_row_update) blast
  moreover have "r \<in> set t" using find_row_in [OF update(5)] by simp
  then have "P r \<Longrightarrow> settled_row cfg now a (f r)"
    using settled_move [OF update(1) update(6,4,3)] by blast
  ultimately show ?case using update(5,6) by simp
next
  case (insert row t request credential digest)
  then show ?case by (simp add: find_row_append)
qed

lemma settled_call:
  assumes "call_ok call" "table_ok t" "clock_ok cfg now" "status t rid = Some a" "a \<notin> {Reserved, In_Progress}"
    "\<And>r. find_row rid t = Some r \<Longrightarrow> \<not> stale cfg now r"
  shows "\<exists>b. status (run_call cfg cipher now call t) rid = Some b \<and>
    (b = a \<or> \<not> is_retired a \<and> (b = Expired \<or> b = Acknowledged \<and> a = Completed))"
proof -
  obtain r where r: "find_row rid t = Some r" "c_state r = a" using assms(4) by (auto simp: status_def)
  have "settled_row cfg now a r" using r assms(6) by (auto simp: settled_row_def is_retired_def)
  have "table_ok u \<and> (\<exists>r'. find_row rid u = Some r' \<and> settled_row cfg now a r')"
    if "table_steps cfg now t u" for u
    using that
  proof (induction rule: rtranclp_induct)
    case base
    then show ?case using r(1) \<open>settled_row cfg now a r\<close> assms(2) by blast
  next
    case (step u v)
    then show ?case using settled_step [OF step(2) _ assms(3,5)] table_step_ok by blast
  qed
  from this [OF run_call_steps [OF assms(1)]] obtain r' where
    "find_row rid (run_call cfg cipher now call t) = Some r'" "settled_row cfg now a r'" by blast
  then show ?thesis by (auto simp: status_def settled_row_def is_retired_def)
qed


subsection \<open>The life of a result\<close>

lemma encrypt_same_identity:
  "encrypt cipher nonce r content = encrypt cipher nonce q content"
  if "r_request_id r = r_request_id q" "r_credential_hash r = r_credential_hash q"
    "r_request_digest r = r_request_digest q"
  using that by (simp add: encrypt_def aad_def)

lemma complete_reads_back:
  assumes "table_ok t" "faithful cipher"
    "complete cfg cipher nonce rid attempt media content deployment version now t = (Inr True, t')"
  shows "\<exists>r. find_row rid t' = Some r \<and> c_state r = Completed \<and> row_ok r \<and>
    output_of cipher (the_record r) = Inr content \<and> c_output_media_type r = Some media \<and>
    c_producing_deployment_id r = Some deployment \<and> c_producing_task_policy_version r = Some version"
proof -
  let ?u = "cleanup cfg now t"
  have ok: "table_ok ?u" by (rule cleanup_ok [OF assms(1)])
  from assms(3) complete_eq [OF assms(1), of cfg cipher nonce rid attempt media content deployment version now]
  obtain r n ct where r: "find_row rid ?u = Some r" "owns_attempt rid attempt r" "1 \<le> version"
    "encrypt cipher nonce (the_record r) content = Inr (n, ct)"
    "t' = update_where (owns_attempt rid attempt) (finished media n ct deployment version now) ?u"
    by (auto split: option.splits if_splits sum.splits)
  let ?r = "finished media n ct deployment version now r"
  have f: "find_row rid t' = Some ?r"
    using r(1,2) by (simp add: r(5) find_row_update finished_def)
  have ok': "row_ok ?r"
    using row_move_ok [OF row_move.finish [where r = r and version = version and media = media and n = n
          and ciphertext = ct and deployment = deployment and now = now]] r(2,3) find_row_ok [OF ok r(1)]
    by (simp add: finished_def owns_attempt_def)
  have "decrypt cipher (the_record ?r) = Inr content"
    using assms(2) r(4)
  proof (rule decrypt_encrypt)
    show "aad (the_record ?r) = aad (the_record r)"
      using find_row_ok [OF ok r(1)] ok' by (simp add: aad_def the_record_simps) (simp add: finished_def)
  qed (use ok' in \<open>simp_all add: the_record_simps finished_def\<close>)
  then show ?thesis using f ok'
    by (auto simp: output_of_def the_record_simps) (simp_all add: finished_def)
qed

lemma acknowledge_result:
  assumes "table_ok t" "acknowledge cfg rid owner disposition now t = (Inr record, t')"
  shows "\<exists>r. find_row rid t' = Some r \<and> c_state r = Acknowledged \<and> no_output r \<and> record = the_record r \<and>
    c_credential_hash r = owner \<and> c_acknowledgement_disposition r = Some disposition"
proof -
  let ?u = "cleanup cfg now t"
  have ok: "table_ok ?u" by (rule cleanup_ok [OF assms(1)])
  from assms(2) acknowledge_eq [OF assms(1), of cfg rid owner disposition now]
  obtain r where r: "find_row rid ?u = Some r" "c_credential_hash r = owner"
    "c_state r = Acknowledged \<and> c_acknowledgement_disposition r = Some disposition \<and> t' = ?u \<and> record = the_record r \<or>
     c_state r = Completed \<and> record = the_record (acknowledged disposition now r) \<and>
     t' = update_where (\<lambda>w. c_request_id w = rid \<and> c_state w = Completed) (acknowledged disposition now) ?u"
    by (auto split: option.splits if_splits)
  from r(3) show ?thesis
  proof
    assume "c_state r = Acknowledged \<and> c_acknowledgement_disposition r = Some disposition \<and> t' = ?u \<and> record = the_record r"
    then show ?thesis using r(1,2) find_row_ok [OF ok r(1)] by (auto simp: row_ok_def)
  next
    assume a: "c_state r = Completed \<and> record = the_record (acknowledged disposition now r) \<and>
     t' = update_where (\<lambda>w. c_request_id w = rid \<and> c_state w = Completed) (acknowledged disposition now) ?u"
    have "find_row rid t' = Some (acknowledged disposition now r)"
      using a r(1) find_row_in [OF r(1)] by (simp add: find_row_update acknowledged_def)
    then show ?thesis using a r(2) by (simp add: acknowledged_def no_output_def)
  qed
qed

subsection \<open>Restart\<close>

lemma recover_settles: "\<forall>r \<in> set (recover cfg now t). c_state r \<noteq> In_Progress"
  by (auto simp: recover_def cleanup_def update_where_def expire_row_def split: if_splits)

lemma recover_status:
  assumes "table_ok t" "clock_ok cfg now" "status t rid = Some In_Progress"
  shows "status (recover cfg now t) rid = Some Ambiguous \<or> status (recover cfg now t) rid = Some Expired"
proof -
  let ?f = "\<lambda>r. r\<lparr>c_state := Ambiguous, c_updated_at := timestamp now\<rparr>"
  let ?v = "update_where (\<lambda>r. c_state r = In_Progress) ?f t"
  have ok: "table_ok ?v" by (rule table_ok_update [OF assms(1), of _ now]) (auto intro: row_move.lose)
  obtain r where r: "find_row rid t = Some r" "c_state r = In_Progress" using assms(3) by (auto simp: status_def)
  then have "find_row rid ?v = Some (?f r)" by (simp add: find_row_update)
  then show ?thesis using find_row_cleaned [OF ok assms(2), of rid]
    by (auto simp: recover_def status_def cleaned_def expire_row_def stale_def is_retired_def)
qed


subsection \<open>Dispatch\<close>

lemma dispatch_once:
  assumes "table_ok t" "clock_ok cfg now'" "mark_in_progress cfg rid attempt now t = (Inr record, t')"
  shows "status t' rid = Some In_Progress \<and> r_attempt_id record = Some attempt \<and>
    mark_in_progress cfg rid attempt' now' t' = (Inl (StoreFault ''request is not reserved for dispatch''), t')"
proof -
  let ?u = "cleanup cfg now t"
  have ok: "table_ok ?u" by (rule cleanup_ok [OF assms(1)])
  from assms(3) mark_in_progress_eq [OF assms(1), of cfg rid attempt now]
  obtain r where r: "find_row rid ?u = Some r" "c_state r = Reserved" "record = the_record (started attempt now r)"
    "t' = update_where (\<lambda>r. c_request_id r = rid \<and> c_state r = Reserved) (started attempt now) ?u"
    by (auto split: option.splits if_splits)
  have f: "find_row rid t' = Some (started attempt now r)"
    using r(1,2) find_row_in [OF r(1)] by (simp add: r(4) find_row_update started_def)
  have ok': "table_ok t'"
    unfolding r(4) by (rule table_ok_update [OF ok, of _ now]) (auto simp: started_def intro: row_move.start)
  have "find_row rid (cleanup cfg now' t') = cleaned cfg now' (Some (started attempt now r))"
    using find_row_cleaned [OF ok' assms(2)] f by simp
  then show ?thesis
    using f r(3) find_row_ok [OF ok' f] mark_in_progress_eq [OF ok', of cfg rid attempt' now']
    by (auto simp: status_def cleaned_def started_def expire_row_def the_record_simps split: option.split)
qed

lemma get_owned_authorized:
  assumes "table_ok t" "get_owned cfg rid owner digest now t = (Inr record, t')"
  shows "r_request_id record = rid \<and> r_credential_hash record = owner \<and>
    (digest \<noteq> None \<longrightarrow> digest = Some (r_request_digest record)) \<and> t' = cleanup cfg now t"
proof -
  have ok: "table_ok (cleanup cfg now t)" by (rule cleanup_ok [OF assms(1)])
  from assms(2) get_owned_eq [OF assms(1), of cfg rid owner digest now]
  obtain r where "find_row rid (cleanup cfg now t) = Some r" "c_credential_hash r = owner"
    "digest \<noteq> None \<longrightarrow> digest = Some (c_request_digest r)" "record = the_record r" "t' = cleanup cfg now t"
    by (auto split: option.splits if_splits)
  then show ?thesis using find_row_ok [OF ok] find_row_in by (auto simp: the_record_simps)
qed

text \<open>A request of one credential is closed to every other credential.\<close>

lemma foreign_request:
  assumes "table_ok t" "find_row rid (cleanup cfg now t) = Some r" "c_credential_hash r \<noteq> owner"
  shows "get_owned cfg rid owner digest now t = (Inl RequestForbidden, t)"
    and "acknowledge cfg rid owner disposition now t = (Inl RequestForbidden, t)"
    and "request_id request = rid \<Longrightarrow> admit cfg request owner digest' now t = (Inl RequestForbidden, t)"
  using assms by (simp_all add: get_owned_eq acknowledge_eq admit_existing)

end
