(* ===== verification/Store_Refinement.thy ===== *)
theory Store_Refinement
  imports Store_Contract
begin

text \<open>
  An abstract specification of the store: a ledger, a finite map from request ids to entries, on
  which every operation is one update of the map.  The table operations, with their SQL
  statements over all rows and their row counts, are proved to implement it.
\<close>

subsection \<open>The abstract ledger\<close>

type_synonym ledger = "pystr \<Rightarrow> request_row option"

definition ledger_of :: "request_table \<Rightarrow> ledger" where
  "ledger_of t = (\<lambda>rid. find_row rid t)"

definition ledger_clean :: "store_config \<Rightarrow> datetime \<Rightarrow> ledger \<Rightarrow> ledger" where
  "ledger_clean cfg now m = (\<lambda>rid. cleaned cfg now (m rid))"

definition ledger_count :: "(request_row \<Rightarrow> bool) \<Rightarrow> ledger \<Rightarrow> nat" where
  "ledger_count P m = card {r \<in> ran m. P r}"

text \<open>Change the entry of one id, if there is one that satisfies a condition.\<close>

definition ledger_update :: "pystr \<Rightarrow> (request_row \<Rightarrow> bool) \<Rightarrow> (request_row \<Rightarrow> request_row) \<Rightarrow> ledger \<Rightarrow> ledger" where
  "ledger_update rid P f m =
    (case m rid of None \<Rightarrow> m | Some r \<Rightarrow> if P r then m(rid \<mapsto> f r) else m)"

definition ledger_admit ::
    "store_config \<Rightarrow> inference_request \<Rightarrow> pystr \<Rightarrow> pystr \<Rightarrow> datetime \<Rightarrow> (ledger, request_record) action" where
  "ledger_admit cfg request owner digest now m =
    (let u = ledger_clean cfg now m; rid = request_id request
     in case u rid of
       Some r \<Rightarrow>
         if c_credential_hash r \<noteq> owner then (Inl RequestForbidden, m)
         else if c_request_digest r \<noteq> digest then (Inl RequestIdentityConflict, m)
         else (Inr (the_record r), u)
     | None \<Rightarrow>
         if expires_at request \<le> now then (Inl RequestExpired, m)
         else if max_open_total cfg \<le> ledger_count (\<lambda>r. is_open (c_state r)) u \<or>
           max_open_per_credential cfg \<le> ledger_count (\<lambda>r. c_credential_hash r = owner \<and> is_open (c_state r)) u
         then (Inl RequestCapacityLimited, m)
         else (Inr (the_record (new_row request owner digest now)), u(rid \<mapsto> new_row request owner digest now)))"

definition ledger_get :: "store_config \<Rightarrow> pystr \<Rightarrow> pystr \<Rightarrow> pystr option \<Rightarrow> datetime \<Rightarrow> (ledger, request_record) action" where
  "ledger_get cfg rid owner digest now m =
    (let u = ledger_clean cfg now m
     in case u rid of
       None \<Rightarrow> (Inl RequestUnknown, m)
     | Some r \<Rightarrow>
         if c_credential_hash r \<noteq> owner then (Inl RequestForbidden, m)
         else if digest \<noteq> None \<and> Some (c_request_digest r) \<noteq> digest then (Inl RequestIdentityConflict, m)
         else (Inr (the_record r), u))"

definition ledger_start :: "store_config \<Rightarrow> pystr \<Rightarrow> pystr \<Rightarrow> datetime \<Rightarrow> (ledger, request_record) action" where
  "ledger_start cfg rid attempt now m =
    (let u = ledger_clean cfg now m
     in case u rid of
       Some r \<Rightarrow>
         if c_state r = Reserved
         then (Inr (the_record (started attempt now r)), u(rid \<mapsto> started attempt now r))
         else (Inl (StoreFault ''request is not reserved for dispatch''), m)
     | None \<Rightarrow> (Inl (StoreFault ''request is not reserved for dispatch''), m))"

definition ledger_complete ::
    "store_config \<Rightarrow> aead \<Rightarrow> nat list \<Rightarrow> pystr \<Rightarrow> pystr \<Rightarrow> pystr \<Rightarrow> pystr \<Rightarrow> pystr \<Rightarrow> int \<Rightarrow> datetime \<Rightarrow>
      (ledger, bool) action" where
  "ledger_complete cfg cipher nonce rid attempt media content deployment version now m =
    (let u = ledger_clean cfg now m
     in case u rid of
       None \<Rightarrow> (Inr False, u)
     | Some r \<Rightarrow>
         if c_state r = Expired then (Inr False, u)
         else if \<not> owns_attempt rid attempt r
         then (Inl (StoreFault ''worker completion does not own the active attempt''), m)
         else (case encrypt cipher nonce (the_record r) content of
             Inl e \<Rightarrow> (Inl e, m)
           | Inr (n, ct) \<Rightarrow>
               if version < 1 then (Inl IntegrityError, m)
               else (Inr True, u(rid \<mapsto> finished media n ct deployment version now r))))"

definition ledger_acknowledge :: "store_config \<Rightarrow> pystr \<Rightarrow> pystr \<Rightarrow> pystr \<Rightarrow> datetime \<Rightarrow> (ledger, request_record) action" where
  "ledger_acknowledge cfg rid owner disposition now m =
    (let u = ledger_clean cfg now m
     in case u rid of
       None \<Rightarrow> (Inl RequestUnknown, m)
     | Some r \<Rightarrow>
         if c_credential_hash r \<noteq> owner then (Inl RequestForbidden, m)
         else if c_state r = Acknowledged then
           (if c_acknowledgement_disposition r \<noteq> Some disposition then (Inl AcknowledgementConflict, m)
            else (Inr (the_record r), u))
         else if c_state r = Expired then (Inl RequestExpired, m)
         else if c_state r \<noteq> Completed then (Inl RequestNotTerminal, m)
         else (Inr (the_record (acknowledged disposition now r)), u(rid \<mapsto> acknowledged disposition now r)))"

subsection \<open>The tables refine it\<close>

definition seen :: "'a result \<times> request_table \<Rightarrow> 'a result \<times> ledger" where
  "seen = (\<lambda>(r, t). (r, ledger_of t))"

lemma ledger_clean_of: "table_ok t \<Longrightarrow> clock_ok cfg now \<Longrightarrow> ledger_of (cleanup cfg now t) = ledger_clean cfg now (ledger_of t)"
  by (simp add: ledger_of_def ledger_clean_def find_row_cleaned)

lemma ledger_ran: "table_ok t \<Longrightarrow> ran (ledger_of t) = set t"
  using find_row_iff [of t] by (auto simp: ran_def ledger_of_def)

lemma ledger_count_of: "table_ok t \<Longrightarrow> ledger_count P (ledger_of t) = count_where P t"
proof -
  assume ok: "table_ok t"
  then have "distinct t" by (auto simp: table_ok_def distinct_map)
  then have "card (set (filter P t)) = length (filter P t)" by (intro distinct_card) simp
  moreover have "{r \<in> ran (ledger_of t). P r} = set (filter P t)" using ledger_ran [OF ok] by auto
  ultimately show ?thesis by (simp add: ledger_count_def count_where_def)
qed

lemma ledger_update_of:
  assumes "\<And>r. c_request_id (f r) = c_request_id r" "\<And>r. P r \<Longrightarrow> c_request_id r = rid"
  shows "ledger_of (update_where P f t) = ledger_update rid P f (ledger_of t)"
proof
  fix k
  show "ledger_of (update_where P f t) k = ledger_update rid P f (ledger_of t) k"
    using assms find_row_update_self [of f P rid k t]
    by (auto simp: ledger_of_def ledger_update_def split: option.split)
qed

lemma ledger_owned_of:
  "(\<And>r. c_request_id (f r) = c_request_id r) \<Longrightarrow>
    ledger_of (update_where (owns_attempt rid attempt) f t) = ledger_update rid (owns_attempt rid attempt) f (ledger_of t)"
  by (rule ledger_update_of) (auto simp: owns_attempt_def)

lemma ledger_insert_of:
  "find_row (c_request_id r) t = None \<Longrightarrow> ledger_of (t @ [r]) = (ledger_of t)(c_request_id r \<mapsto> r)"
  by (rule ext) (auto simp: ledger_of_def find_row_append split: option.split)

lemma admit_refines:
  assumes "table_ok t" "clock_ok cfg now" "strptime_utc (request_expires_at request) \<noteq> None"
  shows "seen (admit cfg request owner digest now t) = ledger_admit cfg request owner digest now (ledger_of t)"
proof -
  let ?u = "cleanup cfg now t" and ?r = "new_row request owner digest now"
  have ok: "table_ok ?u" by (rule cleanup_ok [OF assms(1)])
  note clean = ledger_clean_of [OF assms(1,2), symmetric]
  have id: "c_request_id ?r = request_id request" by (simp add: new_row_def)
  show ?thesis
  proof (cases "find_row (request_id request) ?u")
    case None
    then show ?thesis
      using admit_new [OF assms(1) None assms(3)] ledger_insert_of [of ?r ?u]
      by (simp add: ledger_admit_def seen_def clean ledger_count_of [OF ok] open_count_def owner_open_count_def
          Let_def id) (simp add: ledger_of_def)
  next
    case (Some r)
    then show ?thesis using admit_existing [OF assms(1) Some]
      by (simp add: ledger_admit_def seen_def clean Let_def) (simp add: ledger_of_def)
  qed
qed

lemma get_refines:
  assumes "table_ok t" "clock_ok cfg now"
  shows "seen (get_owned cfg rid owner digest now t) = ledger_get cfg rid owner digest now (ledger_of t)"
  using ledger_clean_of [OF assms, symmetric]
  by (simp add: get_owned_eq [OF assms(1)] ledger_get_def seen_def Let_def)
    (simp add: ledger_of_def split: option.split)


lemma start_refines:
  assumes "table_ok t" "clock_ok cfg now"
  shows "seen (mark_in_progress cfg rid attempt now t) = ledger_start cfg rid attempt now (ledger_of t)"
proof -
  have "ledger_of (update_where (\<lambda>r. c_request_id r = rid \<and> c_state r = Reserved) (started attempt now) u) =
      ledger_update rid (\<lambda>r. c_request_id r = rid \<and> c_state r = Reserved) (started attempt now) (ledger_of u)" for u
    by (rule ledger_update_of) (auto simp: started_def)
  then show ?thesis
    using ledger_clean_of [OF assms, symmetric] find_row_in [of rid "cleanup cfg now t"]
    by (simp add: mark_in_progress_eq [OF assms(1)] ledger_start_def seen_def Let_def ledger_update_def)
      (auto simp: ledger_of_def split: option.split)
qed

lemma complete_refines:
  assumes "table_ok t" "clock_ok cfg now"
  shows "seen (complete cfg cipher nonce rid attempt media content deployment version now t) =
    ledger_complete cfg cipher nonce rid attempt media content deployment version now (ledger_of t)"
proof -
  have "ledger_of (update_where (owns_attempt rid attempt) (finished media n ct deployment version now) u) =
      ledger_update rid (owns_attempt rid attempt) (finished media n ct deployment version now) (ledger_of u)" for n ct u
    by (rule ledger_update_of) (auto simp: finished_def owns_attempt_def)
  then show ?thesis
    using ledger_clean_of [OF assms, symmetric]
    by (simp add: complete_eq [OF assms(1)] ledger_complete_def seen_def Let_def ledger_update_def)
      (auto simp: ledger_of_def split: option.split sum.split)
qed

lemma acknowledge_refines:
  assumes "table_ok t" "clock_ok cfg now"
  shows "seen (acknowledge cfg rid owner disposition now t) =
    ledger_acknowledge cfg rid owner disposition now (ledger_of t)"
proof -
  have "ledger_of (update_where (\<lambda>w. c_request_id w = rid \<and> c_state w = Completed) (acknowledged disposition now) u) =
      ledger_update rid (\<lambda>w. c_request_id w = rid \<and> c_state w = Completed) (acknowledged disposition now) (ledger_of u)" for u
    by (rule ledger_update_of) (auto simp: acknowledged_def)
  then show ?thesis
    using ledger_clean_of [OF assms, symmetric] find_row_in [of rid "cleanup cfg now t"]
    by (simp add: acknowledge_eq [OF assms(1)] ledger_acknowledge_def seen_def Let_def ledger_update_def)
      (auto simp: ledger_of_def split: option.split)
qed

text \<open>The transition of the whole ledger under a call.\<close>

fun ledger_call :: "store_config \<Rightarrow> aead \<Rightarrow> datetime \<Rightarrow> store_call \<Rightarrow> ledger \<Rightarrow> ledger" where
  "ledger_call cfg cipher now Call_Recover m = ledger_clean cfg now (\<lambda>rid. map_option (\<lambda>r.
     if c_state r = In_Progress then r\<lparr>c_state := Ambiguous, c_updated_at := timestamp now\<rparr> else r) (m rid))"
| "ledger_call cfg cipher now (Call_Admit request owner digest) m = snd (ledger_admit cfg request owner digest now m)"
| "ledger_call cfg cipher now (Call_Get_Owned rid owner digest) m = snd (ledger_get cfg rid owner digest now m)"
| "ledger_call cfg cipher now (Call_Mark_In_Progress rid attempt) m = snd (ledger_start cfg rid attempt now m)"
| "ledger_call cfg cipher now (Call_Reset_Reserved rid attempt) m = ledger_update rid (owns_attempt rid attempt)
     (\<lambda>r. r\<lparr>c_state := Reserved, c_attempt_id := None, c_updated_at := timestamp now\<rparr>) m"
| "ledger_call cfg cipher now (Call_Mark_Ambiguous rid attempt) m = ledger_update rid (owns_attempt rid attempt)
     (\<lambda>r. r\<lparr>c_state := Ambiguous, c_updated_at := timestamp now\<rparr>) m"
| "ledger_call cfg cipher now (Call_Mark_Failed rid attempt code retryable after) m =
     ledger_update rid (owns_attempt rid attempt)
     (\<lambda>r. r\<lparr>c_state := Failed, c_error_code := Some code,
        c_error_retryable := Some (if retryable then 1 else 0),
        c_error_retry_after_seconds := after, c_updated_at := timestamp now\<rparr>) m"
| "ledger_call cfg cipher now (Call_Complete nonce rid attempt media content deployment version) m =
     snd (ledger_complete cfg cipher nonce rid attempt media content deployment version now m)"
| "ledger_call cfg cipher now Call_Maintain m = ledger_clean cfg now m"
| "ledger_call cfg cipher now (Call_Acknowledge rid owner disposition) m =
     snd (ledger_acknowledge cfg rid owner disposition now m)"

lemma snd_seen: "snd (seen x) = ledger_of (snd x)"
  by (simp add: seen_def split: prod.split)

lemma call_refines:
  assumes "call_ok call" "table_ok t" "clock_ok cfg now"
  shows "ledger_of (run_call cfg cipher now call t) = ledger_call cfg cipher now call (ledger_of t)"
proof (cases call)
  case Call_Recover
  let ?f = "\<lambda>r. r\<lparr>c_state := Ambiguous, c_updated_at := timestamp now\<rparr>"
  let ?v = "update_where (\<lambda>r. c_state r = In_Progress) ?f t"
  have "table_ok ?v" by (rule table_ok_update [OF assms(2), of _ now]) (auto intro: row_move.lose)
  moreover have "ledger_of ?v = (\<lambda>rid. map_option (\<lambda>r. if c_state r = In_Progress then ?f r else r) (ledger_of t rid))"
    by (rule ext) (simp add: ledger_of_def find_row_update)
  ultimately show ?thesis using Call_Recover ledger_clean_of [OF _ assms(3)] by (simp add: recover_def)
next
  case (Call_Admit request owner digest)
  then have "strptime_utc (request_expires_at request) \<noteq> None" using assms(1) by simp
  from admit_refines [OF assms(2,3) this] show ?thesis using Call_Admit snd_seen by (metis ledger_call.simps(2) run_call.simps(2))
next
  case (Call_Get_Owned rid owner digest)
  then show ?thesis by (simp add: get_refines [OF assms(2,3)] flip: snd_seen)
next
  case (Call_Mark_In_Progress rid attempt)
  then show ?thesis by (simp add: start_refines [OF assms(2,3)] flip: snd_seen)
next
  case (Call_Complete nonce rid attempt media content deployment version)
  then show ?thesis by (simp add: complete_refines [OF assms(2,3)] flip: snd_seen)
next
  case Call_Maintain
  then show ?thesis using ledger_clean_of [OF assms(2,3)] by (simp add: maintain_def transaction_simps)
next
  case (Call_Acknowledge rid owner disposition)
  then show ?thesis by (simp add: acknowledge_refines [OF assms(2,3)] flip: snd_seen)
qed (simp_all add: reset_reserved_def mark_ambiguous_def mark_failed_def transaction_simps ledger_owned_of)

end
