(* ===== verification/Service_Steps.thy ===== *)
theory Service_Steps
  imports Service_Core Store_Refinement
begin

text \<open>
  Threads of the service run interleaved.  A thread is a handler's program; the phase a thread
  is in is a ghost state, and the handlers are shown, by weakest preconditions, to keep the
  discipline of the phases whatever the other threads do.
\<close>

subsection \<open>Which store calls leave a reservation alone\<close>

text \<open>
  The calls a thread makes without holding the lane, and those by which the holder settles its
  attempt.  Only the return of a refused attempt makes a request reserved again.
\<close>

fun open_call :: "store_call \<Rightarrow> bool" where
  "open_call (Call_Admit _ _ _) = True"
| "open_call (Call_Get_Owned _ _ _) = True"
| "open_call Call_Maintain = True"
| "open_call (Call_Acknowledge _ _ _) = True"
| "open_call _ = False"

fun settling_call :: "pystr \<Rightarrow> store_call \<Rightarrow> bool" where
  "settling_call rid (Call_Mark_Ambiguous rid' _) = (rid' = rid)"
| "settling_call rid (Call_Mark_Failed rid' _ _ _ _) = (rid' = rid)"
| "settling_call rid (Call_Complete _ rid' _ _ _ _ _) = (rid' = rid)"
| "settling_call rid _ = False"

lemma status_ledger: "status t rid = map_option c_state (ledger_of t rid)"
  by (simp add: status_def ledger_of_def)

lemma status_cleaned:
  "map_option c_state (ledger_clean cfg now m rid) = Some s \<Longrightarrow> s \<noteq> Expired \<Longrightarrow> map_option c_state (m rid) = Some s"
  by (auto simp: ledger_clean_def cleaned_def expire_row_def split: option.splits if_splits)

lemma in_progress_cleaned:
  "clock_ok cfg now \<Longrightarrow> map_option c_state (m rid) = Some In_Progress \<Longrightarrow>
    map_option c_state (ledger_clean cfg now m rid) \<in> {Some In_Progress, Some Expired}"
  by (auto simp: ledger_clean_def cleaned_def expire_row_def stale_def is_retired_def split: option.splits)

text \<open>How a reserved status comes about.\<close>

lemma reserved_after_call:
  assumes "open_call call \<or> settling_call k call" "call_ok call" "table_ok t" "clock_ok cfg now"
    "status (run_call cfg cipher now call t) rid = Some Reserved"
  shows "status t rid = Some Reserved \<or> status t rid \<noteq> Some In_Progress"
proof -
  let ?m = "ledger_of t"
  have after: "map_option c_state (ledger_call cfg cipher now call ?m rid) = Some Reserved"
    using assms(5) call_refines [OF assms(2-4), of cipher] by (simp add: status_ledger)
  note clean = status_cleaned [of cfg now ?m rid Reserved, simplified] in_progress_cleaned [OF assms(4), of ?m rid]
  show ?thesis
  proof (cases call)
    case (Call_Admit request owner digest)
    then show ?thesis using after clean
      by (auto simp: status_ledger ledger_admit_def Let_def split: option.splits if_splits)
  next
    case (Call_Get_Owned r o d)
    then show ?thesis using after clean
      by (auto simp: status_ledger ledger_get_def Let_def split: option.splits if_splits)
  next
    case Call_Maintain
    then show ?thesis using after clean by (auto simp: status_ledger)
  next
    case (Call_Acknowledge r o d)
    then show ?thesis using after clean
      by (auto simp: status_ledger ledger_acknowledge_def acknowledged_def Let_def split: option.splits if_splits)
  next
    case (Call_Mark_Ambiguous r a)
    then show ?thesis using after
      by (auto simp: status_ledger ledger_update_def split: option.splits if_splits)
  next
    case (Call_Mark_Failed r a c b s)
    then show ?thesis using after
      by (auto simp: status_ledger ledger_update_def split: option.splits if_splits)
  next
    case (Call_Complete n r a m' c d v)
    then show ?thesis using after clean
      by (auto simp: status_ledger ledger_complete_def finished_def Let_def split: option.splits if_splits sum.splits)
  qed (use assms(1) in auto)
qed

subsection \<open>Phases of a thread\<close>

text \<open>
  A thread is outside the lane, or it holds the lane with an attempt that is claimed (nothing
  marked yet), running (the row is marked and the worker may be called), refused (the worker
  did not take the request) or spent.
\<close>

datatype stage = Claimed | Running | Refused | Spent

datatype phase = Outside | Holding active_attempt stage

inductive thread_change :: "store_config \<Rightarrow> aead \<Rightarrow> phase \<Rightarrow> gateway \<Rightarrow> gateway \<Rightarrow> phase \<Rightarrow> bool"
    for cfg cipher where
  idle: "thread_change cfg cipher ph g g ph"
| open_call: "open_call call \<Longrightarrow> call_ok call \<Longrightarrow> clock_ok cfg now \<Longrightarrow>
    thread_change cfg cipher ph g (g\<lparr>requests := run_call cfg cipher now call (requests g)\<rparr>) ph"
| claim: "lane g = None \<Longrightarrow> a = \<lparr>identity = next_identity g, attempt_request = rid\<rparr> \<Longrightarrow>
    thread_change cfg cipher Outside g (g\<lparr>lane := Some a, next_identity := Suc (next_identity g)\<rparr>) (Holding a Claimed)"
| start: "clock_ok cfg now \<Longrightarrow>
    mark_in_progress cfg (attempt_request a) attempt now (requests g) = (Inr record, t) \<Longrightarrow>
    thread_change cfg cipher (Holding a Claimed) g (g\<lparr>requests := t\<rparr>) (Holding a Running)"
| return: "clock_ok cfg now \<Longrightarrow>
    thread_change cfg cipher (Holding a Refused) g
      (g\<lparr>requests := run_call cfg cipher now (Call_Reset_Reserved (attempt_request a) attempt) (requests g)\<rparr>)
      (Holding a Spent)"
| settle: "settling_call (attempt_request a) call \<Longrightarrow> clock_ok cfg now \<Longrightarrow>
    thread_change cfg cipher (Holding a st) g
      (g\<lparr>requests := run_call cfg cipher now call (requests g)\<rparr>) (Holding a st)"
| release: "thread_change cfg cipher (Holding a st) g
    (g\<lparr>finished_attempts := insert (identity a) (finished_attempts g),
       lane := (if map_option identity (lane g) = Some (identity a) then None else lane g)\<rparr>) Outside"

inductive_cases thread_changeE: "thread_change cfg cipher ph g g' ph'"

definition kind_ok :: "store_config \<Rightarrow> service_question \<Rightarrow> service_reply \<Rightarrow> bool" where
  "kind_ok cfg q r =
    (case q of
       Read_Clock \<Rightarrow> (case r of Time now \<Rightarrow> clock_ok cfg now | _ \<Rightarrow> False)
     | Draw_Uuid \<Rightarrow> (case r of Uuid _ \<Rightarrow> True | _ \<Rightarrow> False)
     | Draw_Nonce \<Rightarrow> (case r of Nonce _ \<Rightarrow> True | _ \<Rightarrow> False)
     | Begin_Transaction \<Rightarrow> (case r of Begun _ \<Rightarrow> True | _ \<Rightarrow> False)
     | Wait_For _ _ \<Rightarrow> (case r of Waited _ \<Rightarrow> True | _ \<Rightarrow> False)
     | Call_Worker _ _ \<Rightarrow> (case r of Answer _ \<Rightarrow> True | _ \<Rightarrow> False)
     | Probe_Worker _ \<Rightarrow> (case r of Probed _ \<Rightarrow> True | _ \<Rightarrow> False))"

definition is_refusal :: "service_reply \<Rightarrow> bool" where
  "is_refusal r = (case r of Answer (Inl (WorkerUnavailable _)) \<Rightarrow> True | _ \<Rightarrow> False)"

definition after_question :: "phase \<Rightarrow> service_question \<Rightarrow> service_reply \<Rightarrow> phase set" where
  "after_question ph q r =
    (case q of
       Call_Worker request timeout \<Rightarrow>
         (case ph of
            Holding a Running \<Rightarrow>
              if request_id request = attempt_request a
              then {Holding a (if is_refusal r then Refused else Spent)} else {}
          | _ \<Rightarrow> {})
     | _ \<Rightarrow> {ph})"

definition lane_discipline ::
    "store_config \<Rightarrow> aead \<Rightarrow> (gateway, service_question, service_reply, phase) discipline" where
  "lane_discipline cfg cipher =
    \<lparr>may_ask = after_question, may_change = (\<lambda>ph g g'. {ph'. thread_change cfg cipher ph g g' ph'}),
     replies = kind_ok cfg, states = (\<lambda>g. table_ok (requests g))\<rparr>"

lemma discipline_simps [simp]:
  "may_ask (lane_discipline cfg cipher) = after_question"
  "may_change (lane_discipline cfg cipher) ph g g' = {ph'. thread_change cfg cipher ph g g' ph'}"
  "replies (lane_discipline cfg cipher) = kind_ok cfg"
  "states (lane_discipline cfg cipher) g = table_ok (requests g)"
  by (simp_all add: lane_discipline_def)

abbreviation keeps ::
    "service \<Rightarrow> 'a service_program \<Rightarrow> ('a result \<Rightarrow> phase \<Rightarrow> bool) \<Rightarrow> phase \<Rightarrow> bool" where
  "keeps srv \<equiv> wp (lane_discipline (the_store srv) (the_cipher srv))"

subsection \<open>Every handler keeps the discipline\<close>

lemma keeps_clock [wp_rules]:
  "keeps srv read_clock Q ph = (\<forall>now. clock_ok (the_store srv) now \<longrightarrow> Q (Inr now) ph)"
  by (auto simp: read_clock_def kind_ok_def after_question_def split: service_reply.splits)

lemma keeps_transact:
  assumes "Q (Inl OperationalError) ph"
    "\<And>(g :: gateway) r t. table_ok (requests g) \<Longrightarrow> act (requests g) = (r, t) \<Longrightarrow>
      \<exists>ph'. thread_change (the_store srv) (the_cipher srv) ph g (g\<lparr>requests := t\<rparr>) ph' \<and> Q r ph'"
  shows "keeps srv (transact act) Q ph"
  using assms
  by (auto simp: transact_def kind_ok_def after_question_def split: service_reply.splits)

lemma keeps_open:
  assumes "open_call call" "call_ok call" "clock_ok (the_store srv) now"
    "\<And>t. snd (act t) = run_call (the_store srv) (the_cipher srv) now call t" "\<And>r. Q r ph"
  shows "keeps srv (transact act) Q ph"
  using thread_change.open_call [OF assms(1-3)] assms(4,5)
  by (intro keeps_transact) (metis snd_conv)+

lemma keeps_settle:
  assumes "settling_call (attempt_request a) call" "clock_ok (the_store srv) now"
    "\<And>t. snd (act t) = run_call (the_store srv) (the_cipher srv) now call t" "\<And>r. Q r (Holding a st)"
  shows "keeps srv (transact act) Q (Holding a st)"
  using thread_change.settle [OF assms(1,2)] assms(3,4)
  by (intro keeps_transact) (metis snd_conv)+

lemma keeps_get_owned:
  "clock_ok (the_store srv) now \<Longrightarrow> (\<And>r. Q r ph) \<Longrightarrow>
    keeps srv (transact (get_owned (the_store srv) rid owner digest now)) Q ph"
  by (rule keeps_open [where call = "Call_Get_Owned rid owner digest"]) simp_all

lemma admit_same_id:
  assumes "table_ok t" "strptime_utc (request_expires_at request) \<noteq> None"
    "admit cfg request owner digest now t = (Inr record, t')"
  shows "r_request_id record = request_id request"
proof (cases "find_row (request_id request) (cleanup cfg now t)")
  case None
  have "row_ok (new_row request owner digest now)"
    using assms(2) by (simp add: row_ok_def new_row_def no_output_def)
  from the_record_simps(1) [OF this] show ?thesis
    using assms(3) admit_new [OF assms(1) None assms(2)] by (auto simp: new_row_def split: if_splits)
next
  case (Some r)
  then have r: "row_ok r" "c_request_id r = request_id request"
    using find_row_ok [OF cleanup_ok [OF assms(1)]] find_row_in by blast+
  then show ?thesis
    using assms(3) admit_existing [OF assms(1) Some] the_record_simps(1) [OF r(1)] by (auto split: if_splits)
qed

lemma keeps_admit:
  assumes "clock_ok (the_store srv) now" "strptime_utc (request_expires_at request) \<noteq> None"
    "\<And>e. Q (Inl e) ph" "\<And>record. r_request_id record = request_id request \<Longrightarrow> Q (Inr record) ph"
  shows "keeps srv (transact (admit (the_store srv) request owner digest now)) Q ph"
proof (rule keeps_transact)
  fix g :: gateway and r t
  assume g: "table_ok (requests g)" and act: "admit (the_store srv) request owner digest now (requests g) = (r, t)"
  have "Q r ph" using assms(3,4) admit_same_id [OF g assms(2)] act by (cases r) auto
  moreover have "call_ok (Call_Admit request owner digest)" using assms(2) by simp
  from thread_change.open_call [OF _ this assms(1), of "the_cipher srv" ph g]
  have "thread_change (the_store srv) (the_cipher srv) ph g (g\<lparr>requests := t\<rparr>) ph" using act by simp
  ultimately show "\<exists>ph'. thread_change (the_store srv) (the_cipher srv) ph g (g\<lparr>requests := t\<rparr>) ph' \<and> Q r ph'" by blast
qed (rule assms(3))

lemma keeps_acknowledge:
  "clock_ok (the_store srv) now \<Longrightarrow> (\<And>r. Q r ph) \<Longrightarrow>
    keeps srv (transact (acknowledge (the_store srv) rid owner disposition now)) Q ph"
  by (rule keeps_open [where call = "Call_Acknowledge rid owner disposition"]) simp_all

lemma keeps_mark_ambiguous:
  "clock_ok (the_store srv) now \<Longrightarrow> (\<And>r. Q r (Holding a st)) \<Longrightarrow>
    keeps srv (transact (mark_ambiguous (attempt_request a) attempt now)) Q (Holding a st)"
  by (rule keeps_settle [where call = "Call_Mark_Ambiguous (attempt_request a) attempt"]) simp_all

lemma keeps_mark_failed:
  "clock_ok (the_store srv) now \<Longrightarrow> (\<And>r. Q r (Holding a st)) \<Longrightarrow>
    keeps srv (transact (mark_failed (attempt_request a) attempt code again after now)) Q (Holding a st)"
  by (rule keeps_settle [where call = "Call_Mark_Failed (attempt_request a) attempt code again after"]) simp_all

lemma keeps_complete:
  "clock_ok (the_store srv) now \<Longrightarrow> (\<And>r. Q r (Holding a st)) \<Longrightarrow>
    keeps srv (transact (complete (the_store srv) (the_cipher srv) nonce (attempt_request a) attempt
      media text deployment version now)) Q (Holding a st)"
  by (rule keeps_settle [where call = "Call_Complete nonce (attempt_request a) attempt media text deployment version"])
    simp_all

lemma keeps_start:
  assumes "clock_ok (the_store srv) now" "\<And>e. Q (Inl e) (Holding a Claimed)" "\<And>r. Q (Inr r) (Holding a Running)"
  shows "keeps srv (transact (mark_in_progress (the_store srv) (attempt_request a) attempt now)) Q (Holding a Claimed)"
proof (rule keeps_transact)
  fix g :: gateway and r t
  assume act: "mark_in_progress (the_store srv) (attempt_request a) attempt now (requests g) = (r, t)"
  show "\<exists>ph'. thread_change (the_store srv) (the_cipher srv) (Holding a Claimed) g (g\<lparr>requests := t\<rparr>) ph' \<and> Q r ph'"
  proof (cases r)
    case (Inl e)
    then have "t = requests g" using act by (simp add: mark_in_progress_def atomically_error)
    then have "g\<lparr>requests := t\<rparr> = g" by simp
    then show ?thesis using thread_change.idle assms(2) Inl by metis
  next
    case (Inr x)
    then show ?thesis using thread_change.start [OF assms(1)] act assms(3) by metis
  qed
qed (rule assms(2))

lemma keeps_reset:
  assumes "clock_ok (the_store srv) now" "Q (Inl OperationalError) (Holding a Refused)" "\<And>r. Q r (Holding a Spent)"
  shows "keeps srv (transact (reset_reserved (attempt_request a) attempt now)) Q (Holding a Refused)"
  using thread_change.return [OF assms(1)] assms(2,3)
  by (intro keeps_transact) (simp_all, metis snd_conv)

lemma keeps_finish [wp_rules]: "keeps srv (Finish r) Q ph = Q r ph"
  by simp

lemma keeps_reload:
  "(\<And>r. Q r ph) \<Longrightarrow> keeps srv (reload_after_attempt srv rid credential digest) Q ph"
  by (auto simp: reload_after_attempt_def wp_rules intro!: keeps_get_owned split: sum.split option.split)

lemma keeps_wait:
  "(\<And>r. Q r ph) \<Longrightarrow> keeps srv (wait_and_reload srv active credential digest expiry) Q ph"
  by (auto simp: wait_and_reload_def wp_rules kind_ok_def after_question_def intro!: keeps_reload)

lemma keeps_lane [wp_rules]: "keeps srv read_lane Q ph \<longleftrightarrow> (\<forall>g. table_ok (requests g) \<longrightarrow> (\<exists>ph'. thread_change (the_store srv) (the_cipher srv) ph g g ph' \<and> Q (Inr (lane g)) ph'))"
  by (simp add: read_lane_def)

lemma keeps_join:
  "(\<And>r. Q r ph) \<Longrightarrow> keeps srv (join_active srv record credential digest) Q ph"
  by (auto simp: join_active_def wp_rules intro!: exI [of _ ph] thread_change.idle keeps_reload keeps_wait split: option.split)

definition holds :: "active_attempt \<Rightarrow> phase \<Rightarrow> bool" where
  "holds a ph = (\<exists>st. ph = Holding a st)"

lemma holds_simps [simp]: "holds a (Holding b st) = (b = a)" "\<not> holds a Outside"
  by (auto simp: holds_def)

lemma keeps_worker_exception:
  assumes "\<And>r ph. holds a ph \<Longrightarrow> Q r ph" "st = (if is_refusal (Answer (Inl e)) then Refused else Spent)"
  shows "keeps srv (worker_exception srv (attempt_request a) attempt e) Q (Holding a st)"
  using assms
  by (cases e) (auto simp: worker_exception_def wp_rules is_refusal_def
      intro!: keeps_reset keeps_mark_failed keeps_mark_ambiguous split: sum.split)

lemma keeps_call_worker:
  assumes "\<And>r ph. holds a ph \<Longrightarrow> Q r ph" "request_id request = attempt_request a"
  shows "keeps srv (call_worker srv request (attempt_request a) attempt timeout) Q (Holding a Running)"
proof -
  have "case r of Inl e \<Rightarrow> keeps srv (worker_exception srv (attempt_request a) attempt e) Q (Holding a st)
      | Inr x \<Rightarrow> Q (Inr x) (Holding a st)" if "st = (if is_refusal (Answer r) then Refused else Spent)" for r st
    using assms(1) that by (auto intro!: keeps_worker_exception split: sum.split)
  then show ?thesis
    using assms(2)
    by (auto simp: call_worker_def wp_rules kind_ok_def after_question_def split: service_reply.splits)
qed

lemma keeps_finish_attempt:
  "(\<And>r ph. holds a ph \<Longrightarrow> Q r ph) \<Longrightarrow> holds a ph \<Longrightarrow>
    keeps srv (finish_attempt srv credential digest (attempt_request a) attempt result) Q ph"
  by (auto simp: holds_def finish_attempt_def wp_rules kind_ok_def after_question_def
      intro!: keeps_complete keeps_get_owned split: sum.split option.split service_reply.splits)

lemma keeps_refuse_expired:
  "(\<And>e. Q (Inl e) ph) \<Longrightarrow> Q (Inr ()) ph \<Longrightarrow> clock_ok (the_store srv) now \<Longrightarrow>
    keeps srv (refuse_expired srv credential request digest rid now) Q ph"
  by (auto simp: refuse_expired_def wp_rules intro!: keeps_get_owned split: sum.split)

lemma keeps_attempt_body:
  assumes "\<And>r ph. holds a ph \<Longrightarrow> Q r ph" "request_id request = attempt_request a"
  shows "keeps srv (attempt_body srv credential request digest (attempt_request a) attempt) Q (Holding a Claimed)"
  unfolding attempt_body_def Let_def wp_rules
  using assms
  by (auto simp: wp_rules intro!: keeps_refuse_expired keeps_start keeps_call_worker keeps_finish_attempt
      split: sum.split)

lemma keeps_release: "Q (Inr ()) Outside \<Longrightarrow> keeps srv (release_lane a) Q (Holding a st)"
  unfolding release_lane_def wp.simps discipline_simps using thread_change.release by blast

lemma keeps_store_exception:
  "(\<And>r ph. holds a ph \<Longrightarrow> Q r ph) \<Longrightarrow> holds a ph \<Longrightarrow>
    keeps srv (store_exception srv (attempt_request a) attempt e) Q ph"
  by (auto simp: holds_def store_exception_def wp_rules intro!: keeps_mark_ambiguous split: sum.split)

lemma keeps_run_attempt:
  assumes "\<And>r. Q r Outside" "request_id request = attempt_request a"
  shows "keeps srv (run_attempt srv credential request digest (attempt_request a) a) Q (Holding a Claimed)"
  using assms
  by (auto simp: run_attempt_def wp_rules kind_ok_def after_question_def holds_def
      intro!: keeps_attempt_body keeps_store_exception keeps_release split: sum.split service_reply.splits)

lemma keeps_claim:
  assumes "\<And>a. attempt_request a = rid \<Longrightarrow> Q (Inr (a, True)) (Holding a Claimed)" "\<And>a. Q (Inr (a, False)) Outside"
  shows "keeps srv (claim_lane rid) Q Outside"
  unfolding claim_lane_def
proof (simp, intro allI impI)
  fix g :: gateway
  let ?a = "\<lparr>identity = next_identity g, attempt_request = rid\<rparr>"
  show "\<exists>ph'. thread_change (the_store srv) (the_cipher srv) Outside g
      (case lane g of None \<Rightarrow> g\<lparr>lane := Some ?a, next_identity := Suc (next_identity g)\<rparr> | Some active \<Rightarrow> g) ph' \<and>
    keeps srv (case lane g of None \<Rightarrow> give (?a, True) | Some active \<Rightarrow> give (active, False)) Q ph'"
  proof (cases "lane g")
    case None
    then show ?thesis using thread_change.claim [OF None refl] assms(1) [of ?a] by auto
  next
    case (Some a)
    then show ?thesis using thread_change.idle [of _ _ Outside g] assms(2) by auto
  qed
qed

lemma keeps_infer:
  assumes "strptime_utc (request_expires_at request) \<noteq> None"
  shows "keeps srv (infer srv credential request) (\<lambda>r ph. ph = Outside) Outside"
proof -
  have "keeps srv (run_attempt srv credential request digest (r_request_id found) a) (\<lambda>r ph. ph = Outside) (Holding a Claimed)"
    if "r_request_id found = request_id request" "attempt_request a = r_request_id found" for digest found a
    using keeps_run_attempt [of "\<lambda>r ph. ph = Outside" request a srv credential digest] that by simp
  then show ?thesis
    unfolding infer_def wp_rules
    using assms
    by (auto simp: wp_rules intro!: keeps_admit keeps_join keeps_wait keeps_claim
        split: sum.split option.split request_state.split)
qed

lemma keeps_acknowledge_request:
  "keeps srv (acknowledge_request srv credential request) (\<lambda>r ph. ph = Outside) Outside"
  by (auto simp: acknowledge_request_def wp_rules intro!: keeps_acknowledge split: sum.split)

lemma keeps_probe [wp_rules]: "keeps srv (probe_worker name) Q ph = (\<forall>r. Q r ph)"
  by (auto simp: probe_worker_def kind_ok_def after_question_def split: service_reply.splits)

lemma keeps_probe_tasks: "(\<And>r. Q r ph) \<Longrightarrow> keeps srv (probe_tasks names) Q ph"
  by (induction names arbitrary: Q rule: probe_tasks.induct) (auto simp: wp_rules split: sum.split)

lemma keeps_health: "keeps srv (health srv credential) (\<lambda>r ph. ph = Outside) Outside"
  by (auto simp: health_def wp_rules intro!: keeps_probe_tasks split: sum.split)

lemma keeps_task_profile: "keeps srv (task_profile srv credential name) (\<lambda>r ph. ph = Outside) Outside"
  by (auto simp: task_profile_def wp_rules split: sum.split)

end
