(* ===== verification/Service_System.thy ===== *)
theory Service_System
  imports Service_Steps
begin

text \<open>
  The service as a system of threads: requests arrive, threads take turns, maintenance cleans the
  table, and the process may stop and start again at any point.  Three counters per request id
  observe a run: the worker calls that ended, by an answer or by a restart, those the worker
  refused, and the times the id was reserved anew.
\<close>

record system =
  shared :: gateway
  threads :: "json service_program list"
  answered :: "pystr \<Rightarrow> nat"
  refused :: "pystr \<Rightarrow> nat"
  admitted :: "pystr \<Rightarrow> nat"

definition idle_gateway :: "request_table \<Rightarrow> gateway" where
  "idle_gateway t = \<lparr>requests = t, lane = None, next_identity = 0, finished_attempts = {}\<rparr>"

definition first_system :: "request_table \<Rightarrow> system" where
  "first_system t = \<lparr>shared = idle_gateway t, threads = [],
     answered = (\<lambda>_. 0), refused = (\<lambda>_. 0), admitted = (\<lambda>rid. if status t rid = Some Reserved then 1 else 0)\<rparr>"

text \<open>An event is awaited until it is set; an unset event means the wait timed out.\<close>

definition reply_ok :: "store_config \<Rightarrow> gateway \<Rightarrow> service_question \<Rightarrow> service_reply \<Rightarrow> bool" where
  "reply_ok cfg g q r =
    (kind_ok cfg q r \<and>
     (case q of Wait_For active _ \<Rightarrow> r = Waited (identity active \<in> finished_attempts g) | _ \<Rightarrow> True))"

definition bump :: "bool \<Rightarrow> pystr \<Rightarrow> (pystr \<Rightarrow> nat) \<Rightarrow> pystr \<Rightarrow> nat" where
  "bump c rid f = (if c then f(rid := Suc (f rid)) else f)"

definition in_flight :: "json service_program \<Rightarrow> bool" where
  "in_flight p = (case p of Ask (Call_Worker _ _) _ \<Rightarrow> True | _ \<Rightarrow> False)"

definition in_flight_for :: "pystr \<Rightarrow> json service_program \<Rightarrow> bool" where
  "in_flight_for rid p = (case p of Ask (Call_Worker request _) _ \<Rightarrow> request_id request = rid | _ \<Rightarrow> False)"

definition count_answer :: "service_question \<Rightarrow> service_reply \<Rightarrow> system \<Rightarrow> system" where
  "count_answer q r s =
    (case q of
       Call_Worker request _ \<Rightarrow>
         s\<lparr>answered := bump True (request_id request) (answered s),
           refused := bump (is_refusal r) (request_id request) (refused s)\<rparr>
     | _ \<Rightarrow> s)"

definition newly_reserved :: "request_table \<Rightarrow> request_table \<Rightarrow> pystr \<Rightarrow> bool" where
  "newly_reserved t t' rid =
    (status t' rid = Some Reserved \<and> status t rid \<noteq> Some Reserved \<and> status t rid \<noteq> Some In_Progress)"

definition count_admission :: "gateway \<Rightarrow> system \<Rightarrow> system" where
  "count_admission g s = s\<lparr>shared := g, admitted := (\<lambda>rid. admitted s rid +
     (if newly_reserved (requests (shared s)) (requests g) rid then 1 else 0))\<rparr>"

text \<open>A restart cuts off the worker calls that are running; they count as made.\<close>

definition count_interrupted :: "system \<Rightarrow> system" where
  "count_interrupted s = s\<lparr>answered := (\<lambda>rid. answered s rid + length (filter (in_flight_for rid) (threads s)))\<rparr>"

definition restarted :: "service \<Rightarrow> datetime \<Rightarrow> system \<Rightarrow> system" where
  "restarted srv now s = count_admission (idle_gateway (recover (the_store srv) now (requests (shared s))))
     ((count_interrupted s)\<lparr>threads := []\<rparr>)"

inductive system_step :: "service \<Rightarrow> system \<Rightarrow> system \<Rightarrow> bool" for srv where
  arrive: "strptime_utc (request_expires_at request) \<noteq> None \<Longrightarrow>
    system_step srv s (s\<lparr>threads := threads s @ [infer srv credential request]\<rparr>)"
| arrive_acknowledgement:
    "system_step srv s (s\<lparr>threads := threads s @ [acknowledge_request srv credential ack]\<rparr>)"
| arrive_health: "system_step srv s (s\<lparr>threads := threads s @ [health srv credential]\<rparr>)"
| arrive_profile: "system_step srv s (s\<lparr>threads := threads s @ [task_profile srv credential name]\<rparr>)"
| ask: "i < length (threads s) \<Longrightarrow> threads s ! i = Ask q k \<Longrightarrow> reply_ok (the_store srv) (shared s) q r \<Longrightarrow>
    system_step srv s (count_answer q r (s\<lparr>threads := (threads s)[i := k r]\<rparr>))"
| change: "i < length (threads s) \<Longrightarrow> threads s ! i = Change u k \<Longrightarrow>
    system_step srv s (count_admission (u (shared s)) (s\<lparr>threads := (threads s)[i := k (shared s)]\<rparr>))"
| maintenance: "clock_ok (the_store srv) now \<Longrightarrow>
    system_step srv s
      (count_admission ((shared s)\<lparr>requests := snd (maintain (the_store srv) now (requests (shared s)))\<rparr>) s)"
| restart: "clock_ok (the_store srv) now \<Longrightarrow> system_step srv s (restarted srv now s)"

subsection \<open>The invariant\<close>

fun held_by :: "phase \<Rightarrow> active_attempt list" where
  "held_by Outside = []"
| "held_by (Holding a _) = [a]"

definition held :: "phase list \<Rightarrow> active_attempt list" where
  "held phs = concat (map held_by phs)"

definition pending :: "pystr \<Rightarrow> phase \<Rightarrow> nat" where
  "pending rid ph =
    (case ph of
       Holding a Running \<Rightarrow> (if attempt_request a = rid then 1 else 0)
     | Holding a Refused \<Rightarrow> (if attempt_request a = rid then 1 else 0)
     | _ \<Rightarrow> 0)"

definition reservations :: "request_table \<Rightarrow> pystr \<Rightarrow> nat" where
  "reservations t rid = (if status t rid = Some Reserved then 1 else 0)"

definition identities_ok :: "gateway \<Rightarrow> bool" where
  "identities_ok g =
    (finished_attempts g \<subseteq> {..<next_identity g} \<and>
     (\<forall>a. lane g = Some a \<longrightarrow> identity a < next_identity g \<and> identity a \<notin> finished_attempts g))"

definition typed_threads :: "service \<Rightarrow> phase list \<Rightarrow> json service_program list \<Rightarrow> bool" where
  "typed_threads srv phs ps = list_all2 (\<lambda>ph p. keeps srv p (\<lambda>r ph. ph = Outside) ph) phs ps"

definition system_ok :: "service \<Rightarrow> system \<Rightarrow> phase list \<Rightarrow> bool" where
  "system_ok srv s phs =
    (typed_threads srv phs (threads s) \<and>
     table_ok (requests (shared s)) \<and> identities_ok (shared s) \<and>
     held phs = (case lane (shared s) of None \<Rightarrow> [] | Some a \<Rightarrow> [a]) \<and>
     (\<forall>rid. answered s rid + reservations (requests (shared s)) rid + sum_list (map (pending rid) phs) \<le>
        admitted s rid + refused s rid))"

subsection \<open>One thread changes the shared state\<close>

lemma thread_change_table:
  assumes "thread_change cfg cipher ph g g' ph'" "table_ok (requests g)"
  shows "table_ok (requests g')"
  using assms
proof (cases rule: thread_change.cases)
  case (start now a attempt found t)
  have "table_ok (run_call cfg cipher now (Call_Mark_In_Progress (attempt_request a) attempt) (requests g))"
    by (rule run_call_ok) (use assms(2) in simp_all)
  then show ?thesis using start by simp
next
  case (settle a call now st)
  then have "call_ok call" by (cases call) auto
  then show ?thesis using settle assms(2) run_call_ok by auto
next
  case (return now a attempt)
  have "table_ok (run_call cfg cipher now (Call_Reset_Reserved (attempt_request a) attempt) (requests g))"
    by (rule run_call_ok) (use assms(2) in simp_all)
  then show ?thesis using return by simp
qed (auto intro: run_call_ok)

lemma status_call: "call_ok call \<Longrightarrow> table_ok t \<Longrightarrow> clock_ok cfg now \<Longrightarrow>
    status (run_call cfg cipher now call t) rid = map_option c_state (ledger_call cfg cipher now call (ledger_of t) rid)"
  by (simp add: status_ledger call_refines)

lemma reserved_le:
  assumes "status t' rid = Some Reserved \<Longrightarrow> status t rid = Some Reserved \<or> status t rid \<noteq> Some In_Progress"
  shows "reservations t' rid \<le> reservations t rid + (if newly_reserved t t' rid then 1 else 0)"
  using assms by (auto simp: reservations_def newly_reserved_def)

lemma thread_change_count:
  assumes "thread_change cfg cipher ph g g' ph'" "table_ok (requests g)"
  shows "reservations (requests g') rid + pending rid ph' \<le>
    reservations (requests g) rid + pending rid ph + (if newly_reserved (requests g) (requests g') rid then 1 else 0)"
  using assms(1)
proof (cases rule: thread_change.cases)
  case (open_call call now)
  then show ?thesis
    using reserved_le [OF reserved_after_call [of call "[]" "requests g" cfg now cipher rid]] assms(2) by simp
next
  case (settle a call now st)
  then have "call_ok call" by (cases call) auto
  then show ?thesis
    using settle reserved_le [OF reserved_after_call [of call "attempt_request a" "requests g" cfg now cipher rid]] assms(2)
    by simp
next
  case (start now a attempt found t)
  let ?call = "Call_Mark_In_Progress (attempt_request a) attempt"
  have t: "t = run_call cfg cipher now ?call (requests g)" using start by simp
  have "fst (ledger_start cfg (attempt_request a) attempt now (ledger_of (requests g))) = Inr found"
    using start_refines [OF assms(2) \<open>clock_ok cfg now\<close>, of "attempt_request a" attempt] start
    by (metis fst_conv seen_def split_conv)
  then obtain r where r: "ledger_clean cfg now (ledger_of (requests g)) (attempt_request a) = Some r" "c_state r = Reserved"
    by (auto simp: ledger_start_def Let_def split: option.splits if_splits)
  then have before: "status (requests g) (attempt_request a) = Some Reserved"
    using status_cleaned [of cfg now "ledger_of (requests g)" "attempt_request a" Reserved] by (simp add: status_ledger)
  let ?m = "(ledger_clean cfg now (ledger_of (requests g)))(attempt_request a \<mapsto> started attempt now r)"
  have "ledger_call cfg cipher now ?call (ledger_of (requests g)) = ?m"
    using r by (simp add: ledger_start_def Let_def)
  then have st: "status t k = map_option c_state (?m k)" for k
    unfolding t using status_call [of ?call "requests g" cfg now cipher k] assms(2) start(4) by simp
  show ?thesis
  proof (cases "rid = attempt_request a")
    case True
    then show ?thesis using before st [of rid] start(1-3) by (simp add: reservations_def pending_def started_def)
  next
    case False
    then have "status t rid = Some Reserved \<Longrightarrow> status (requests g) rid = Some Reserved"
      using st [of rid] status_cleaned [of cfg now "ledger_of (requests g)" rid Reserved]
      by (simp add: status_ledger del: map_option_eq_Some)
    then show ?thesis using start(1-3) False by (simp add: reservations_def pending_def)
  qed
next
  case (return now a attempt)
  let ?call = "Call_Reset_Reserved (attempt_request a) attempt"
  have "requests g' = run_call cfg cipher now ?call (requests g)" using return(2) by simp
  then have "status (requests g') rid = map_option c_state (ledger_call cfg cipher now ?call (ledger_of (requests g)) rid)"
    using status_call [of ?call "requests g" cfg now cipher rid] assms(2) return(4) by simp
  then have "rid \<noteq> attempt_request a \<Longrightarrow> status (requests g') rid = status (requests g) rid"
    by (auto simp: status_ledger ledger_update_def split: option.splits)
  then show ?thesis using return by (auto simp: reservations_def pending_def)
qed (auto simp: reservations_def pending_def)

lemma thread_change_identities:
  assumes "thread_change cfg cipher ph g g' ph'" "identities_ok g" "\<And>a. held_by ph = [a] \<Longrightarrow> lane g = Some a"
  shows "identities_ok g'"
  using assms
proof (cases rule: thread_change.cases)
  case (claim a rid)
  then show ?thesis using assms(2) by (auto simp: identities_ok_def)
next
  case (release a st)
  then show ?thesis using assms(2,3) by (auto simp: identities_ok_def split: if_splits)
qed (auto simp: identities_ok_def)

text \<open>The lane as the list of its holders.\<close>

definition holders :: "gateway \<Rightarrow> active_attempt list" where
  "holders g = (case lane g of None \<Rightarrow> [] | Some a \<Rightarrow> [a])"

lemma thread_change_holders:
  assumes "thread_change cfg cipher ph g g' ph'" "holders g = xs @ held_by ph @ ys"
  shows "holders g' = xs @ held_by ph' @ ys"
  using assms
  by (cases rule: thread_change.cases)
    (auto simp: holders_def append_eq_Cons_conv Cons_eq_append_conv split: option.splits)

subsection \<open>The invariant is kept\<close>

lemma split_update:
  assumes "i < length xs"
  shows "concat (map f (xs[i := y])) = concat (map f (take i xs)) @ f y @ concat (map f (drop (Suc i) xs))"
    and "concat (map f xs) = concat (map f (take i xs)) @ f (xs ! i) @ concat (map f (drop (Suc i) xs))"
  using assms by (simp_all add: upd_conv_take_nth_drop) (metis Cons_nth_drop_Suc append_take_drop_id concat.simps(2) concat_append list.simps(9) map_append)

lemma sum_update:
  assumes "i < length xs"
  shows "sum_list (map (f :: 'a \<Rightarrow> nat) (xs[i := y])) + f (xs ! i) = sum_list (map f xs) + f y"
proof -
  have "sum_list (map f xs) = sum_list (map f (take i xs)) + f (xs ! i) + sum_list (map f (drop (Suc i) xs))"
    using id_take_nth_drop [OF assms] by (metis add.assoc map_append sum_list.append list.simps(9) sum_list.Cons)
  then show ?thesis using assms by (simp add: upd_conv_take_nth_drop)
qed

lemma typed_update:
  "typed_threads srv phs ps \<Longrightarrow> i < length ps \<Longrightarrow> keeps srv p (\<lambda>r ph. ph = Outside) ph \<Longrightarrow>
    typed_threads srv (phs[i := ph]) (ps[i := p])"
  by (simp add: typed_threads_def list_all2_update_cong)

lemma typed_nth: "typed_threads srv phs ps \<Longrightarrow> i < length ps \<Longrightarrow>
    keeps srv (ps ! i) (\<lambda>r ph. ph = Outside) (phs ! i) \<and> length phs = length ps"
  by (simp add: typed_threads_def list_all2_conv_all_nth)

lemma system_arrive:
  assumes "system_ok srv s phs" "keeps srv p (\<lambda>r ph. ph = Outside) Outside"
  shows "system_ok srv (s\<lparr>threads := threads s @ [p]\<rparr>) (phs @ [Outside])"
  using assms
  by (auto simp: system_ok_def typed_threads_def held_def pending_def intro!: list_all2_appendI)

lemma system_ask:
  assumes ok: "system_ok srv s phs" and i: "i < length (threads s)" "threads s ! i = Ask q k"
    and r: "reply_ok (the_store srv) (shared s) q r"
  shows "\<exists>phs'. system_ok srv (count_answer q r (s\<lparr>threads := (threads s)[i := k r]\<rparr>)) phs'"
proof -
  let ?ph = "phs ! i"
  have typed: "typed_threads srv phs (threads s)" using ok by (simp add: system_ok_def)
  have len: "i < length phs" using typed_nth [OF typed i(1)] i(1) by simp
  have "keeps srv (Ask q k) (\<lambda>r ph. ph = Outside) ?ph" using typed_nth [OF typed i(1)] i(2) by simp
  then obtain ph' where ph': "ph' \<in> after_question ?ph q r" "keeps srv (k r) (\<lambda>r ph. ph = Outside) ph'"
    using r by (auto simp: reply_ok_def)
  have hb: "held_by ph' = held_by ?ph"
    using ph'(1) by (auto simp: after_question_def split: service_question.splits phase.splits stage.splits if_splits)
  then have held: "held (phs[i := ph']) = held phs"
    using split_update [OF len, of held_by] by (simp add: held_def)
  have count: "answered (count_answer q r s) rid + pending rid ph' + refused s rid \<le>
      answered s rid + pending rid ?ph + refused (count_answer q r s) rid" for rid
    using ph'(1)
    by (auto simp: after_question_def count_answer_def bump_def pending_def
        split: service_question.splits phase.splits stage.splits if_splits)
  have bound: "answered s rid + reservations (requests (shared s)) rid + sum_list (map (pending rid) phs) \<le>
      admitted s rid + refused s rid" for rid
    using ok by (simp add: system_ok_def)
  have "answered (count_answer q r s) rid + reservations (requests (shared s)) rid +
      sum_list (map (pending rid) (phs[i := ph'])) \<le> admitted s rid + refused (count_answer q r s) rid" for rid
    using count [of rid] sum_update [OF len, of "pending rid" ph'] bound [of rid] by linarith
  then have "system_ok srv (count_answer q r (s\<lparr>threads := (threads s)[i := k r]\<rparr>)) (phs[i := ph'])"
    using ok typed_update [OF typed i(1) ph'(2)] held
    by (auto simp: system_ok_def count_answer_def split: service_question.splits)
  then show ?thesis by blast
qed

lemma system_change:
  assumes ok: "system_ok srv s phs" and i: "i < length (threads s)" "threads s ! i = Change u k"
  shows "\<exists>phs'. system_ok srv
    (count_admission (u (shared s)) (s\<lparr>threads := (threads s)[i := k (shared s)]\<rparr>)) phs'"
proof -
  let ?ph = "phs ! i" and ?g = "shared s" and ?g' = "u (shared s)"
  have typed: "typed_threads srv phs (threads s)" and table: "table_ok (requests ?g)"
      and ids: "identities_ok ?g" and hold: "holders ?g = held phs"
    using ok by (simp_all add: system_ok_def holders_def)
  have len: "i < length phs" using typed_nth [OF typed i(1)] i(1) by simp
  have "keeps srv (Change u k) (\<lambda>r ph. ph = Outside) ?ph" using typed_nth [OF typed i(1)] i(2) by simp
  then obtain ph' where ph': "thread_change (the_store srv) (the_cipher srv) ?ph ?g ?g' ph'"
      "keeps srv (k ?g) (\<lambda>r ph. ph = Outside) ph'"
    using table by auto
  have parts: "holders ?g = concat (map held_by (take i phs)) @ held_by ?ph @ concat (map held_by (drop (Suc i) phs))"
    using hold split_update(2) [OF len, of held_by] by (simp add: held_def)
  have "lane ?g = Some a" if "held_by ?ph = [a]" for a
    using parts that by (auto simp: holders_def append_eq_Cons_conv Cons_eq_append_conv split: option.splits)
  from thread_change_identities [OF ph'(1) ids this] have ids': "identities_ok ?g'" .
  have hold': "holders ?g' = held (phs[i := ph'])"
    using thread_change_holders [OF ph'(1) parts] split_update(1) [OF len, of held_by] by (simp add: held_def)
  have bound: "answered s rid + reservations (requests ?g) rid + sum_list (map (pending rid) phs) \<le>
      admitted s rid + refused s rid" for rid
    using ok by (simp add: system_ok_def)
  have "answered s rid + reservations (requests ?g') rid + sum_list (map (pending rid) (phs[i := ph'])) \<le>
      admitted s rid + (if newly_reserved (requests ?g) (requests ?g') rid then 1 else 0) + refused s rid" for rid
    using thread_change_count [OF ph'(1) table, of rid] sum_update [OF len, of "pending rid" ph'] bound [of rid]
    by linarith
  then have "system_ok srv (count_admission ?g' (s\<lparr>threads := (threads s)[i := k ?g]\<rparr>)) (phs[i := ph'])"
    using typed_update [OF typed i(1) ph'(2)] thread_change_table [OF ph'(1) table] ids' hold'
    by (simp add: system_ok_def count_admission_def holders_def)
  then show ?thesis by blast
qed

lemma system_maintenance:
  assumes ok: "system_ok srv s phs" and clock: "clock_ok (the_store srv) now"
  shows "system_ok srv
    (count_admission ((shared s)\<lparr>requests := snd (maintain (the_store srv) now (requests (shared s)))\<rparr>) s) phs"
proof -
  let ?g = "shared s"
  let ?g' = "?g\<lparr>requests := run_call (the_store srv) (the_cipher srv) now Call_Maintain (requests ?g)\<rparr>"
  have change: "thread_change (the_store srv) (the_cipher srv) Outside ?g ?g' Outside"
    by (rule thread_change.open_call [OF _ _ clock]) simp_all
  have table: "table_ok (requests ?g)" using ok by (simp add: system_ok_def)
  have count: "reservations (requests ?g') rid \<le> reservations (requests ?g) rid +
      (if newly_reserved (requests ?g) (requests ?g') rid then 1 else 0)" for rid
    using thread_change_count [OF change table, of rid] by (simp add: pending_def)
  have bound: "answered s rid + reservations (requests ?g) rid + sum_list (map (pending rid) phs) \<le>
      admitted s rid + refused s rid" for rid
    using ok by (simp add: system_ok_def)
  have "answered s rid + reservations (requests ?g') rid + sum_list (map (pending rid) phs) \<le>
      admitted s rid + (if newly_reserved (requests ?g) (requests ?g') rid then 1 else 0) + refused s rid" for rid
    using count [of rid] bound [of rid] by linarith
  then show ?thesis
    using ok thread_change_table [OF change table]
    by (simp add: system_ok_def count_admission_def identities_ok_def)
qed

lemma recover_not_reserved:
  assumes "table_ok t" "clock_ok cfg now" "status (recover cfg now t) rid = Some Reserved"
  shows "status t rid = Some Reserved"
proof -
  let ?f = "\<lambda>r. if c_state r = In_Progress then r\<lparr>c_state := Ambiguous, c_updated_at := timestamp now\<rparr> else r"
  let ?m = "\<lambda>rid. map_option ?f (ledger_of t rid)"
  have "map_option c_state (ledger_clean cfg now ?m rid) = Some Reserved"
    using status_call [OF _ assms(1,2), of Call_Recover undefined rid] assms(3)
    by (simp only: call_ok.simps run_call.simps ledger_call.simps)
  from status_cleaned [OF this] obtain r where "ledger_of t rid = Some r" "c_state (?f r) = Reserved" by auto
  then show ?thesis by (simp add: status_ledger split: if_splits)
qed

lemma in_flight_for_imp: "in_flight_for rid p \<Longrightarrow> in_flight p"
  by (auto simp: in_flight_def in_flight_for_def split: program.splits service_question.splits)

lemma in_flight_running:
  assumes "keeps srv p (\<lambda>r ph. ph = Outside) ph" "in_flight p"
  obtains a where "ph = Holding a Running" "\<And>rid. in_flight_for rid p \<longleftrightarrow> attempt_request a = rid"
proof -
  obtain request timeout k where p: "p = Ask (Call_Worker request timeout) k"
    using assms(2) by (auto simp: in_flight_def split: program.splits service_question.splits)
  have "kind_ok (the_store srv) (Call_Worker request timeout) (Answer undefined)" by (simp add: kind_ok_def)
  then obtain ph' where "ph' \<in> after_question ph (Call_Worker request timeout) (Answer undefined)"
    using assms(1) p by auto
  then obtain a where a: "ph = Holding a Running" "request_id request = attempt_request a"
    by (auto simp: after_question_def split: phase.splits stage.splits if_splits)
  then show thesis using that p by (simp add: in_flight_for_def)
qed

lemma count_le_zip:
  assumes "list_all2 R xs ys" "\<And>x y. R x y \<Longrightarrow> (if P y then 1 else 0) \<le> f x"
  shows "length (filter P ys) \<le> sum_list (map (f :: 'a \<Rightarrow> nat) xs)"
  using assms(1)
proof (induction rule: list_all2_induct)
  case (Cons x xs y ys)
  then show ?case using assms(2) [of x y] by (auto split: if_splits)
qed simp

lemma flight_pending_count:
  assumes "system_ok srv s phs"
  shows "length (filter (in_flight_for rid) (threads s)) \<le> sum_list (map (pending rid) phs)"
proof (rule count_le_zip)
  show "list_all2 (\<lambda>ph p. keeps srv p (\<lambda>r ph. ph = Outside) ph) phs (threads s)"
    using assms by (simp add: system_ok_def typed_threads_def)
  show "(if in_flight_for rid p then 1 else 0) \<le> pending rid ph" if "keeps srv p (\<lambda>r ph. ph = Outside) ph" for ph p
  proof (cases "in_flight_for rid p")
    case True
    show ?thesis
    proof (rule in_flight_running [OF that in_flight_for_imp [OF True]])
      fix a
      assume "ph = Holding a Running" and same: "\<And>rid. in_flight_for rid p \<longleftrightarrow> attempt_request a = rid"
      then show ?thesis using same [of rid] True by (simp only: pending_def phase.case stage.case if_True)
    qed
  qed simp
qed

lemma system_restart:
  assumes ok: "system_ok srv s phs" and clock: "clock_ok (the_store srv) now"
  shows "system_ok srv (restarted srv now s) []"
proof -
  let ?t = "requests (shared s)" and ?t' = "recover (the_store srv) now (requests (shared s))"
  have table: "table_ok ?t" using ok by (simp add: system_ok_def)
  have table': "table_ok ?t'"
    using run_call_ok [OF _ table, of Call_Recover "the_store srv" "the_cipher srv" now] by simp
  have le: "reservations ?t' rid \<le> reservations ?t rid" for rid
    using recover_not_reserved [OF table clock] by (simp add: reservations_def)
  have bound: "answered s rid + reservations ?t rid + sum_list (map (pending rid) phs) \<le>
      admitted s rid + refused s rid" for rid
    using ok by (simp add: system_ok_def)
  have "answered s rid + length (filter (in_flight_for rid) (threads s)) + reservations ?t' rid \<le>
      admitted s rid + refused s rid" for rid
    using le [of rid] bound [of rid] flight_pending_count [OF ok, of rid] by linarith
  then show ?thesis
    using table' by (simp add: system_ok_def restarted_def count_admission_def count_interrupted_def idle_gateway_def
        typed_threads_def held_def identities_ok_def le_SucI)
qed

lemma system_step_ok:
  assumes "system_step srv s s'" "system_ok srv s phs"
  shows "\<exists>phs'. system_ok srv s' phs'"
  using assms
proof (induction rule: system_step.induct)
  case (arrive request s credential)
  then show ?case using system_arrive keeps_infer by blast
next
  case (arrive_acknowledgement s credential ack)
  then show ?case using system_arrive keeps_acknowledge_request by blast
next
  case (arrive_health s credential)
  then show ?case using system_arrive keeps_health by blast
next
  case (arrive_profile s credential name)
  then show ?case using system_arrive keeps_task_profile by blast
next
  case (ask i s q k r)
  then show ?case using system_ask by blast
next
  case (change i s u k)
  then show ?case using system_change by blast
next
  case (maintenance now s)
  then show ?case using system_maintenance by blast
next
  case (restart now s)
  then show ?case using system_restart by blast
qed

definition reachable :: "service \<Rightarrow> system \<Rightarrow> bool" where
  "reachable srv s = (\<exists>t. table_ok t \<and> (system_step srv)\<^sup>*\<^sup>* (first_system t) s)"

lemma first_system_ok: "table_ok t \<Longrightarrow> system_ok srv (first_system t) []"
  by (simp add: system_ok_def first_system_def idle_gateway_def typed_threads_def held_def identities_ok_def
      reservations_def)

lemma reachable_ok:
  assumes "reachable srv s"
  shows "\<exists>phs. system_ok srv s phs"
proof -
  obtain t where t: "table_ok t" "(system_step srv)\<^sup>*\<^sup>* (first_system t) s"
    using assms by (auto simp: reachable_def)
  show ?thesis
    using t(2) by (induction rule: rtranclp_induct) (use first_system_ok [OF t(1)] system_step_ok in blast)+
qed

subsection \<open>What every reachable system satisfies\<close>

lemma length_held: "length (held phs) = sum_list (map (\<lambda>ph. length (held_by ph)) phs)"
  by (simp add: held_def length_concat comp_def)

lemma single_flight_count:
  assumes "system_ok srv s phs"
  shows "length (filter in_flight (threads s)) \<le> length (held phs)"
  unfolding length_held
proof (rule count_le_zip)
  show "list_all2 (\<lambda>ph p. keeps srv p (\<lambda>r ph. ph = Outside) ph) phs (threads s)"
    using assms by (simp add: system_ok_def typed_threads_def)
  show "(if in_flight p then 1 else 0) \<le> length (held_by ph)" if "keeps srv p (\<lambda>r ph. ph = Outside) ph" for ph p
  proof (cases "in_flight p")
    case True
    from in_flight_running [OF that True] obtain a where "ph = Holding a Running" by blast
    then show ?thesis by simp
  qed simp
qed

lemma quiescent_lane:
  assumes "system_ok srv s phs" "list_all (\<lambda>p. \<exists>r. p = Finish r) (threads s)"
  shows "lane (shared s) = None"
proof -
  have "list_all2 (\<lambda>ph p. keeps srv p (\<lambda>r ph. ph = Outside) ph) phs (threads s)"
    using assms(1) by (simp add: system_ok_def typed_threads_def)
  then have "list_all2 (\<lambda>ph p. ph = Outside) phs (threads s)"
    using assms(2) by (induction rule: list_all2_induct) auto
  then have "ph = Outside" if "ph \<in> set phs" for ph
    using that by (induction rule: list_all2_induct) auto
  then have "held phs = []" by (fastforce simp: held_def)
  then show ?thesis using assms(1) by (auto simp: system_ok_def split: option.splits)
qed

end
