(* ===== verification/Service_Flow.thy ===== *)
theory Service_Flow
  imports Service_Core Store_Refinement
begin

text \<open>
  What one call of the service does when nobody interferes: the sequence of questions it asks,
  the table it leaves and the response it gives, for a fresh request, a request that was
  completed before and a request in flight, and a bound on the interactions of any call.
\<close>

subsection \<open>Symbolic execution\<close>

lemma run_simps:
  "bind_p (Finish r) f = (case r of Inl e \<Rightarrow> throw e | Inr x \<Rightarrow> f x)"
  "bind_p (Ask q k) f = Ask q (\<lambda>r. bind_p (k r) f)"
  "bind_p (Change u c) f = Change u (\<lambda>s. bind_p (c s) f)"
  "try_except (Finish r) h = (case r of Inl e \<Rightarrow> h e | Inr x \<Rightarrow> give x)"
  "try_except (Ask q k) h = Ask q (\<lambda>r. try_except (k r) h)"
  "try_except (Change u c) h = Change u (\<lambda>s. try_except (c s) h)"
  "try_finally (Finish r) p = bind_p p (\<lambda>_. Finish r)"
  "try_finally (Ask q k) p = Ask q (\<lambda>r. try_finally (k r) p)"
  "try_finally (Change u c) p = Change u (\<lambda>s. try_finally (c s) p)"
  by (simp_all add: bind_p_def try_except_def try_finally_def)

lemma play_clock [simp]:
  "play (bind_p read_clock f) (Time now # rs) g = (case play (f now) rs g of (qs, x) \<Rightarrow> (Read_Clock # qs, x))"
  by (simp add: read_clock_def run_simps split: prod.split)

lemma play_transact [simp]:
  "play (bind_p (transact act) f) (Begun True # rs) g =
    (case play (case fst (act (requests g)) of Inl e \<Rightarrow> throw e | Inr x \<Rightarrow> f x) rs
       (g\<lparr>requests := snd (act (requests g))\<rparr>) of (qs, x) \<Rightarrow> (Begin_Transaction # qs, x))"
  by (simp add: transact_def run_simps split: prod.split)

subsection \<open>Rows a clean-up leaves alone\<close>

definition live :: "store_config \<Rightarrow> datetime \<Rightarrow> request_table \<Rightarrow> pystr \<Rightarrow> request_row \<Rightarrow> bool" where
  "live cfg now t rid r = (table_ok t \<and> clock_ok cfg now \<and> find_row rid t = Some r \<and> \<not> overdue now r \<and> \<not> stale cfg now r)"

lemma live_cleanup: "live cfg now t rid r \<Longrightarrow> find_row rid (cleanup cfg now t) = Some r"
  by (simp add: live_def find_row_cleaned cleaned_def)

lemma live_get_owned:
  assumes "live cfg now t rid r" "c_credential_hash r = owner" "c_request_digest r = d"
  shows "get_owned cfg rid owner (Some d) now t = (Inr (the_record r), cleanup cfg now t)"
  using assms live_cleanup [OF assms(1)] by (simp add: get_owned_eq live_def)

lemma live_admit:
  assumes "live cfg now t (request_id request) r" "c_credential_hash r = owner" "c_request_digest r = d"
  shows "admit cfg request owner d now t = (Inr (the_record r), cleanup cfg now t)"
  using assms live_cleanup [OF assms(1)] by (simp add: admit_existing live_def)

lemma live_start:
  assumes "live cfg now t rid r" "c_state r = Reserved"
  shows "\<exists>t'. mark_in_progress cfg rid attempt now t = (Inr (the_record (started attempt now r)), t') \<and>
    table_ok t' \<and> find_row rid t' = Some (started attempt now r)"
proof -
  let ?P = "\<lambda>r. c_request_id r = rid \<and> c_state r = Reserved"
  let ?t = "update_where ?P (started attempt now) (cleanup cfg now t)"
  have "table_ok t" using assms(1) by (simp add: live_def)
  moreover have "table_ok ?t"
    using assms(1) by (intro table_ok_update [where now = now] cleanup_ok) (auto simp: live_def started_def intro: row_move.start)
  moreover have "find_row rid ?t = Some (started attempt now r)"
    using live_cleanup [OF assms(1)] find_row_in [OF live_cleanup [OF assms(1)]] assms(2)
    by (simp add: find_row_update started_def)
  ultimately show ?thesis
    using mark_in_progress_eq [of t cfg rid attempt now] live_cleanup [OF assms(1)] assms(2) by simp
qed

lemma live_complete:
  assumes "live cfg now t rid r" "owns_attempt rid attempt r" "1 \<le> version"
    "encrypt cipher nonce (the_record r) answer = Inr (n, ct)"
  shows "\<exists>t'. complete cfg cipher nonce rid attempt media answer deployment version now t = (Inr True, t') \<and>
    table_ok t' \<and> find_row rid t' = Some (finished media n ct deployment version now r)"
proof -
  let ?t = "update_where (owns_attempt rid attempt) (finished media n ct deployment version now) (cleanup cfg now t)"
  have "table_ok t" using assms(1) by (simp add: live_def)
  moreover have "table_ok ?t"
    using assms(1,3) by (intro table_ok_update [where now = now] cleanup_ok)
      (auto simp: live_def finished_def owns_attempt_def intro: row_move.finish)
  moreover have "find_row rid ?t = Some (finished media n ct deployment version now r)"
    using live_cleanup [OF assms(1)] assms(2) by (simp add: find_row_update finished_def)
  moreover have "c_state r \<noteq> Expired" using assms(2) by (simp add: owns_attempt_def)
  ultimately show ?thesis
    using complete_eq [of t cfg cipher nonce rid attempt media answer deployment version now]
      live_cleanup [OF assms(1)] assms(2-4) by simp
qed

lemma existing_completed:
  assumes "row_ok r" "c_state r = Completed" "output_of (the_cipher srv) (the_record r) = Inr answer"
  shows "existing_response srv (the_record r) = Inr (Some (completed_response (the_record r)
    (the (c_producing_deployment_id r)) (the (c_producing_task_policy_version r)) answer))"
  using assms
  by (auto simp: existing_response_def the_record_simps row_ok_def full_output_def split: option.splits)

text \<open>A request that was completed before is answered from the table.\<close>

lemma infer_replays:
  assumes "validate_policy srv credential request now = Inr ()" "canonical_digest (sha256_hex srv) request = Inr d"
    "live (the_store srv) now (requests g) (request_id request) r" "c_state r = Completed"
    "c_credential_hash r = identity_hash credential" "c_request_digest r = d"
    "output_of (the_cipher srv) (the_record r) = Inr answer"
  shows "play (infer srv credential request) [Time now, Begun True] g =
    ([Read_Clock, Begin_Transaction], g\<lparr>requests := cleanup (the_store srv) now (requests g)\<rparr>,
     Some (Inr (completed_response (the_record r) (the (c_producing_deployment_id r))
       (the (c_producing_task_policy_version r)) answer)))"
proof -
  have "row_ok r" using assms(3) find_row_ok by (auto simp: live_def)
  from existing_completed [OF this assms(4,7)] live_admit [OF assms(3,5,6)] show ?thesis
    using assms(1,2) by (simp add: infer_def run_simps transact_def)
qed

subsection \<open>A fresh request\<close>

text \<open>The clock readings of an undisturbed attempt, all before the expiry.\<close>

definition in_time :: "store_config \<Rightarrow> inference_request \<Rightarrow> datetime \<Rightarrow> bool" where
  "in_time cfg request now = (clock_ok cfg now \<and> now < expires_at request)"

lemma in_time_live:
  assumes "in_time cfg request now" "comparable_expiry (request_expires_at request)"
    "table_ok t" "find_row rid t = Some r" "c_expires_at r = request_expires_at request" "\<not> is_retired (c_state r)"
  shows "live cfg now t rid r"
proof -
  obtain e where e: "strptime_utc (request_expires_at request) = Some e"
    using assms(2) by (auto simp: comparable_expiry_def split: option.splits)
  then have "\<not> overdue now r"
    using overdue_iff [of r e now] assms by (simp add: in_time_def expires_at_def clock_ok_def)
  then show ?thesis using assms by (simp add: live_def in_time_def stale_def)
qed

definition success_body :: "service \<Rightarrow> inference_request \<Rightarrow> worker_result \<Rightarrow> json" where
  "success_body srv request result = JObj
    [(py ''protocol_version'', JInt PROTOCOL_VERSION),
     (py ''request_id'', JStr (request_id request)),
     (py ''status'', JStr (py ''completed'')),
     (py ''output'', JObj
       [(py ''media_type'', JStr (media_type result)), (py ''content'', JStr (content result))]),
     (py ''provenance'', JObj
       [(py ''task_policy_version'', JInt TASK_POLICY_VERSION),
        (py ''deployment_id'', JStr (deployment_id (the_settings srv)))])]"

lemma admit_fresh:
  assumes "table_ok t" "in_time cfg request now" "strptime_utc (request_expires_at request) \<noteq> None"
    "find_row (request_id request) (cleanup cfg now t) = None"
    "open_count (cleanup cfg now t) < max_open_total cfg"
    "owner_open_count owner (cleanup cfg now t) < max_open_per_credential cfg"
  shows "\<exists>t'. admit cfg request owner d now t = (Inr (the_record (new_row request owner d now)), t') \<and>
    table_ok t' \<and> find_row (request_id request) t' = Some (new_row request owner d now)"
proof -
  let ?r = "new_row request owner d now" and ?u = "cleanup cfg now t"
  have a: "admit cfg request owner d now t = (Inr (the_record ?r), ?u @ [?r])"
    using admit_new [OF assms(1,4,3), of owner d] assms(2,5,6) by (simp add: in_time_def)
  have "table_ok (run_call cfg (undefined :: aead) now (Call_Admit request owner d) t)"
    using assms(1,3) by (intro run_call_ok) simp_all
  then have "table_ok (?u @ [?r])" using a by simp
  moreover have "find_row (request_id request) (?u @ [?r]) = Some ?r"
    using assms(4) by (simp add: find_row_append new_row_def)
  ultimately show ?thesis using a by blast
qed

definition attempt_questions :: "inference_request \<Rightarrow> active_attempt \<Rightarrow> rat \<Rightarrow> service_question list" where
  "attempt_questions request active timeout =
    [Read_Clock, Begin_Transaction, Draw_Uuid, Read_Clock, Begin_Transaction, Read_Clock,
     Call_Worker request timeout, Read_Clock, Draw_Nonce, Begin_Transaction, Read_Clock, Begin_Transaction]"

lemma infer_completes:
  assumes policy: "validate_policy srv credential request t0 = Inr ()"
    and digest: "canonical_digest (sha256_hex srv) request = Inr d"
    and ok: "table_ok (requests g)" and free: "lane g = None"
    and time: "in_time (the_store srv) request t0" "in_time (the_store srv) request t1"
      "in_time (the_store srv) request t2" "in_time (the_store srv) request t3" "in_time (the_store srv) request t4"
    and expiry: "comparable_expiry (request_expires_at request)"
    and fresh: "find_row (request_id request) (cleanup (the_store srv) t0 (requests g)) = None"
    and room: "open_count (cleanup (the_store srv) t0 (requests g)) < max_open_total (the_store srv)"
      "owner_open_count (identity_hash credential) (cleanup (the_store srv) t0 (requests g)) < max_open_per_credential (the_store srv)"
    and cipher: "faithful (the_cipher srv)"
    and readable: "utf8_encode (content result) = Inr bytes"
      "is_ascii_text (request_id request)" "is_ascii_text (identity_hash credential)" "is_ascii_text d"
  shows "\<exists>g'. play (infer srv credential request)
      [Time t0, Begun True, Uuid u, Time t1, Begun True, Time t2, Answer (Inr result),
       Time t3, Nonce n, Begun True, Time t4, Begun True] g =
    (attempt_questions request \<lparr>identity = next_identity g, attempt_request = request_id request\<rparr>
       (min (worker_timeout_seconds (the_settings srv)) (max (1 / 1000) (seconds_between (expires_at request) t2))), g',
     Some (Inr (success_body srv request result))) \<and>
    lane g' = None \<and> status (requests g') (request_id request) = Some Completed \<and>
    next_identity g \<in> finished_attempts g'"
proof -
  let ?rid = "request_id request" and ?owner = "identity_hash credential" and ?cfg = "the_store srv"
  let ?r0 = "new_row request ?owner d t0"
  let ?r1 = "started u t1 ?r0"
  obtain e where e: "strptime_utc (request_expires_at request) = Some e"
    using expiry by (auto simp: comparable_expiry_def split: option.splits)
  obtain a0 where a0: "admit ?cfg request ?owner d t0 (requests g) = (Inr (the_record ?r0), a0)"
      "table_ok a0" "find_row ?rid a0 = Some ?r0"
    using admit_fresh [OF ok time(1) _ fresh room] e by blast
  have "live ?cfg t1 a0 ?rid ?r0"
    by (rule in_time_live [OF time(2) expiry a0(2,3)]) (simp_all add: new_row_def is_retired_def)
  then obtain a1 where a1: "mark_in_progress ?cfg ?rid u t1 a0 = (Inr (the_record ?r1), a1)"
      "table_ok a1" "find_row ?rid a1 = Some ?r1"
    using live_start [of ?cfg t1 a0 ?rid ?r0 u] by (auto simp: new_row_def)
  have live1: "live ?cfg t3 a1 ?rid ?r1"
    by (rule in_time_live [OF time(4) expiry a1(2,3)]) (simp_all add: started_def new_row_def is_retired_def)
  have ok1: "row_ok ?r1" by (rule find_row_ok [OF a1(2,3)])
  obtain associated where "aad (the_record ?r1) = Inr associated"
    using readable ok1 by (auto simp: aad_def ascii_encode_def the_record_simps is_ascii_text_def started_def new_row_def)
  then obtain ct where enc: "encrypt (the_cipher srv) n (the_record ?r1) (content result) = Inr (n, ct)"
    using readable(1) by (simp add: encrypt_def)
  let ?r2 = "finished (media_type result) n ct (deployment_id (the_settings srv)) TASK_POLICY_VERSION t3 ?r1"
  have owns: "owns_attempt ?rid u ?r1" by (simp add: owns_attempt_def started_def new_row_def)
  have version: "1 \<le> TASK_POLICY_VERSION" by (simp add: TASK_POLICY_VERSION_def)
  obtain a2 where a2: "complete ?cfg (the_cipher srv) n ?rid u (media_type result) (content result)
      (deployment_id (the_settings srv)) TASK_POLICY_VERSION t3 a1 = (Inr True, a2)" "table_ok a2" "find_row ?rid a2 = Some ?r2"
    using live_complete [OF live1 owns version enc] by blast
  have live2: "live ?cfg t4 a2 ?rid ?r2"
    by (rule in_time_live [OF time(5) expiry a2(2,3)]) (simp_all add: finished_def started_def new_row_def is_retired_def)
  have get: "get_owned ?cfg ?rid ?owner (Some d) t4 a2 = (Inr (the_record ?r2), cleanup ?cfg t4 a2)"
    by (rule live_get_owned [OF live2]) (simp_all add: finished_def started_def new_row_def)
  have ok2: "row_ok ?r2" by (rule find_row_ok [OF a2(2,3)])
  have out: "output_of (the_cipher srv) (the_record ?r2) = Inr (content result)"
    using complete_reads_back [OF a1(2) cipher a2(1)] a2(3) by auto
  have body: "existing_response srv (the_record ?r2) = Inr (Some (success_body srv request result))"
    using existing_completed [OF ok2 _ out] ok2
    by (simp add: completed_response_def success_body_def the_record_simps finished_def started_def new_row_def text_or_null_def)
  have ok0: "row_ok ?r0" by (rule find_row_ok [OF a0(2,3)])
  have first: "r_state (the_record ?r0) = Reserved" "r_request_id (the_record ?r0) = ?rid"
    using ok0 by (simp_all add: the_record_simps new_row_def)
  then have none: "existing_response srv (the_record ?r0) = Inr None" by (simp add: existing_response_def)
  have "\<not> expires_at request \<le> t1" "\<not> expires_at request \<le> t2" using time by (simp_all add: in_time_def)
  moreover have "status (cleanup ?cfg t4 a2) ?rid = Some Completed"
    using live_cleanup [OF live2] by (simp add: status_def finished_def)
  ultimately show ?thesis
    using policy digest a0(1) a1(1) a2(1) get body first none free
    by (simp add: infer_def run_simps transact_def read_clock_def claim_lane_def run_attempt_def attempt_body_def
        refuse_expired_def call_worker_def finish_attempt_def release_lane_def attempt_questions_def Let_def)
qed

subsection \<open>The bound of an inference call\<close>

text \<open>
  The price of a wait, of a call of the worker, and of any other question.  The interactions of
  \<open>infer\<close> are one wait and at most five others, or one call of the worker and at most thirteen
  others; with three price lists this counts the questions, those of a wait, and the blocking ones.
\<close>

definition price :: "nat \<Rightarrow> nat \<Rightarrow> nat \<Rightarrow> service_question \<Rightarrow> nat" where
  "price waiting calling other q =
    (case q of Wait_For _ _ \<Rightarrow> waiting | Call_Worker _ _ \<Rightarrow> calling | _ \<Rightarrow> other)"

lemma price_simps [simp]:
  "price a b c Read_Clock = c" "price a b c Draw_Uuid = c" "price a b c Draw_Nonce = c"
  "price a b c Begin_Transaction = c" "price a b c (Wait_For x l) = a" "price a b c (Call_Worker request l) = b"
  by (simp_all add: price_def)

abbreviation priced :: "nat \<Rightarrow> nat \<Rightarrow> nat \<Rightarrow> 'a service_program \<Rightarrow> nat \<Rightarrow> bool" where
  "priced a b c \<equiv> costs_within (price a b c)"

lemma priced_clock: "priced a b c read_clock c"
  by (simp add: read_clock_def)

lemma priced_transact: "priced a b c (transact act) c"
  by (simp add: transact_def)

lemma priced_pure: "priced a b c (Finish x) 0"
  by simp

lemma priced_lookup:
  "2 * c \<le> N \<Longrightarrow> (\<And>x. priced a b c (f x) (N - 2 * c)) \<Longrightarrow>
    priced a b c (bind_p read_clock (\<lambda>now. bind_p (transact (act now)) f)) N"
  by (rule costs_bind [OF priced_clock costs_bind [OF priced_transact]]) (simp_all add: mult_2)

lemma priced_reload: "2 * c \<le> N \<Longrightarrow> priced a b c (reload_after_attempt srv rid credential digest) N"
  unfolding reload_after_attempt_def
  by (erule priced_lookup) (rule costs_bind [OF priced_pure]; simp split: option.split)

lemma priced_wait: "a + 3 * c \<le> N \<Longrightarrow> priced a b c (wait_and_reload srv active credential digest expiry) N"
  unfolding wait_and_reload_def by (rule costs_bind [OF priced_clock]) (simp_all add: priced_reload)

lemma priced_join: "a + 3 * c \<le> N \<Longrightarrow> priced a b c (join_active srv found credential digest) N"
  unfolding join_active_def
  by (rule costs_bind [where n = 0]) (simp_all add: read_lane_def priced_wait priced_reload split: option.split)

lemma priced_worker_exception: "2 * c \<le> N \<Longrightarrow> priced a b c (worker_exception srv rid attempt e) N"
  unfolding worker_exception_def by (auto intro!: priced_lookup split: exn.split)

lemma priced_call_worker: "b + 2 * c \<le> N \<Longrightarrow> priced a b c (call_worker srv request rid attempt timeout) N"
  unfolding call_worker_def by (rule costs_except [where n = b]) (simp_all add: priced_worker_exception)

lemma priced_finish_attempt: "5 * c \<le> N \<Longrightarrow> priced a b c (finish_attempt srv credential digest rid attempt result) N"
proof -
  assume N: "5 * c \<le> N"
  have "priced a b c (bind_p (Finish r) (\<lambda>response.
      case response of None \<Rightarrow> throw e | Some body \<Rightarrow> give body)) n" for r :: "json option result" and e n
    by (rule costs_bind [OF priced_pure]) (simp_all split: option.split)
  then have "priced a b c (if \<not> d then throw e else bind_p read_clock (\<lambda>now.
      bind_p (transact (get_owned cfg rid owner digest now)) (\<lambda>completed.
      bind_p (Finish (existing_response srv completed)) (\<lambda>response.
      case response of None \<Rightarrow> throw e' | Some body \<Rightarrow> give body)))) (N - 3 * c)" for d e e' cfg owner digest
    using N by (auto intro!: priced_lookup)
  moreover have "N - c - c - c = N - 3 * c" "c \<le> N - c" "c \<le> N - c - c" "c \<le> N" using N by simp_all
  ultimately show ?thesis unfolding finish_attempt_def
    by (intro costs_bind [OF priced_clock]) (auto intro!: costs_bind [OF priced_transact])
qed

text \<open>An expired request costs one lookup and ends; otherwise the check is free.\<close>

lemma priced_refuse:
  assumes "c \<le> N" "priced a b c p N"
  shows "priced a b c (bind_p (refuse_expired srv credential request digest rid now) (\<lambda>_. p)) N"
proof (cases "expires_at request \<le> now")
  case True
  have "priced a b c (bind_p (bind_p (transact act) (\<lambda>_ :: request_record. throw e)) (\<lambda>_ :: unit. p)) N"
    for act and e
    using assms(1) by (auto simp: transact_def bind_p_def split: sum.split)
  then show ?thesis using True by (simp add: refuse_expired_def)
next
  case False
  then show ?thesis using assms(2) by (simp add: refuse_expired_def on_result_simps)
qed

lemma priced_worker_failure: "2 * c \<le> N \<Longrightarrow> priced a b c (bind_p (worker_exception srv rid attempt e) f) N"
  unfolding worker_exception_def
  by (auto simp: bind_assoc on_result_simps intro!: priced_lookup split: exn.split)

lemma priced_call_finish:
  assumes "b + 5 * c \<le> N"
  shows "priced a b c (bind_p (call_worker srv request rid attempt timeout)
    (finish_attempt srv credential digest rid attempt)) N"
proof -
  have "priced a b c (bind_p (case r of Inl e \<Rightarrow> worker_exception srv rid attempt e | Inr x \<Rightarrow> give x)
      (finish_attempt srv credential digest rid attempt)) (N - b)" for r
    using assms by (cases r) (simp_all add: on_result_simps priced_worker_failure priced_finish_attempt)
  then show ?thesis using assms by (simp add: call_worker_def try_except_def bind_p_def)
qed

lemma priced_attempt_body:
  assumes "b + 8 * c \<le> N"
  shows "priced a b c (attempt_body srv credential request digest rid attempt) N"
proof -
  have "N - c - c - c = N - 3 * c" "c \<le> N" "c \<le> N - c" "c \<le> N - c - c" "b + 5 * c \<le> N - 3 * c" using assms by simp_all
  then show ?thesis unfolding attempt_body_def Let_def
    by (intro costs_bind [OF priced_clock] priced_refuse costs_bind [OF priced_transact])
      (simp_all add: priced_call_finish)
qed

lemma priced_store_exception: "2 * c \<le> N \<Longrightarrow> priced a b c (store_exception srv rid attempt e) N"
  unfolding store_exception_def by (auto intro!: priced_lookup)

lemma priced_run_attempt:
  assumes "b + 11 * c \<le> N"
  shows "priced a b c (run_attempt srv credential request digest rid active) N"
proof -
  have "priced a b c (try_finally (try_except (attempt_body srv credential request digest rid attempt)
      (store_exception srv rid attempt)) (release_lane active)) (N - c)" for attempt
    by (rule costs_finally [where n = "b + 10 * c"], rule costs_except [where n = "b + 8 * c"])
      (use assms in \<open>simp_all add: priced_attempt_body priced_store_exception release_lane_def\<close>)
  then show ?thesis using assms by (simp add: run_attempt_def)
qed

lemma priced_infer:
  assumes "b + 13 * c \<le> N" "a + 5 * c \<le> N"
  shows "priced a b c (infer srv credential request) N"
proof -
  have admit: "priced a b c (try_except (transact act) (\<lambda>e. throw (h e))) c" for act :: "request_record transaction" and h
    by (rule costs_except [OF priced_transact]) simp_all
  have claim: "priced a b c (claim_lane rid) 0" for rid by (simp add: claim_lane_def split: option.split)
  have "N - c - c = N - 2 * c" "c \<le> N" "c \<le> N - c" "b + 11 * c \<le> N - 2 * c" "a + 3 * c \<le> N - 2 * c" using assms by simp_all
  then show ?thesis
    unfolding infer_def
    by (intro costs_bind [OF priced_clock] costs_bind [OF admit] costs_bind [OF priced_pure])
      (auto simp: split: option.split request_state.split
        intro!: costs_bind [OF claim] priced_wait priced_join priced_run_attempt)
qed

text \<open>The time limits of the two blocking questions, in terms of the replies \<open>R\<close> of the environment.\<close>

definition limited :: "service \<Rightarrow> inference_request \<Rightarrow> service_reply set \<Rightarrow> service_question \<Rightarrow> bool" where
  "limited srv request R q =
    (case q of
       Wait_For active l \<Rightarrow> attempt_request active = request_id request \<and>
         l \<le> worker_timeout_seconds (the_settings srv) + 1 \<and>
         min (worker_timeout_seconds (the_settings srv) + 1) (1 / 1000) \<le> l
     | Call_Worker sent l \<Rightarrow> sent = request \<and>
         (\<exists>r \<in> R. the_time r < expires_at request \<and>
           l = min (worker_timeout_seconds (the_settings srv))
             (max (1 / 1000) (seconds_between (expires_at request) (the_time r))))
     | _ \<Rightarrow> True)"

lemma limited_simps [simp]:
  "limited srv request R Read_Clock" "limited srv request R Draw_Uuid" "limited srv request R Draw_Nonce"
  "limited srv request R Begin_Transaction"
  by (simp_all add: limited_def)

named_theorems limits \<open>the limits of the blocking questions\<close>

declare among_bind [limits] among_except [limits] among_finally [limits]

abbreviation bounded :: "service \<Rightarrow> inference_request \<Rightarrow> service_reply set \<Rightarrow> 'a service_program \<Rightarrow> bool" where
  "bounded srv request R \<equiv> asks_among R (limited srv request R)"

lemma bounded_simple [limits]:
  "bounded srv request R read_clock" "bounded srv request R (transact act)" "bounded srv request R (Finish x)"
  "bounded srv request R (release_lane active)" "bounded srv request R (claim_lane rid)"
  by (simp_all add: read_clock_def transact_def release_lane_def claim_lane_def split: option.split)

lemma bounded_clock: "(\<And>r. r \<in> R \<Longrightarrow> bounded srv request R (f (the_time r))) \<Longrightarrow> bounded srv request R (bind_p read_clock f)"
  by (simp add: read_clock_def bind_p_def)

lemma bounded_reload [limits]: "bounded srv request R (reload_after_attempt srv rid credential digest)"
  unfolding reload_after_attempt_def by (intro limits) (auto split: option.split)

lemma bounded_wait:
  "attempt_request active = request_id request \<Longrightarrow> bounded srv request R (wait_and_reload srv active credential digest expiry)"
  unfolding wait_and_reload_def by (intro limits) (auto simp: limited_def intro: limits)

lemma bounded_join:
  "r_request_id found = request_id request \<Longrightarrow> bounded srv request R (join_active srv found credential digest)"
  unfolding join_active_def
  by (intro limits) (auto simp: read_lane_def intro: limits bounded_wait split: option.split)

lemma bounded_worker_exception [limits]: "bounded srv request R (worker_exception srv rid attempt e)"
  unfolding worker_exception_def by (cases e) (auto intro!: limits)

lemma bounded_finish [limits]: "bounded srv request R (finish_attempt srv credential digest rid attempt result)"
  unfolding finish_attempt_def
  by (intro limits) (auto intro!: limits split: option.split)

lemma bounded_refuse:
  "(\<not> expires_at request \<le> now \<Longrightarrow> bounded srv request R p) \<Longrightarrow>
    bounded srv request R (bind_p (refuse_expired srv credential request digest rid now) (\<lambda>_. p))"
  by (cases "expires_at request \<le> now")
    (auto simp: refuse_expired_def bind_assoc on_result_simps intro!: limits)

lemma bounded_call:
  "r \<in> R \<Longrightarrow> the_time r < expires_at request \<Longrightarrow>
    bounded srv request R (call_worker srv request rid attempt (min (worker_timeout_seconds (the_settings srv))
      (max (1 / 1000) (seconds_between (expires_at request) (the_time r)))))"
  unfolding call_worker_def by (intro limits) (auto simp: limited_def)

lemma bounded_attempt_body [limits]: "bounded srv request R (attempt_body srv credential request digest rid attempt)"
  unfolding attempt_body_def Let_def
  by (rule bounded_clock, rule bounded_refuse, rule among_bind [OF bounded_simple(2)], rule bounded_clock,
      rule bounded_refuse, rule among_bind [OF bounded_call]) (auto intro: limits)

lemma bounded_run_attempt [limits]: "bounded srv request R (run_attempt srv credential request digest rid active)"
proof -
  have "bounded srv request R (store_exception srv rid attempt e)" for attempt e
    unfolding store_exception_def by (auto intro!: limits)
  then show ?thesis unfolding run_attempt_def by (auto intro!: limits)
qed

lemma admit_record_id: "fst (admit cfg request owner digest now t) = Inr found \<Longrightarrow> r_request_id found = request_id request"
proof -
  have select: "select_request rid t = Inr (Some r) \<Longrightarrow> r_request_id r = rid" for rid t r
    by (auto simp: select_request_def record_of_row_def bind_res_def split: option.splits sum.splits dest: find_row_in)
  assume "fst (admit cfg request owner digest now t) = Inr found"
  then show ?thesis
    by (auto simp: admit_def reselect_def result_simps act_bind_def split: sum.splits option.splits prod.splits if_splits
        dest!: select)
qed

lemma bounded_admitted:
  assumes "\<And>found. r_request_id found = request_id request \<Longrightarrow> bounded srv request R (f found)"
  shows "bounded srv request R (bind_p (try_except (transact (admit cfg request owner digest now)) (\<lambda>e. throw (h e))) f)"
  using assms admit_record_id
  by (auto simp: transact_def try_except_def bind_p_def split: sum.split)

lemma bounded_infer: "bounded srv request R (infer srv credential request)"
  unfolding infer_def
  by (intro bounded_admitted limits)
    (auto split: option.split request_state.split intro!: limits bounded_wait bounded_join)

end
