(* ===== verification/Store_Initialize.thy ===== *)
theory Store_Initialize
  imports Store_Contract
begin

text \<open>
  store.py, \<open>initialize\<close>: the database file as it is found at start-up, its tables, their
  columns and the version row, and what the transaction of start-up makes of it.  The I/O before
  the transaction and after its commit is in Gateway_Startup.
\<close>

record database =
  db_tables :: "pystr set"
  db_columns :: "pystr \<Rightarrow> pystr set"
  db_versions :: "int option list"
  db_rows :: request_table

text \<open>
  \<open>db_versions\<close> lists the \<open>version\<close> values of the rows with \<open>singleton = 1\<close>, \<open>None\<close> for a
  value that is no integer.
\<close>

definition SCHEMA_VERSION :: int where "SCHEMA_VERSION = 1"

definition METADATA_COLUMNS :: "pystr list" where
  "METADATA_COLUMNS = map py [''singleton'', ''version'']"

definition REQUEST_COLUMNS :: "pystr list" where
  "REQUEST_COLUMNS = map py
    [''request_id'', ''credential_hash'', ''request_digest'', ''task_id'', ''task_version'',
     ''expires_at'', ''state'', ''attempt_id'', ''output_media_type'', ''output_nonce'',
     ''output_ciphertext'', ''producing_deployment_id'', ''producing_task_policy_version'',
     ''error_code'', ''error_retryable'', ''error_retry_after_seconds'',
     ''acknowledgement_disposition'', ''created_at'', ''updated_at'', ''acknowledged_at'']"

definition metadata_table :: pystr where "metadata_table = py ''schema_metadata''"
definition requests_table :: pystr where "requests_table = py ''inference_requests''"

definition create_schema :: "(database, unit) action" where
  "create_schema = act_update (\<lambda>db. db\<lparr>
     db_tables := {metadata_table, requests_table},
     db_columns := (db_columns db)(metadata_table := set METADATA_COLUMNS,
       requests_table := set REQUEST_COLUMNS),
     db_versions := [Some 1],
     db_rows := []\<rparr>)"

definition validate_schema_columns :: "(database, unit) action" where
  "validate_schema_columns db =
    act_check (db_columns db metadata_table = set METADATA_COLUMNS \<and>
        db_columns db requests_table = set REQUEST_COLUMNS)
      (StoreFault ''database schema columns do not match the supported version'') db"

text \<open>The version query fails when the table lacks one of the columns it names.\<close>

definition version_rows :: "database \<Rightarrow> int option list result" where
  "version_rows db =
    (if set METADATA_COLUMNS \<subseteq> db_columns db metadata_table then Inr (db_versions db)
     else Inl OperationalError)"

definition initialize :: "store_config \<Rightarrow> datetime \<Rightarrow> (database, unit) action" where
  "initialize cfg now = atomically (
     act_bind (act_query (\<lambda>db. Inr (db_tables db))) (\<lambda>tables.
     act_bind (if tables = {} then create_schema
         else act_check (tables = {metadata_table, requests_table})
           (StoreFault ''database schema is incomplete or unversioned'')) (\<lambda>_.
     act_bind (act_query version_rows) (\<lambda>versions.
     act_bind (case versions of
           [Some version] \<Rightarrow>
             act_check (version = SCHEMA_VERSION)
               (StoreFault ''database schema version is not supported'')
         | _ \<Rightarrow> act_raise (StoreFault ''database schema metadata is invalid'')) (\<lambda>_.
     act_bind validate_schema_columns (\<lambda>_.
     act_update (\<lambda>db. db\<lparr>db_rows := recover cfg now (db_rows db)\<rparr>)))))))"

definition supported_schema :: "database \<Rightarrow> bool" where
  "supported_schema db =
    (db_tables db = {metadata_table, requests_table} \<and> db_versions db = [Some SCHEMA_VERSION] \<and>
     db_columns db metadata_table = set METADATA_COLUMNS \<and>
     db_columns db requests_table = set REQUEST_COLUMNS)"

lemma tables_differ: "metadata_table \<noteq> requests_table"
  by (simp add: metadata_table_def requests_table_def)

lemma recover_Nil: "recover cfg now [] = []"
  by (simp add: recover_def cleanup_def update_where_def)

lemma initialize_iff:
  "fst (initialize cfg now db) = Inr () \<longleftrightarrow> db_tables db = {} \<or> supported_schema db"
proof (cases "db_tables db = {}")
  case True
  then show ?thesis
    using tables_differ
    by (simp add: initialize_def result_simps create_schema_def act_bind_def [of "act_update _"]
        version_rows_def validate_schema_columns_def SCHEMA_VERSION_def act_bind_def)
next
  case False
  then show ?thesis
    by (auto simp: initialize_def result_simps supported_schema_def version_rows_def
        validate_schema_columns_def act_bind_def split: list.splits option.splits)
qed

lemma initialize_supported:
  "supported_schema db \<Longrightarrow> initialize cfg now db = (Inr (), db\<lparr>db_rows := recover cfg now (db_rows db)\<rparr>)"
  by (simp add: initialize_def atomically_def supported_schema_def version_rows_def
      validate_schema_columns_def act_bind_def act_simps)

lemma initialize_fresh:
  assumes "db_tables db = {}"
  shows "\<exists>db'. initialize cfg now db = (Inr (), db') \<and> supported_schema db' \<and> db_rows db' = []"
  using assms tables_differ
  by (simp add: initialize_def atomically_def supported_schema_def version_rows_def create_schema_def
      validate_schema_columns_def act_bind_def act_simps SCHEMA_VERSION_def recover_Nil)

lemma initialize_refused:
  "\<not> (db_tables db = {} \<or> supported_schema db) \<Longrightarrow> \<exists>e. initialize cfg now db = (Inl e, db)"
  using initialize_iff [of cfg now db]
  by (cases "initialize cfg now db"; cases "fst (initialize cfg now db)")
    (auto simp: initialize_def dest: atomically_error)

text \<open>A second start-up finds the schema the first one made.\<close>

lemma initialize_again:
  "initialize cfg now db = (Inr (), db') \<Longrightarrow> fst (initialize cfg now' db') = Inr ()"
proof -
  assume a: "initialize cfg now db = (Inr (), db')"
  then have "db_tables db = {} \<or> supported_schema db" using initialize_iff [of cfg now db] by simp
  then have "supported_schema db'"
  proof
    assume "db_tables db = {}"
    then show ?thesis using initialize_fresh [of db cfg now] a by auto
  next
    assume s: "supported_schema db"
    then show ?thesis using initialize_supported [OF s, of cfg now] a by (auto simp: supported_schema_def)
  qed
  then show ?thesis by (simp add: initialize_iff)
qed

end
