(* ===== verification/Contracts_Digest.thy ===== *)
theory Contracts_Digest
  imports Contracts_Request
begin

text \<open>
  The digest of a request: every validated request has one, and the bytes that are hashed are
  the same for two requests precisely when the requests agree in every field, the temperature by
  value and the response schema up to key order and the spelling of numbers.
\<close>

subsection \<open>Every validated request has a digest\<close>

lemma utf8_encode_unicode: "(\<exists>b. utf8_encode s = Inr b) \<longleftrightarrow> is_unicode s"
  by (induction s) (auto simp: is_unicode_def bind_res_eq_Inr split: option.splits)

lemma is_unicode_append [simp]: "is_unicode (s @ t) \<longleftrightarrow> is_unicode s \<and> is_unicode t"
  by (simp add: is_unicode_def)

lemma is_unicode_Cons [simp]: "is_unicode (c # s) \<longleftrightarrow> utf8_char c \<noteq> None \<and> is_unicode s"
  by (simp add: is_unicode_def)

lemma is_unicode_Nil [simp]: "is_unicode []"
  by (simp add: is_unicode_def)

lemma utf8_char_ascii [simp]: "c < 128 \<Longrightarrow> utf8_char c = Some [c]"
  by (simp add: utf8_char_def)

lemma is_unicode_concat: "(\<And>s. s \<in> set ss \<Longrightarrow> is_unicode s) \<Longrightarrow> is_unicode (concat ss)"
  by (induction ss) auto

lemma is_unicode_ascii: "list_all (\<lambda>c. c < 128) s \<Longrightarrow> is_unicode s"
  by (auto simp: is_unicode_def list_all_iff)

lemma hex_char_less: "d < 16 \<Longrightarrow> hex_char d < 128"
  by (simp add: hex_char_def)

lemma is_unicode_escape: "utf8_char c \<noteq> None \<Longrightarrow> is_unicode (escape_char c)"
  by (auto simp: escape_char_def less_mult_imp_div_less hex_char_less)

lemma is_unicode_json_string: "is_unicode s \<Longrightarrow> is_unicode (json_string s)"
  unfolding json_string_def
  by (auto simp: is_unicode_def list_all_iff intro!: is_unicode_concat [unfolded is_unicode_def list_all_iff, rule_format])
    (use is_unicode_escape in \<open>auto simp: is_unicode_def list_all_iff\<close>)

lemma is_unicode_comma_join: "(\<And>s. s \<in> set ss \<Longrightarrow> is_unicode s) \<Longrightarrow> is_unicode (comma_join ss)"
  by (induction ss rule: comma_join.induct) auto

lemma is_unicode_number: "list_all number_char t \<Longrightarrow> is_unicode t"
  by (rule is_unicode_ascii) (auto simp: list_all_iff number_char_def is_digit_def)

definition encodable :: "json \<Rightarrow> bool" where
  "encodable v = (\<exists>t. encode_json True v = Inr t \<and> is_unicode t)"

lemma encodable_bytes: "encodable v \<longleftrightarrow> (\<exists>b. encode_json_bytes True v = Inr b)"
  by (auto simp: encodable_def encode_json_bytes_def bind_res_eq_Inr simp flip: utf8_encode_unicode)

lemma encodable_str: "is_unicode s \<Longrightarrow> encodable (JStr s)"
  by (simp add: encodable_def is_unicode_json_string)

lemma encodable_bool: "encodable (JBool b)"
  by (simp add: encodable_def is_unicode_ascii py_def)

lemma map_res_all:
  "(\<And>x. x \<in> set xs \<Longrightarrow> \<exists>y. f x = Inr y \<and> P y) \<Longrightarrow> \<exists>ys. map_res f xs = Inr ys \<and> (\<forall>y \<in> set ys. P y)"
  by (induction xs) (auto, fastforce)

lemma encodable_list:
  assumes "\<And>v. v \<in> set vs \<Longrightarrow> encodable v"
  shows "encodable (JList vs)"
proof -
  obtain ts where "map_res (encode_json True) vs = Inr ts" "\<forall>t \<in> set ts. is_unicode t"
    using map_res_all [of vs "encode_json True" is_unicode] assms by (auto simp: encodable_def)
  then show ?thesis by (auto simp: encodable_def intro!: is_unicode_comma_join)
qed

lemma encodable_obj:
  assumes "\<And>k v. (k, v) \<in> set ob \<Longrightarrow> is_unicode k \<and> encodable v"
  shows "encodable (JObj ob)"
proof -
  let ?f = "\<lambda>kv. bind_res (encode_json True (snd kv)) (\<lambda>t. Inr (json_string (fst kv) @ [58] @ t))"
  have "\<exists>y. ?f x = Inr y \<and> is_unicode y" if "x \<in> set (key_order True ob)" for x
    using that assms [of "fst x" "snd x"] by (auto simp: encodable_def is_unicode_json_string)
  then obtain ts where "map_res ?f (key_order True ob) = Inr ts" "\<forall>t \<in> set ts. is_unicode t"
    using map_res_all [of "key_order True ob" ?f is_unicode] by blast
  then show ?thesis by (auto simp: encodable_def intro!: is_unicode_comma_join)
qed

lemma encodable_number: "in_finite_range d = Inr d \<Longrightarrow> \<exists>t. encode_json_number d = Inr t \<and> is_unicode t"
  using encode_number_emit [of d] emit_number_chars is_unicode_number
  by (auto simp: encode_json_number_def split: prod.splits)

lemma adjusted_le:
  assumes "coef \<noteq> 0" "of_nat coef * 10 powi e \<le> (1::rat)"
  shows "adjusted coef e \<le> 0"
proof (rule ccontr)
  assume a: "\<not> adjusted coef e \<le> 0"
  let ?L = "length (digits10 coef)"
  have L: "0 < ?L" by simp
  have low: "10 ^ (?L - 1) \<le> coef"
  proof (cases "?L = 1")
    case True
    then show ?thesis using assms(1) by simp
  next
    case False
    then have "0 < ?L - 1" "\<not> ?L \<le> ?L - 1" using L by linarith+
    then show ?thesis using length_digits10_le [of "?L - 1" coef] by simp
  qed
  have "(1::rat) < 10 powi (int (?L - 1) + e)"
    using a L by (simp add: adjusted_def one_less_power_int)
  also have "\<dots> = of_nat (10 ^ (?L - 1)) * 10 powi e" by (simp add: power_int_add)
  also have "\<dots> \<le> of_nat coef * 10 powi e" using low by (intro mult_right_mono) (simp_all only: of_nat_le_iff, simp)
  finally show False using assms(2) by simp
qed

lemma round_half_even_le: "0 < k \<Longrightarrow> round_half_even n k \<le> n div k + 1"
  by (auto simp: round_half_even_def Let_def)

text \<open>Rounding to the context keeps a number that is at most one far below every limit.\<close>

lemma context_round_adjusted:
  assumes "adjusted coef e \<le> 0" "context_round coef e = (c, e')"
  shows "adjusted c e' \<le> 1"
proof (cases "length (digits10 coef) \<le> CONTEXT_DIGITS")
  case True
  then show ?thesis using assms by (auto simp: context_round_def)
next
  case False
  define x where "x = length (digits10 coef) - CONTEXT_DIGITS"
  have x: "length (digits10 coef) = x + CONTEXT_DIGITS" "0 < x" using False by (simp_all add: x_def)
  then have c: "c = round_half_even coef (10 ^ x)" "e' = e + int x"
    using assms(2) by (auto simp: context_round_def x_def Let_def)
  have "coef < 10 ^ (x + CONTEXT_DIGITS)" using length_digits10_le [of "x + CONTEXT_DIGITS" coef] x by simp
  then have "coef div 10 ^ x < 10 ^ CONTEXT_DIGITS"
    by (intro less_mult_imp_div_less) (simp add: power_add mult.commute)
  then have "c < 10 ^ Suc CONTEXT_DIGITS"
    using round_half_even_le [of "10 ^ x" coef] c(1) by (simp add: CONTEXT_DIGITS_def)
  then have "length (digits10 c) \<le> Suc CONTEXT_DIGITS" using length_digits10_le [of "Suc CONTEXT_DIGITS" c] by simp
  then show ?thesis using assms(1) x c(2) by (simp add: adjusted_def)
qed

lemma in_finite_range_small:
  assumes "dec_coef d = 0 \<or> adjusted (dec_coef d) (dec_exp d) \<le> 0"
  shows "in_finite_range d = Inr d"
proof -
  obtain c e where ce: "context_round (dec_coef d) (dec_exp d) = (c, e)" by fastforce
  have "c = 0 \<or> adjusted c e \<le> 1"
  proof (cases "dec_coef d = 0")
    case True
    then show ?thesis using ce by (auto simp: context_round_def CONTEXT_DIGITS_def digits10.simps)
  next
    case False
    then show ?thesis using context_round_adjusted [OF _ ce] assms by auto
  qed
  then show ?thesis
    by (auto simp: in_finite_range_def abs_exceeds_def ce CONTEXT_EMAX_def above_binary64_def Let_def)
qed

lemma unit_interval_in_range:
  assumes "0 \<le> dec_value d" "dec_value d \<le> 1"
  shows "in_finite_range d = Inr d"
proof (rule in_finite_range_small)
  show "dec_coef d = 0 \<or> adjusted (dec_coef d) (dec_exp d) \<le> 0"
  proof (cases "dec_coef d = 0")
    case False
    then have "0 < of_nat (dec_coef d) * (10 powi dec_exp d :: rat)" by simp
    then have "of_nat (dec_coef d) * (10 powi dec_exp d :: rat) \<le> 1"
      using assms by (auto simp: dec_value_def split: if_splits)
    then show ?thesis using adjusted_le False by blast
  qed simp
qed

lemma small_int_in_range:
  assumes "\<bar>n\<bar> < 10 ^ 28"
  shows "bind_res (int_decimal n) in_finite_range = Inr (Dec (n < 0) (nat \<bar>n\<bar>) 0)"
proof -
  have "nat \<bar>n\<bar> < 10 ^ 28" using assms by (simp add: nat_less_iff)
  then have l: "length (digits10 (nat \<bar>n\<bar>)) \<le> 28" using length_digits10_le [of 28] by simp
  then have "context_round (nat \<bar>n\<bar>) 0 = (nat \<bar>n\<bar>, 0)" by (simp add: context_round_def CONTEXT_DIGITS_def)
  then show ?thesis
    using l by (simp add: int_decimal_def MAX_INT_DIGITS_def in_finite_range_def abs_exceeds_def
        adjusted_def CONTEXT_EMAX_def above_binary64_def)
qed

lemma encodable_int: "\<bar>n\<bar> < 10 ^ 28 \<Longrightarrow> encodable (JInt n)"
  using small_int_in_range [of n] encodable_number [of "Dec (n < 0) (nat \<bar>n\<bar>) 0"]
  by (auto simp: encodable_def bind_res_eq_Inr int_decimal_def split: if_splits)

lemma encodable_unit_float: "0 \<le> dec_value d \<Longrightarrow> dec_value d \<le> 1 \<Longrightarrow> encodable (JFloat d)"
  using encodable_number [OF unit_interval_in_range] by (auto simp: encodable_def)

text \<open>What validation leaves of a request, as far as its digest needs it.\<close>

definition sound_request :: "inference_request \<Rightarrow> bool" where
  "sound_request r =
    (protocol_version r = PROTOCOL_VERSION \<and> uuid4_text (request_id r) \<and>
     rfc3339_shape (request_expires_at r) \<and> strptime_utc (request_expires_at r) \<noteq> None \<and>
     task_id_ok (task_id (task r)) \<and> 1 \<le> task_version (task r) \<and> task_version (task r) \<le> 2147483647 \<and>
     input_modalities (requirements r) = [py ''text''] \<and>
     output_media_type (requirements r) = py ''application/json'' \<and> structured_output (requirements r) \<and>
     1 \<le> max_output_tokens (requirements r) \<and> max_output_tokens (requirements r) \<le> MAX_OUTPUT_TOKENS \<and>
     map msg_role (messages (generation r)) = [py ''system'', py ''user''] \<and>
     list_all (\<lambda>m. is_unicode (msg_content m) \<and> 1 \<le> length (msg_content m) \<and>
       length (msg_content m) \<le> MAX_MESSAGE_CHARS) (messages (generation r)) \<and>
     0 \<le> dec_value (temperature (generation r)) \<and> dec_value (temperature (generation r)) \<le> 1 \<and>
     (\<forall>n. seed (generation r) = Some n \<longrightarrow> 0 \<le> n \<and> n \<le> 9223372036854775807) \<and>
     encodable (JObj (response_schema (generation r))))"

lemma str_field_Inr: "str_field ob k ok = Inr s \<longleftrightarrow> jget ob k = JStr s \<and> ok s"
  by (auto simp: str_field_def invalid_def split: json.splits)

lemma int_field_Inr: "int_field ob k ok = Inr n \<longleftrightarrow> jget ob k = JInt n \<and> ok n"
  by (auto simp: int_field_def invalid_def split: json.splits)

lemma obj_field_Inr: "obj_field ob k = Inr v \<longleftrightarrow> jget ob k = JObj v"
  by (auto simp: obj_field_def invalid_def split: json.splits)

lemma list_field_Inr: "list_field ob k n = Inr vs \<longleftrightarrow> jget ob k = JList vs \<and> length vs = n"
  by (auto simp: list_field_def invalid_def split: json.splits)

lemmas field_Inr = str_field_Inr int_field_Inr obj_field_Inr list_field_Inr

lemma validate_message_Inr:
  "validate_message v = Inr m \<Longrightarrow>
    is_unicode (msg_content m) \<and> 1 \<le> length (msg_content m) \<and> length (msg_content m) \<le> MAX_MESSAGE_CHARS"
  by (auto simp: validate_message_def invalid_def bind_res_eq_Inr field_Inr split: json.splits)

lemma temperature_field_Inr:
  "temperature_field to_float ob = Inr t \<Longrightarrow> 0 \<le> dec_value t \<and> dec_value t \<le> 1"
  by (auto simp: temperature_field_def invalid_def split: option.splits if_splits)

lemma seed_field_Inr:
  "seed_field ob = Inr (Some n) \<Longrightarrow> 0 \<le> n \<and> n \<le> 9223372036854775807"
  by (auto simp: seed_field_def int_field_def invalid_def split: json.splits if_splits)

lemma validate_task_reference_Inr:
  "validate_task_reference ob = Inr t \<Longrightarrow>
    task_id_ok (task_id t) \<and> 1 \<le> task_version t \<and> task_version t \<le> 2147483647"
  by (auto simp: validate_task_reference_def bind_res_eq_Inr field_Inr)

lemma validate_requirements_Inr:
  "validate_requirements ob = Inr q \<Longrightarrow> input_modalities q = [py ''text''] \<and>
    output_media_type q = py ''application/json'' \<and> structured_output q \<and>
    1 \<le> max_output_tokens q \<and> max_output_tokens q \<le> MAX_OUTPUT_TOKENS"
  by (auto simp: validate_requirements_def bind_res_eq_Inr field_Inr)

lemma validate_generation_Inr:
  assumes "validate_generation to_float check_schema ob = Inr g"
  shows "validate_generation_shape check_schema g = Inr ()"
    and "list_all (\<lambda>m. is_unicode (msg_content m) \<and> 1 \<le> length (msg_content m) \<and>
       length (msg_content m) \<le> MAX_MESSAGE_CHARS) (messages g)"
    and "0 \<le> dec_value (temperature g) \<and> dec_value (temperature g) \<le> 1"
    and "\<forall>n. seed g = Some n \<longrightarrow> 0 \<le> n \<and> n \<le> 9223372036854775807"
proof -
  from assms obtain vs ms t s schema where g:
    "map_res validate_message vs = Inr ms" "temperature_field to_float ob = Inr t"
    "seed_field ob = Inr s" "g = \<lparr>messages = ms, temperature = t, seed = s, response_schema = schema\<rparr>"
    "validate_generation_shape check_schema g = Inr ()"
    by (auto simp: validate_generation_def bind_res_eq_Inr Let_def)
  show "validate_generation_shape check_schema g = Inr ()" by (rule g(5))
  show "list_all (\<lambda>m. is_unicode (msg_content m) \<and> 1 \<le> length (msg_content m) \<and>
       length (msg_content m) \<le> MAX_MESSAGE_CHARS) (messages g)"
    using g(1,4) validate_message_Inr
    by (auto simp: map_res_Inr_iff list_all2_conv_all_nth list_all_length)
  show "0 \<le> dec_value (temperature g) \<and> dec_value (temperature g) \<le> 1"
    using temperature_field_Inr g(2,4) by simp
  show "\<forall>n. seed g = Some n \<longrightarrow> 0 \<le> n \<and> n \<le> 9223372036854775807"
    using seed_field_Inr g(3,4) by auto
qed

lemma validated_request_sound:
  assumes "validate_inference_request to_float check_schema ob = Inr r"
  shows "sound_request r"
proof -
  from assms obtain rq tk g where parts:
    "uuid4_text (request_id r)" "rfc3339_shape (request_expires_at r)" "strptime_utc (request_expires_at r) \<noteq> None"
    "protocol_version r = PROTOCOL_VERSION"
    "validate_task_reference tk = Inr (task r)" "validate_requirements rq = Inr (requirements r)"
    "validate_generation to_float check_schema g = Inr (generation r)"
    by (auto simp: validate_inference_request_def bind_res_eq_Inr field_Inr validate_request_id_def
        validate_request_expiry_def validate_protocol_version_def split: if_splits json.splits)
  note gen = validate_generation_Inr [OF parts(7)]
  from gen(1) have shape: "map msg_role (messages (generation r)) = [py ''system'', py ''user'']"
      "encodable (JObj (response_schema (generation r)))"
    by (auto simp: validate_generation_shape_iff Let_def encodable_bytes)
  show ?thesis
    using parts(1-4) gen(2-4) shape validate_task_reference_Inr [OF parts(5)]
      validate_requirements_Inr [OF parts(6)]
    by (simp add: sound_request_def)
qed

lemma nd_zeros_unicode: "\<forall>z \<in> set nd_zeros. z + 10 \<le> 55296 \<or> 57344 \<le> z \<and> z < 1000000"
  by (simp add: nd_zeros_def)

lemma udigit_unicode:
  assumes "udigit c \<noteq> None"
  shows "utf8_char c \<noteq> None"
proof -
  obtain z where "z \<in> set nd_zeros" "z \<le> c" "c < z + 10"
    using assms by (auto simp: udigit_def dest: find_Some_in)
  then have "c < 55296 \<or> 57344 \<le> c \<and> c < 1000010" using nd_zeros_unicode by fastforce
  then show ?thesis by (auto simp: utf8_char_def)
qed

lemma is_unicode_nth: "is_unicode s \<longleftrightarrow> list_all (\<lambda>i. utf8_char (s ! i) \<noteq> None) [0..<length s]"
  by (auto simp: is_unicode_def list_all_length list_all_iff)

lemma expiry_unicode: "rfc3339_shape s \<Longrightarrow> is_unicode s"
proof -
  have "[0..<20] = [0, 1, 2, 3, 4, 5, 6, 7, 8, 9, 10, 11, 12, 13, 14, 15, 16, 17, 18, 19::nat]"
    by code_simp
  moreover assume "rfc3339_shape s"
  ultimately show ?thesis
    by (simp add: is_unicode_nth rfc3339_shape_def udigit_unicode del: not_None_eq)
qed

lemma uuid4_unicode: "uuid4_text s \<Longrightarrow> is_unicode s"
proof -
  assume s: "uuid4_text s"
  have "c < 128" if "c \<in> set s" for c
  proof -
    from that obtain i where "i < length s" "s ! i = c" unfolding in_set_conv_nth by blast
    then have "(i, c) \<in> set (enumerate 0 s)" by (simp add: in_set_enumerate_eq)
    then show ?thesis
      using s by (auto simp: uuid4_text_def list_all_iff is_hex_lower_def is_digit_def split: if_splits)
  qed
  then show ?thesis by (intro is_unicode_ascii) (simp add: list_all_iff)
qed

lemma task_id_unicode: "task_id_ok s \<Longrightarrow> is_unicode s"
  by (cases s) (fastforce simp: task_id_ok_def is_lower_def is_digit_def list_all_iff intro!: is_unicode_ascii)+

lemma py_unicode [simp]: "is_unicode (py s)"
proof -
  have "utf8_char n \<noteq> None" if "n < 256" for n using that by (simp add: utf8_char_def)
  then have "utf8_char (of_char c) \<noteq> None" for c :: char using nat_of_char_less_256 by blast
  then show ?thesis by (simp add: py_def is_unicode_def list_all_iff)
qed

subsection \<open>The digest\<close>

lemma model_dump_encodable:
  assumes "sound_request r"
  shows "encodable (model_dump r)"
proof -
  let ?g = "generation r"
  note parts = assms [unfolded sound_request_def]
  have msgs: "encodable (JList (map (\<lambda>m. JObj [(py ''role'', JStr (msg_role m)),
      (py ''content'', JStr (msg_content m))]) (messages ?g)))"
  proof (rule encodable_list, clarsimp)
    fix m assume m: "m \<in> set (messages ?g)"
    then have "msg_role m \<in> set (map msg_role (messages ?g))" by simp
    then have "is_unicode (msg_role m)" using parts by auto
    moreover have "is_unicode (msg_content m)" using m parts by (simp add: list_all_iff)
    ultimately show "encodable (JObj [(py ''role'', JStr (msg_role m)), (py ''content'', JStr (msg_content m))])"
      by (intro encodable_obj) (auto simp: encodable_str)
  qed
  have task: "encodable (JObj [(py ''id'', JStr (task_id (task r))), (py ''version'', JInt (task_version (task r)))])"
    using parts task_id_unicode by (intro encodable_obj) (auto intro: encodable_str encodable_int)
  have req: "encodable (JObj
       [(py ''input_modalities'', JList (map JStr (input_modalities (requirements r)))),
        (py ''output_media_type'', JStr (output_media_type (requirements r))),
        (py ''structured_output'', JBool (structured_output (requirements r))),
        (py ''max_output_tokens'', JInt (max_output_tokens (requirements r)))])"
    using parts by (intro encodable_obj)
      (auto intro!: encodable_str encodable_int encodable_list encodable_bool simp: MAX_OUTPUT_TOKENS_def)
  have schema: "encodable (JObj (response_schema ?g))" using parts by blast
  have temp: "encodable (JFloat (temperature ?g))" using parts encodable_unit_float by blast
  have sd: "\<forall>n. seed ?g = Some n \<longrightarrow> encodable (JInt n)" using parts by (fastforce intro: encodable_int)
  have top: "encodable (JInt (protocol_version r))" "encodable (JStr (request_id r))"
    "encodable (JStr (request_expires_at r))"
    using parts uuid4_unicode expiry_unicode by (simp_all add: encodable_str encodable_int PROTOCOL_VERSION_def)
  have gen: "encodable (JObj
       ([(py ''messages'', JList (map (\<lambda>m. JObj [(py ''role'', JStr (msg_role m)),
            (py ''content'', JStr (msg_content m))]) (messages ?g))),
         (py ''temperature'', JFloat (temperature ?g))] @
        (case seed ?g of None \<Rightarrow> [] | Some n \<Rightarrow> [(py ''seed'', JInt n)]) @
        [(py ''response_schema'', JObj (response_schema ?g))]))"
    using schema temp sd msgs by (intro encodable_obj) (auto split: option.splits)
  show ?thesis
    unfolding model_dump_def
    using top task req gen by (intro encodable_obj) auto
qed

lemma canonical_digest_total: "sound_request r \<Longrightarrow> \<exists>d. canonical_digest sha256_hex r = Inr d"
  using model_dump_encodable [of r] by (auto simp: canonical_digest_def encodable_bytes)

subsection \<open>What the digest identifies\<close>

lemma distinct_keys_sorted: "distinct (map fst xs) \<Longrightarrow> distinct (map fst (sort_key fst xs))"
  by (simp add: distinct_map)

lemma canon_obj_lookup:
  assumes "canon (JObj a) = canon (JObj b)" "distinct (map fst a)" "distinct (map fst b)"
  shows "map_option canon (map_of a k) = map_option canon (map_of b k)"
proof -
  have lookup: "map_of (sort_key fst (map (\<lambda>(k, v). (k, canon v)) ob)) k = map_option canon (map_of ob k)"
    if "distinct (map fst ob)" for ob
  proof -
    let ?c = "map (\<lambda>(k, v). (k, canon v)) ob"
    have "map fst ?c = map fst ob" by (simp add: comp_def case_prod_beta)
    then have d: "distinct (map fst ?c)" using that by metis
    then have "distinct (map fst (sort_key fst ?c))" by (rule distinct_keys_sorted)
    then have "map_of (sort_key fst ?c) = map_of ?c"
      using d by (subst map_of_inject_set) simp_all
    then show ?thesis by (simp add: map_of_map)
  qed
  show ?thesis using lookup [OF assms(2)] lookup [OF assms(3)] assms(1) by simp
qed

lemma int_value_inj: "dec_value (Dec (m < 0) (nat \<bar>m\<bar>) 0) = dec_value (Dec (n < 0) (nat \<bar>n\<bar>) 0) \<longleftrightarrow> m = n"
proof -
  have "dec_value (Dec (n < 0) (nat \<bar>n\<bar>) 0) = of_int n" for n :: int
    by (simp add: dec_value_def of_nat_nat)
  then show ?thesis by simp
qed

lemma canon_leaf [simp]:
  "canon (JInt m) = canon (JInt n) \<longleftrightarrow> m = n"
  "canon (JFloat a) = canon (JFloat b) \<longleftrightarrow> dec_value a = dec_value b"
  "canon (JStr s) = canon (JStr t) \<longleftrightarrow> s = t"
  "canon (JBool p) = canon (JBool q) \<longleftrightarrow> p = q"
  by (simp_all add: dec_norm_eq_iff int_value_inj)

text \<open>
  The identity of a request: the same scalar fields, the same messages, the same seed, a
  temperature of the same value and a response schema equal up to key order and number spelling.
\<close>

definition same_request :: "inference_request \<Rightarrow> inference_request \<Rightarrow> bool" where
  "same_request r q =
    (protocol_version r = protocol_version q \<and> request_id r = request_id q \<and>
     request_expires_at r = request_expires_at q \<and> task r = task q \<and>
     requirements r = requirements q \<and> messages (generation r) = messages (generation q) \<and>
     dec_value (temperature (generation r)) = dec_value (temperature (generation q)) \<and>
     seed (generation r) = seed (generation q) \<and>
     canon (JObj (response_schema (generation r))) = canon (JObj (response_schema (generation q))))"

definition task_dump :: "task_reference \<Rightarrow> jobj" where
  "task_dump t = [(py ''id'', JStr (task_id t)), (py ''version'', JInt (task_version t))]"

definition requirements_dump :: "requirements \<Rightarrow> jobj" where
  "requirements_dump q =
    [(py ''input_modalities'', JList (map JStr (input_modalities q))),
     (py ''output_media_type'', JStr (output_media_type q)),
     (py ''structured_output'', JBool (structured_output q)),
     (py ''max_output_tokens'', JInt (max_output_tokens q))]"

definition message_dump :: "generation_message \<Rightarrow> jobj" where
  "message_dump m = [(py ''role'', JStr (msg_role m)), (py ''content'', JStr (msg_content m))]"

definition generation_dump :: "generation \<Rightarrow> jobj" where
  "generation_dump g =
    [(py ''messages'', JList (map (\<lambda>m. JObj (message_dump m)) (messages g))),
     (py ''temperature'', JFloat (temperature g))] @
    (case seed g of None \<Rightarrow> [] | Some n \<Rightarrow> [(py ''seed'', JInt n)]) @
    [(py ''response_schema'', JObj (response_schema g))]"

definition request_dump :: "inference_request \<Rightarrow> jobj" where
  "request_dump r =
    [(py ''protocol_version'', JInt (protocol_version r)), (py ''request_id'', JStr (request_id r)),
     (py ''request_expires_at'', JStr (request_expires_at r)), (py ''task'', JObj (task_dump (task r))),
     (py ''requirements'', JObj (requirements_dump (requirements r))),
     (py ''generation'', JObj (generation_dump (generation r)))]"

lemma model_dump_parts: "model_dump r = JObj (request_dump r)"
  by (simp add: model_dump_def request_dump_def task_dump_def requirements_dump_def message_dump_def
      generation_dump_def)

lemma dump_distinct:
  "distinct (map fst (task_dump t))" "distinct (map fst (requirements_dump q))"
  "distinct (map fst (message_dump m))" "distinct (map fst (generation_dump g))"
  "distinct (map fst (request_dump r))"
  by (auto simp: task_dump_def requirements_dump_def message_dump_def generation_dump_def
      request_dump_def split: option.split)

lemma task_dump_inj:
  assumes "canon (JObj (task_dump s)) = canon (JObj (task_dump t))"
  shows "s = t"
proof -
  note look = canon_obj_lookup [OF assms dump_distinct(1) dump_distinct(1), unfolded task_dump_def]
  show ?thesis using look [of "py ''id''"] look [of "py ''version''"] by (simp del: canon.simps)
qed

lemma requirements_dump_inj:
  assumes "canon (JObj (requirements_dump p)) = canon (JObj (requirements_dump q))"
  shows "p = q"
proof -
  note look = canon_obj_lookup [OF assms dump_distinct(2) dump_distinct(2), unfolded requirements_dump_def]
  have "map (canon \<circ> JStr) (input_modalities p) = map (canon \<circ> JStr) (input_modalities q)"
    using look [of "py ''input_modalities''"] by simp
  moreover have "inj (canon \<circ> JStr)" by (rule injI) simp
  ultimately have "input_modalities p = input_modalities q" by (simp only: inj_map_eq_map)
  moreover have "output_media_type p = output_media_type q" "structured_output p = structured_output q"
      "max_output_tokens p = max_output_tokens q"
    using look [of "py ''output_media_type''"] look [of "py ''structured_output''"]
      look [of "py ''max_output_tokens''"] by (simp_all del: canon.simps)
  ultimately show ?thesis by simp
qed

lemma message_dump_inj:
  assumes "canon (JObj (message_dump m)) = canon (JObj (message_dump n))"
  shows "m = n"
proof -
  note look = canon_obj_lookup [OF assms dump_distinct(3) dump_distinct(3), unfolded message_dump_def]
  show ?thesis using look [of "py ''role''"] look [of "py ''content''"] by (simp del: canon.simps)
qed

lemma generation_dump_inj:
  "canon (JObj (generation_dump g)) = canon (JObj (generation_dump h)) \<longleftrightarrow>
    messages g = messages h \<and> dec_value (temperature g) = dec_value (temperature h) \<and>
    seed g = seed h \<and> canon (JObj (response_schema g)) = canon (JObj (response_schema h))"
  (is "?L \<longleftrightarrow> ?R")
proof
  assume ?L
  note look = canon_obj_lookup [OF this dump_distinct(4) dump_distinct(4), unfolded generation_dump_def]
  have "map (\<lambda>m. canon (JObj (message_dump m))) (messages g) = map (\<lambda>m. canon (JObj (message_dump m))) (messages h)"
    using look [of "py ''messages''"] by (simp del: canon.simps add: canon.simps(4) comp_def)
  moreover have "inj (\<lambda>m. canon (JObj (message_dump m)))" using message_dump_inj by (auto intro: injI)
  ultimately have "messages g = messages h" by (simp only: inj_map_eq_map)
  moreover have "dec_value (temperature g) = dec_value (temperature h)"
    using look [of "py ''temperature''"] by (simp del: canon.simps)
  moreover have "seed g = seed h"
    using look [of "py ''seed''"] by (auto simp del: canon.simps split: option.splits)
  moreover have "canon (JObj (response_schema g)) = canon (JObj (response_schema h))"
    using look [of "py ''response_schema''"] by (auto simp del: canon.simps split: option.splits)
  ultimately show ?R by blast
next
  assume R: ?R
  have "map (\<lambda>(k, v). (k, canon v)) (generation_dump g) = map (\<lambda>(k, v). (k, canon v)) (generation_dump h)"
    using R by (simp add: generation_dump_def del: canon.simps)
  then show ?L by (simp only: canon.simps)
qed

lemma model_dump_same: "canon (model_dump r) = canon (model_dump q) \<longleftrightarrow> same_request r q" (is "?L \<longleftrightarrow> ?R")
proof
  assume ?L
  then have "canon (JObj (request_dump r)) = canon (JObj (request_dump q))" by (simp only: model_dump_parts)
  note look = canon_obj_lookup [OF this dump_distinct(5) dump_distinct(5), unfolded request_dump_def]
  have "protocol_version r = protocol_version q" "request_id r = request_id q"
      "request_expires_at r = request_expires_at q"
    using look [of "py ''protocol_version''"] look [of "py ''request_id''"] look [of "py ''request_expires_at''"]
    by (simp_all del: canon.simps)
  moreover have "task r = task q" using look [of "py ''task''"] by (simp del: canon.simps add: task_dump_inj)
  moreover have "requirements r = requirements q"
    using look [of "py ''requirements''"] by (simp del: canon.simps add: requirements_dump_inj)
  moreover have "canon (JObj (generation_dump (generation r))) = canon (JObj (generation_dump (generation q)))"
    using look [of "py ''generation''"] by (simp del: canon.simps)
  ultimately show ?R by (simp add: same_request_def generation_dump_inj del: canon.simps)
next
  assume R: ?R
  then have "canon (JObj (generation_dump (generation r))) = canon (JObj (generation_dump (generation q)))"
    by (simp add: same_request_def generation_dump_inj del: canon.simps)
  then have "map (\<lambda>(k, v). (k, canon v)) (request_dump r) = map (\<lambda>(k, v). (k, canon v)) (request_dump q)"
    using R by (simp add: request_dump_def same_request_def del: canon.simps)
  then show ?L by (simp only: canon.simps model_dump_parts)
qed

lemma digest_bytes_same:
  assumes "encode_json_bytes True (model_dump r) = Inr a" "encode_json_bytes True (model_dump q) = Inr b"
  shows "a = b \<longleftrightarrow> same_request r q"
proof
  assume "a = b"
  then show "same_request r q" using encode_json_bytes_inj assms by (metis model_dump_same)
next
  assume "same_request r q"
  then have eq: "canon (model_dump r) = canon (model_dump q)" by (simp only: model_dump_same)
  obtain t u where "encode_json True (model_dump r) = Inr t" "utf8_encode t = Inr a"
      "encode_json True (model_dump q) = Inr u" "utf8_encode u = Inr b"
    using assms by (auto simp: encode_json_bytes_def bind_res_eq_Inr)
  then show "a = b" using encode_json_canonical eq by (metis sum.inject(2))
qed

end
