(* ===== verification/Contract_Properties.thy ===== *)
theory Contract_Properties
  imports Contracts_Digest
begin

text \<open>
  The properties of contracts.py, each with a witness at a concrete input where it has
  hypotheses, and the sample documents the witnesses use.
\<close>

subsection \<open>Samples\<close>

definition sample_id :: pystr where
  "sample_id = py ''12345678-1234-4234-8234-123456789abc''"

definition sample_schema :: jobj where
  "sample_schema = [(py ''type'', JStr (py ''object''))]"

definition sample_message :: "string \<Rightarrow> string \<Rightarrow> json" where
  "sample_message who what = JObj [(py ''role'', JStr (py who)), (py ''content'', JStr (py what))]"

definition sample_document :: jobj where
  "sample_document =
    [(py ''protocol_version'', JInt 1), (py ''request_id'', JStr sample_id),
     (py ''request_expires_at'', JStr (py ''2026-07-01T00:05:00Z'')),
     (py ''task'', JObj [(py ''id'', JStr (py ''email.analyze'')), (py ''version'', JInt 1)]),
     (py ''requirements'', JObj
       [(py ''input_modalities'', JList [JStr (py ''text'')]),
        (py ''output_media_type'', JStr (py ''application/json'')),
        (py ''structured_output'', JBool True), (py ''max_output_tokens'', JInt 100)]),
     (py ''generation'', JObj
       [(py ''messages'', JList [sample_message ''system'' ''Read.'', sample_message ''user'' ''Hello.'']),
        (py ''temperature'', JDec (Dec False 1 (-1))),
        (py ''response_schema'', JObj sample_schema)])]"

definition sample_request :: inference_request where
  "sample_request = \<lparr>protocol_version = 1, request_id = sample_id,
     request_expires_at = py ''2026-07-01T00:05:00Z'',
     task = \<lparr>task_id = py ''email.analyze'', task_version = 1\<rparr>,
     requirements = \<lparr>input_modalities = [py ''text''], output_media_type = py ''application/json'',
       structured_output = True, max_output_tokens = 100\<rparr>,
     generation = \<lparr>messages = [\<lparr>msg_role = py ''system'', msg_content = py ''Read.''\<rparr>,
         \<lparr>msg_role = py ''user'', msg_content = py ''Hello.''\<rparr>],
       temperature = Dec False 1 (-1), seed = None, response_schema = sample_schema\<rparr>\<rparr>"

lemmas calendar_eval = ord2ymd_def Let_def year_of_def month_of_def month_from.simps
  days_before_year_def days_before_month_def days_in_month_def leap_day_def is_leap_def

lemmas stamp_eval = timestamp_def stamp_def time_text_def pad4_def pad2_def tens_def units_def
  dt_secs_def calendar_eval

lemmas strptime_eval = strptime_utc_def rfc3339_shape_def py_def two_digits_def four_digits_def
  adigit_def udigit_def nd_zeros_def datetime_of_def ymd2ord_def valid_ymd_def calendar_eval

lemma sample_id_ok: "uuid4_text sample_id"
  by (simp add: sample_id_def uuid4_text_def py_def is_hex_lower_def is_digit_def)

lemma sample_expiry: "strptime_utc (py ''2026-07-01T00:05:00Z'') = Some 63918461100000000"
  by (simp add: strptime_eval)

lemma sample_expiry_shape: "rfc3339_shape (py ''2026-07-01T00:05:00Z'')"
  using sample_expiry by (auto simp: strptime_utc_def split: if_splits)

lemma sample_schema_text: "encode_json True (JObj sample_schema) = Inr (py ''{\"type\":\"object\"}'')"
  by (simp add: sample_schema_def key_order_def json_string_def escape_char_def py_def)

lemma sample_schema_bytes:
  "encode_json_bytes True (JObj sample_schema) = Inr (py ''{\"type\":\"object\"}'')"
  unfolding encode_json_bytes_def sample_schema_text
  by (simp add: py_def utf8_encode_ascii is_ascii_text_def)

lemma sample_schema_admissible: "admissible None True True sample_schema"
  by (simp add: admissible.simps sample_schema_def is_ref_node_def jhas_def jget_def node_ok_def
      keywords_ok_def SUPPORTED_SCHEMA_KEYWORDS_def SUPPORTED_SCHEMA_TYPES_def type_ok_def additional_ok_def
      enum_ok_def bounds_ok_def bound_ok_def json_obj_values_def json_list_def is_array_node_def
      no_array_keywords_def any_of_ok_def Let_def)

lemma sample_schema_shape:
  "validate_generation_shape (\<lambda>_. True) (generation sample_request) = Inr ()"
proof -
  have f: "filter (\<lambda>(k, v). k \<noteq> py ''$defs'') sample_schema = sample_schema"
    by (simp add: sample_schema_def)
  have d: "passage_definitions sample_schema = Inr None"
    by (simp add: passage_definitions_def uses_passage_definitions_def jhas_def sample_schema_def)
  have "ref_count None sample_schema = 0" "weight None sample_schema = 0"
    by (simp_all add: ref_count.simps weight.simps sample_schema_def is_ref_node_def jhas_def jget_def
        json_obj_values_def json_list_def is_array_node_def list_max_def)
  then show ?thesis
    using f d sample_schema_bytes sample_schema_admissible
    by (simp add: validate_generation_shape_iff Let_def sample_request_def MAX_SCHEMA_BYTES_def
        MAX_PASSAGE_REFERENCES_def MAX_PASSAGE_VALUES_def)
      (simp add: sample_schema_def MAX_JSON_NODES_def MAX_JSON_DEPTH_def jget_def)
qed

lemma sample_validated:
  "validate_inference_request id (\<lambda>_. True) sample_document = Inr sample_request"
proof -
  have g: "validate_generation id (\<lambda>_. True)
      [(py ''messages'', JList [sample_message ''system'' ''Read.'', sample_message ''user'' ''Hello.'']),
       (py ''temperature'', JDec (Dec False 1 (-1))),
       (py ''response_schema'', JObj sample_schema)] = Inr (generation sample_request)"
    using sample_schema_shape
    by (simp add: validate_generation_def only_fields_def check_def list_field_def jget_def jhas_def
        validate_message_def sample_message_def str_field_def temperature_field_def number_of_def
        dec_value_def power_int_minus seed_field_def obj_field_def Let_def sample_request_def
        MAX_MESSAGE_CHARS_def)
  show ?thesis
    using g sample_id_ok sample_expiry sample_expiry_shape
    by (simp add: validate_inference_request_def sample_document_def only_fields_def check_def
        jget_def str_field_def obj_field_def int_field_def validate_protocol_version_def PROTOCOL_VERSION_def
        validate_request_id_def validate_request_expiry_def validate_task_reference_def
        validate_requirements_def MAX_OUTPUT_TOKENS_def)
      (simp add: sample_request_def task_id_ok_def is_lower_def is_digit_def py_def)
qed

lemma sample_sound: "sound_request sample_request"
  by (rule validated_request_sound [OF sample_validated])


subsection \<open>Admission of a generation\<close>

text \<open>
  C12: A generation passes \<open>validate_generation_shape\<close> exactly when its messages are one system and
  one user message, its schema is within the byte, node and depth limits, its passage
  definitions are well formed, its root is in the grammar of the supported subset with at most
  16 references and at most 32 passage values in any response, the meta-schema check accepts
  it, and its root is an object or a bounded choice of closed objects.
\<close>

theorem generation_admission:
  "validate_generation_shape check_schema g = Inr () \<longleftrightarrow>
    (let schema = response_schema g; root = filter (\<lambda>(k, v). k \<noteq> py ''$defs'') schema
     in map msg_role (messages g) = [py ''system'', py ''user''] \<and>
       (\<exists>bytes. encode_json_bytes True (JObj schema) = Inr bytes \<and> length bytes \<le> MAX_SCHEMA_BYTES) \<and>
       json_nodes (JObj schema) \<le> MAX_JSON_NODES \<and> json_depth (JObj schema) \<le> MAX_JSON_DEPTH \<and>
       (\<exists>definitions. passage_definitions schema = Inr definitions \<and>
         admissible definitions True True root \<and>
         ref_count definitions root \<le> MAX_PASSAGE_REFERENCES \<and>
         weight definitions root \<le> MAX_PASSAGE_VALUES) \<and>
       check_schema (JObj schema) \<and>
       (jget schema ''type'' = JStr (py ''object'') \<or> is_bounded_root_object_choice schema))"
  by (rule validate_generation_shape_iff)

text \<open>
  C10: The recursive check of the supported subset decides the declarative grammar: from a fresh
  reference counter it returns precisely for an admissible schema within the reference limit,
  and then its results are the multiplicity times the weight of the schema and the number of its
  references.
\<close>

theorem supported_schema_decided:
  "validate_supported_schema definitions nullable allow_root multiplicity 0 schema = Inr (n, r) \<longleftrightarrow>
    admissible definitions nullable allow_root schema \<and>
    ref_count definitions schema \<le> MAX_PASSAGE_REFERENCES \<and>
    n = multiplicity * weight definitions schema \<and> r = ref_count definitions schema"
proof -
  have "fits 0" by (simp add: fits_def)
  from validate_iff [OF this] show ?thesis by (simp add: fits_def)
qed

text \<open>
  The worklist of \<open>_validate_json_shape\<close> terminates on every document and accepts it
  exactly when the document has at most 20000 values nested at most 32 deep.
\<close>

theorem json_shape_budget:
  "validate_json_shape v = Inr () \<longleftrightarrow>
    json_nodes v \<le> MAX_JSON_NODES \<and> json_depth v \<le> MAX_JSON_DEPTH"
  by (rule validate_json_shape_iff)

subsection \<open>The identity of a request\<close>

text \<open>
  C11: Two validated requests hash the same bytes exactly when they are the same request: equal
  scalar fields, messages and seed, a temperature of equal value, and response schemas that
  agree up to the order of object keys and the spelling of numbers.
\<close>

theorem digest_identity:
  assumes "sound_request r" "sound_request q"
  shows "encode_json_bytes True (model_dump r) = encode_json_bytes True (model_dump q) \<longleftrightarrow>
    same_request r q"
proof -
  obtain a b where "encode_json_bytes True (model_dump r) = Inr a" "encode_json_bytes True (model_dump q) = Inr b"
    using assms model_dump_encodable by (auto simp: encodable_bytes dest!: model_dump_encodable)
  then show ?thesis using digest_bytes_same by simp
qed

definition respelled_request :: inference_request where
  "respelled_request = sample_request\<lparr>generation := (generation sample_request)\<lparr>temperature := Dec False 100 (-3)\<rparr>\<rparr>"

lemma respelled_sound: "sound_request respelled_request"
  using sample_sound
  by (simp add: sound_request_def respelled_request_def dec_value_def power_int_minus)

theorem digest_identity_witness:
  "encode_json_bytes True (model_dump sample_request) = encode_json_bytes True (model_dump respelled_request) \<and>
    same_request sample_request respelled_request"
proof -
  have "same_request sample_request respelled_request"
    by (simp add: same_request_def respelled_request_def sample_request_def dec_value_def power_int_minus)
  then show ?thesis using digest_identity [OF sample_sound respelled_sound] by blast
qed

text \<open>
  Every document that passes validation yields a request with a canonical digest: the digest
  of \<open>infer\<close> raises nothing.
\<close>

theorem validated_request_has_digest:
  assumes "validate_inference_request to_float check_schema document = Inr r"
  shows "\<exists>digest. canonical_digest sha256_hex r = Inr digest"
  by (rule canonical_digest_total [OF validated_request_sound [OF assms]])

theorem validated_request_has_digest_witness:
  "\<exists>digest. canonical_digest id sample_request = Inr digest"
  by (rule validated_request_has_digest [OF sample_validated])

text \<open>
  The canonical text of a document determines it up to key order and number spelling, and
  conversely; so canonical texts are uniquely readable.
\<close>

theorem canonical_text:
  assumes "encode_json True v = Inr t" "encode_json True w = Inr u"
  shows "t = u \<longleftrightarrow> canon v = canon w"
  by (rule encode_json_canonical [OF assms])

theorem canonical_text_witness:
  "py ''{\"type\":\"object\"}'' = py ''{\"type\":\"object\"}'' \<longleftrightarrow>
    canon (JObj sample_schema) = canon (JObj sample_schema)"
  by (rule canonical_text [OF sample_schema_text sample_schema_text])

text \<open>
  The canonical text of a number denotes exactly the value of the number.
\<close>

theorem number_text_exact:
  assumes "encode_json_number d = Inr t"
  shows "\<exists>d'. scan_decimal t = Some d' \<and> dec_value d' = dec_value d"
  by (rule encode_json_number_value [OF assms])

lemma digits10_small: "n < 10 \<Longrightarrow> digits10 n = [n]"
  by (simp add: digits10.simps)

lemma sample_number: "encode_json_number (Dec False 1 (-1)) = Inr (py ''1e-1'')"
  by (simp add: encode_json_number_def in_finite_range_def abs_exceeds_def context_round_def
      digits10_small CONTEXT_DIGITS_def CONTEXT_EMAX_def adjusted_def above_binary64_def
      strip_zeros.simps number_text_def digit_text_def int_text_def py_def)

theorem number_text_exact_witness:
  "\<exists>d'. scan_decimal (py ''1e-1'') = Some d' \<and> dec_value d' = dec_value (Dec False 1 (-1))"
  by (rule number_text_exact [OF sample_number])

text \<open>
  Two numbers in range have the same canonical text exactly when they have the same value,
  whatever their digits, trailing zeros and exponents.
\<close>

theorem number_text_canonical:
  assumes "encode_json_number d1 = Inr t1" "encode_json_number d2 = Inr t2"
  shows "t1 = t2 \<longleftrightarrow> dec_value d1 = dec_value d2"
  by (rule encode_json_number_canonical [OF assms])

theorem number_text_canonical_witness:
  "py ''1e-1'' = py ''1e-1'' \<longleftrightarrow> dec_value (Dec False 1 (-1)) = dec_value (Dec False 1 (-1))"
  by (rule number_text_canonical [OF sample_number sample_number])

text \<open>
  A JSON number whose exponent exceeds the decimal context is not refused with a
  \<open>ValueError\<close>: \<open>abs\<close> raises \<open>decimal.Overflow\<close>, which the handlers of
  \<open>parse_json_object\<close> and of the inference route do not catch.
\<close>

theorem huge_exponent_escapes:
  "parse_exact_json_decimal (py ''1e1000000'') = Inl DecimalOverflow \<and> \<not> is_value_error DecimalOverflow"
  by (simp add: parse_exact_json_decimal_def decimal_of_text_def scan_decimal_def read_sign_def read_digits_def
      read_fraction_def read_exponent_def py_def is_digit_def text_digits_def from_digits_def constructible_def
      adjusted_def digits10_small in_finite_range_def abs_exceeds_def context_round_def CONTEXT_DIGITS_def
      CONTEXT_EMAX_def)

subsection \<open>Time\<close>

text \<open>
  The text order of the timestamps the store writes is the order of the instants they name,
  to the second.
\<close>

theorem timestamp_order:
  assumes "clock_range a" "clock_range b"
  shows "timestamp a \<le> timestamp b \<longleftrightarrow> dt_secs a \<le> dt_secs b"
  by (rule timestamp_le [OF assms])

lemma sample_clock: "clock_range 63918460800000000" "clock_range 63918461100000000"
  by (simp_all add: clock_range_def dt_year_def dt_secs_def calendar_eval)

theorem timestamp_order_witness:
  "timestamp 63918460800000000 \<le> timestamp 63918461100000000 \<longleftrightarrow>
    dt_secs 63918460800000000 \<le> dt_secs 63918461100000000"
  by (rule timestamp_order [OF sample_clock])

text \<open>
  A timestamp the store writes is parsed back to its instant, truncated to the second.
\<close>

theorem timestamp_roundtrip:
  assumes "clock_range t"
  shows "parse_timestamp (timestamp t) = Inr (dt_secs t * 1000000)"
  by (rule parse_timestamp_stamp [OF assms])

theorem timestamp_roundtrip_witness:
  "parse_timestamp (timestamp 63918460800000000) = Inr (dt_secs 63918460800000000 * 1000000)"
  by (rule timestamp_roundtrip [OF sample_clock(1)])

end
