(* ===== verification/Store_Properties.thy ===== *)
theory Store_Properties
  imports Store_Refinement Store_Initialize Contract_Properties
begin

text \<open>
  The properties of store.py, each with a witness on a small table where it has hypotheses.
\<close>

subsection \<open>Samples\<close>

abbreviation noon :: datetime where "noon \<equiv> 63918460800000000"

definition sample_config :: store_config where
  "sample_config = \<lparr>max_open_total = 16, max_open_per_credential = 4, tombstone_retention_seconds = 86400\<rparr>"

text \<open>A cipher that keeps the plaintext: it satisfies the round trip the store relies on.\<close>

definition plain_cipher :: aead where
  "plain_cipher = \<lparr>seal = (\<lambda>nonce bytes associated. bytes), unseal = (\<lambda>nonce bytes associated. Some bytes)\<rparr>"

lemma plain_cipher_faithful: "faithful plain_cipher"
  by (simp add: faithful_def plain_cipher_def)

definition sample_row :: request_row where
  "sample_row = new_row sample_request (py ''owner'') (py ''digest'') noon"

definition running_row :: request_row where
  "running_row = started (py ''attempt'') noon sample_row"

lemma sample_expires: "expires_at sample_request = 63918461100000000"
  using sample_expiry by (simp add: expires_at_def sample_request_def)

lemma noon_text: "timestamp noon = py ''2026-07-01T00:00:00Z''"
  by (simp add: stamp_eval py_def)

lemma sample_clock_ok: "clock_ok sample_config noon"
  by (simp add: clock_ok_def sample_clock retention_cutoff_def sample_config_def)
    (simp add: clock_range_def dt_year_def dt_secs_def calendar_eval)

lemma sample_row_ok: "row_ok sample_row" "row_ok running_row"
  using sample_expiry
  by (simp_all add: row_ok_def sample_row_def running_row_def started_def new_row_def sample_request_def no_output_def)

lemma sample_tables: "table_ok []" "table_ok [sample_row]" "table_ok [running_row]"
  by (simp_all add: table_ok_def sample_row_ok)

lemma sample_not_overdue: "\<not> overdue noon sample_row" "\<not> overdue noon running_row"
  by (simp_all add: overdue_def sample_row_def running_row_def started_def new_row_def noon_text sample_request_def)
    (simp_all add: py_def)

lemma sample_not_stale: "\<not> stale cfg now sample_row" "\<not> stale cfg now running_row"
  by (simp_all add: stale_def sample_row_def running_row_def started_def new_row_def is_retired_def)

lemma sample_cleanup: "cleanup sample_config noon [sample_row] = [sample_row]"
    "cleanup sample_config noon [running_row] = [running_row]" "cleanup cfg now [] = []"
  by (simp_all add: cleanup_def update_where_def sample_not_overdue sample_not_stale)

lemma sample_find: "find_row sample_id [sample_row] = Some sample_row" "find_row sample_id [running_row] = Some running_row"
  by (simp_all add: find_row_def sample_row_def running_row_def started_def new_row_def sample_request_def)

lemma sample_admit:
  "admit sample_config sample_request (py ''owner'') (py ''digest'') noon [] =
    (Inr (the_record sample_row), [sample_row])"
  using admit_new [of "[]" sample_request sample_config noon "py ''owner''" "py ''digest''"] sample_expiry
  by (simp add: sample_tables sample_cleanup find_row_def sample_expires sample_config_def open_count_def
      owner_open_count_def count_where_def sample_row_def)
    (simp add: sample_request_def)

subsection \<open>Invariants of every run\<close>

text \<open>
  C2: Every sequence of store calls, restarts and maintenance included, keeps the table well
  formed (unique ids, each state with exactly the columns it fills) and within both admission
  limits.
\<close>

theorem store_invariants:
  assumes "list_all (\<lambda>(now, call). call_ok call) calls" "table_ok t" "within_capacity cfg t"
  shows "table_ok (run_calls cfg cipher calls t) \<and> within_capacity cfg (run_calls cfg cipher calls t)"
  by (rule run_calls_invariants [OF assms])

definition sample_calls :: "(datetime \<times> store_call) list" where
  "sample_calls = [(noon, Call_Admit sample_request (py ''owner'') (py ''digest'')),
     (noon, Call_Mark_In_Progress sample_id (py ''attempt'')), (noon, Call_Recover)]"

theorem store_invariants_witness:
  "table_ok (run_calls sample_config plain_cipher sample_calls []) \<and>
    within_capacity sample_config (run_calls sample_config plain_cipher sample_calls [])"
proof (rule store_invariants)
  show "list_all (\<lambda>(now, call). call_ok call) sample_calls"
    using sample_expiry by (simp add: sample_calls_def sample_request_def)
qed (simp_all add: table_ok_def within_capacity_def open_count_def count_where_def)

text \<open>
  C5: The operations implement an abstract ledger: under every call the map from ids to rows
  changes exactly as the specification \<open>ledger_call\<close> says, one entry besides the clean-up.
\<close>

theorem store_refines_ledger:
  assumes "call_ok call" "table_ok t" "clock_ok cfg now"
  shows "ledger_of (run_call cfg cipher now call t) = ledger_call cfg cipher now call (ledger_of t)"
  by (rule call_refines [OF assms])

theorem store_refines_ledger_witness:
  "ledger_of (run_call sample_config plain_cipher noon (Call_Mark_In_Progress sample_id (py ''attempt'')) [sample_row]) =
    ledger_call sample_config plain_cipher noon (Call_Mark_In_Progress sample_id (py ''attempt'')) (ledger_of [sample_row])"
  by (rule store_refines_ledger) (simp_all add: sample_tables sample_clock_ok)

text \<open>
  C21: Outcome and table of an admission are those of the abstract ledger: an existing id is
  answered with its record for its owner and digest and refused otherwise, a new one is
  refused when it has expired or a limit is reached and recorded as reserved otherwise.
\<close>

theorem admission_refines_ledger:
  assumes "table_ok t" "clock_ok cfg now" "strptime_utc (request_expires_at request) \<noteq> None"
  shows "seen (admit cfg request owner digest now t) = ledger_admit cfg request owner digest now (ledger_of t)"
  by (rule admit_refines [OF assms])

theorem admission_refines_ledger_witness:
  "seen (admit sample_config sample_request (py ''owner'') (py ''digest'') noon []) =
    ledger_admit sample_config sample_request (py ''owner'') (py ''digest'') noon (ledger_of [])"
  using sample_expiry
  by (intro admission_refines_ledger) (simp_all add: sample_tables sample_clock_ok, simp add: sample_request_def)

text \<open>
  C7: Within one call a settled request (completed, failed, ambiguous, or retired and within its
  retention) is never reserved or dispatched again: it keeps its state, expires, or is
  acknowledged from completion.
\<close>

theorem settled_requests_stay_settled:
  assumes "call_ok call" "table_ok t" "clock_ok cfg now" "find_row rid t = Some r"
    "c_state r \<noteq> Reserved" "c_state r \<noteq> In_Progress" "\<not> stale cfg now r"
  shows "\<exists>b. status (run_call cfg cipher now call t) rid = Some b \<and>
    (b = c_state r \<or> \<not> is_retired (c_state r) \<and> (b = Expired \<or> b = Acknowledged \<and> c_state r = Completed))"
  using assms by (intro settled_call) (auto simp: status_def)

definition lost_row :: request_row where
  "lost_row = running_row\<lparr>c_state := Ambiguous\<rparr>"

lemma lost_row_facts: "table_ok [lost_row]" "find_row sample_id [lost_row] = Some lost_row" "\<not> stale cfg now lost_row"
  using sample_row_ok(2) sample_find(2)
  by (simp_all add: lost_row_def table_ok_def row_ok_def running_row_def started_def no_output_def find_row_def
      sample_row_def new_row_def sample_request_def stale_def is_retired_def)

theorem settled_requests_stay_settled_witness:
  "\<exists>b. status (run_call sample_config plain_cipher noon (Call_Mark_In_Progress sample_id (py ''again'')) [lost_row]) sample_id = Some b \<and>
    (b = c_state lost_row \<or> \<not> is_retired (c_state lost_row) \<and> (b = Expired \<or> b = Acknowledged \<and> c_state lost_row = Completed))"
  by (rule settled_requests_stay_settled) (simp_all add: lost_row_facts sample_clock_ok, simp_all add: lost_row_def)

text \<open>
  C6: A reservation is dispatched at most once: after a successful \<open>mark_in_progress\<close> the
  request is in progress under the attempt given, and a second one, at any later clock value and
  with any attempt, is refused and changes nothing.
\<close>

theorem reservation_dispatched_once:
  assumes "table_ok t" "clock_ok cfg now'" "mark_in_progress cfg rid attempt now t = (Inr record, t')"
  shows "status t' rid = Some In_Progress \<and> r_attempt_id record = Some attempt \<and>
    mark_in_progress cfg rid attempt' now' t' = (Inl (StoreFault ''request is not reserved for dispatch''), t')"
  by (rule dispatch_once [OF assms])

lemma sample_start:
  "mark_in_progress sample_config sample_id (py ''attempt'') noon [sample_row] = (Inr (the_record running_row), [running_row])"
  using mark_in_progress_eq [OF sample_tables(2), of sample_config sample_id "py ''attempt''" noon]
  by (simp add: sample_cleanup sample_find running_row_def update_where_def)
    (simp add: sample_row_def new_row_def sample_request_def)

theorem reservation_dispatched_once_witness:
  "status [running_row] sample_id = Some In_Progress \<and> r_attempt_id (the_record running_row) = Some (py ''attempt'') \<and>
    mark_in_progress sample_config sample_id (py ''other'') noon [running_row] =
      (Inl (StoreFault ''request is not reserved for dispatch''), [running_row])"
  by (rule reservation_dispatched_once [OF sample_tables(2) sample_clock_ok sample_start])

text \<open>
  C36: Admission is idempotent.  Repeated at any other time at which the admitted row has not passed
  its expiry and, if it is a tombstone, has not outlived its retention, it answers with the same
  record, leaves that row untouched and does to the table exactly what the clean-up of that time
  does to the other rows.
\<close>

theorem admission_idempotent:
  assumes "table_ok t" "clock_ok cfg now'" "strptime_utc (request_expires_at request) \<noteq> None"
    "admit cfg request owner digest now t = (Inr record, t')"
  shows "\<exists>r. find_row (request_id request) t' = Some r \<and> record = the_record r \<and>
    (\<not> overdue now' r \<and> \<not> stale cfg now' r \<longrightarrow>
      admit cfg request owner digest now' t' = (Inr record, cleanup cfg now' t') \<and>
      find_row (request_id request) (cleanup cfg now' t') = Some r)"
proof -
  obtain r where r: "table_ok t'" "find_row (request_id request) t' = Some r" "record = the_record r"
    "c_credential_hash r = owner" "c_request_digest r = digest" using admission_kept [OF assms(1,3,4)] by blast
  have "find_row (request_id request) (cleanup cfg now' t') = Some r" if "\<not> overdue now' r" "\<not> stale cfg now' r"
    using find_row_cleaned [OF r(1) assms(2)] r(2) that by (simp add: cleaned_def)
  then show ?thesis using admit_existing [OF r(1), of request cfg now' r owner digest] r(2-5) by (intro exI [of _ r]) simp
qed

lemma sample_comparable: "comparable_expiry (request_expires_at sample_request)"
  using sample_expiry sample_clock(2)
  by (simp add: comparable_expiry_def sample_request_def) (simp add: is_ascii_text_def py_def)

definition a_minute_on :: datetime where "a_minute_on = noon + 60 * 1000000"

lemma minute_text: "timestamp a_minute_on = py ''2026-07-01T00:01:00Z''"
  by (simp add: stamp_eval py_def a_minute_on_def)

lemma minute_clock: "clock_ok sample_config a_minute_on"
  by (simp add: clock_ok_def retention_cutoff_def sample_config_def a_minute_on_def)
    (simp add: clock_range_def dt_year_def dt_secs_def calendar_eval)

theorem admission_idempotent_witness:
  "admit sample_config sample_request (py ''owner'') (py ''digest'') a_minute_on [sample_row] =
    (Inr (the_record sample_row), cleanup sample_config a_minute_on [sample_row]) \<and>
   find_row sample_id (cleanup sample_config a_minute_on [sample_row]) = Some sample_row"
proof -
  have "find_row (request_id sample_request) [sample_row] = Some sample_row"
    using sample_find(1) by (simp add: sample_request_def)
  moreover have "\<not> overdue a_minute_on sample_row"
    by (simp add: overdue_def sample_row_def new_row_def minute_text sample_request_def) (simp add: py_def)
  ultimately show ?thesis
    using admission_idempotent [OF sample_tables(1) minute_clock _ sample_admit] sample_expiry sample_not_stale(1)
    by (auto simp: sample_request_def)
qed

text \<open>
  A call only touches the request it names; every other request is left as it was, or as the
  clean-up that starts each call leaves it.
\<close>

theorem calls_are_isolated:
  assumes "table_ok t" "clock_ok cfg now" "call_ok call" "call \<noteq> Call_Recover" "call_target call \<noteq> Some k"
  shows "find_row k (run_call cfg cipher now call t) \<in> {find_row k t, cleaned cfg now (find_row k t)}"
  by (rule isolation [OF assms])

theorem calls_are_isolated_witness:
  "find_row sample_id (run_call sample_config plain_cipher noon (Call_Reset_Reserved (py ''x'') (py ''attempt'')) [running_row])
    \<in> {find_row sample_id [running_row], cleaned sample_config noon (find_row sample_id [running_row])}"
  by (rule calls_are_isolated) (simp_all add: sample_tables sample_clock_ok, simp add: sample_id_def)

text \<open>
  C35: A request of one credential is closed to every other: reading, acknowledging and
  re-admitting it are refused and change nothing.
\<close>

theorem requests_are_private:
  assumes "table_ok t" "find_row rid (cleanup cfg now t) = Some r" "c_credential_hash r \<noteq> owner"
    "request_id request = rid"
  shows "get_owned cfg rid owner digest now t = (Inl RequestForbidden, t) \<and>
    acknowledge cfg rid owner disposition now t = (Inl RequestForbidden, t) \<and>
    admit cfg request owner digest' now t = (Inl RequestForbidden, t)"
  using foreign_request [OF assms(1-3)] assms(4) by simp

theorem requests_are_private_witness:
  "get_owned sample_config sample_id (py ''thief'') None noon [running_row] = (Inl RequestForbidden, [running_row]) \<and>
    acknowledge sample_config sample_id (py ''thief'') (py ''persisted'') noon [running_row] = (Inl RequestForbidden, [running_row]) \<and>
    admit sample_config sample_request (py ''thief'') (py ''digest'') noon [running_row] = (Inl RequestForbidden, [running_row])"
  by (rule requests_are_private)
    (simp_all add: sample_tables sample_cleanup sample_find,
     simp_all add: running_row_def started_def sample_row_def new_row_def sample_request_def)

subsection \<open>Results\<close>

text \<open>
  C22: The result of a completed attempt is read back as it was produced: the row is completed,
  decrypting its output gives the content, and media type and provenance are those given.
\<close>

theorem completed_result_reads_back:
  assumes "table_ok t" "faithful cipher"
    "complete cfg cipher nonce rid attempt media content deployment version now t = (Inr True, t')"
  shows "\<exists>r. find_row rid t' = Some r \<and> c_state r = Completed \<and> row_ok r \<and>
    output_of cipher (the_record r) = Inr content \<and> c_output_media_type r = Some media \<and>
    c_producing_deployment_id r = Some deployment \<and> c_producing_task_policy_version r = Some version"
  by (rule complete_reads_back [OF assms])

lemma sample_encrypt:
  "encrypt plain_cipher [7] (the_record running_row) (py ''{}'') = Inr ([7], py ''{}'')"
  by (simp add: encrypt_def aad_def ascii_encode_def the_record_simps sample_row_ok plain_cipher_def)
    (simp add: py_def utf8_encode_ascii is_ascii_text_def running_row_def started_def sample_row_def new_row_def
      sample_request_def sample_id_def)

definition done_row :: request_row where
  "done_row = finished (py ''application/json'') [7] (py ''{}'') (py ''lab'') 2 noon running_row"

lemma sample_complete:
  "complete sample_config plain_cipher [7] sample_id (py ''attempt'') (py ''application/json'') (py ''{}'') (py ''lab'') 2 noon
    [running_row] = (Inr True, [done_row])"
proof -
  have own: "owns_attempt sample_id (py ''attempt'') running_row" "c_state running_row \<noteq> Expired"
    by (simp_all add: owns_attempt_def running_row_def started_def sample_row_def new_row_def sample_request_def)
  then show ?thesis
    using complete_eq [OF sample_tables(3), of sample_config plain_cipher "[7]" sample_id "py ''attempt''"
        "py ''application/json''" "py ''{}''" "py ''lab''" 2 noon]
    by (simp add: sample_cleanup sample_find sample_encrypt done_row_def update_where_def)
qed

theorem completed_result_reads_back_witness:
  "\<exists>r. find_row sample_id [done_row] = Some r \<and> c_state r = Completed \<and> row_ok r \<and>
    output_of plain_cipher (the_record r) = Inr (py ''{}'') \<and> c_output_media_type r = Some (py ''application/json'') \<and>
    c_producing_deployment_id r = Some (py ''lab'') \<and> c_producing_task_policy_version r = Some 2"
  by (rule completed_result_reads_back [OF sample_tables(3) plain_cipher_faithful sample_complete])

text \<open>
  C34: A successful acknowledgement, the first or a repeated one, leaves the request acknowledged
  with the disposition given and with its encrypted output erased.
\<close>

theorem acknowledgement_erases_output:
  assumes "table_ok t" "acknowledge cfg rid owner disposition now t = (Inr record, t')"
  shows "\<exists>r. find_row rid t' = Some r \<and> c_state r = Acknowledged \<and> no_output r \<and> record = the_record r \<and>
    c_credential_hash r = owner \<and> c_acknowledgement_disposition r = Some disposition"
  by (rule acknowledge_result [OF assms])

lemma done_row_facts: "table_ok [done_row]" "cleanup sample_config noon [done_row] = [done_row]"
  "find_row sample_id [done_row] = Some done_row" "c_state done_row = Completed" "c_credential_hash done_row = py ''owner''"
  using sample_row_ok(2) sample_not_overdue(2)
  by (simp_all add: done_row_def table_ok_def row_ok_def finished_def running_row_def started_def sample_row_def new_row_def
      full_output_def no_output_def cleanup_def update_where_def overdue_def stale_def is_retired_def find_row_def
      sample_request_def)

lemma sample_acknowledge:
  "acknowledge sample_config sample_id (py ''owner'') (py ''persisted'') noon [done_row] =
    (Inr (the_record (acknowledged (py ''persisted'') noon done_row)), [acknowledged (py ''persisted'') noon done_row])"
  using acknowledge_eq [OF done_row_facts(1), of sample_config sample_id "py ''owner''" "py ''persisted''" noon] find_row_in [OF done_row_facts(3)]
  by (simp add: done_row_facts update_where_def)

theorem acknowledgement_erases_output_witness:
  "\<exists>r. find_row sample_id [acknowledged (py ''persisted'') noon done_row] = Some r \<and> c_state r = Acknowledged \<and> no_output r \<and>
    the_record (acknowledged (py ''persisted'') noon done_row) = the_record r \<and>
    c_credential_hash r = py ''owner'' \<and> c_acknowledgement_disposition r = Some (py ''persisted'')"
  by (rule acknowledgement_erases_output [OF done_row_facts(1) sample_acknowledge])


subsection \<open>Time and restarts\<close>

text \<open>
  C23: After maintenance no request whose expiry has passed holds any output: it has expired or
  was acknowledged, and its nonce, ciphertext and media type are gone.
\<close>

theorem expired_requests_hold_no_output:
  assumes "table_ok t" "clock_range now" "r \<in> set (snd (maintain cfg now t))"
    "comparable_expiry (c_expires_at r)" "strptime_utc (c_expires_at r) = Some d" "d \<le> now"
  shows "is_retired (c_state r) \<and> no_output r"
  using assms by (intro cleanup_private [OF assms(1,2) _ assms(4-6)]) (simp add: maintain_def transaction_simps)

abbreviation later :: datetime where "later \<equiv> 63918461100000000"

lemma later_text: "timestamp later = py ''2026-07-01T00:05:00Z''"
  by (simp add: stamp_eval py_def)

lemma done_row_expires:
  "snd (maintain sample_config later [done_row]) = [expire_row later done_row]"
proof -
  have "overdue later done_row"
    by (simp add: overdue_def done_row_def finished_def later_text running_row_def started_def sample_row_def
        new_row_def sample_request_def is_retired_def)
  moreover have "clock_ok sample_config later"
    by (simp add: clock_ok_def sample_clock retention_cutoff_def sample_config_def)
      (simp add: clock_range_def dt_year_def dt_secs_def calendar_eval)
  ultimately show ?thesis
    using expired_not_stale by (simp add: maintain_def transaction_simps cleanup_def update_where_def)
qed

theorem expired_requests_hold_no_output_witness:
  "is_retired (c_state (expire_row later done_row)) \<and> no_output (expire_row later done_row)"
proof (rule expired_requests_hold_no_output [OF done_row_facts(1) sample_clock(2)])
  have e: "c_expires_at (expire_row later done_row) = request_expires_at sample_request"
    by (simp add: expire_row_def done_row_def finished_def running_row_def started_def sample_row_def new_row_def)
  show "expire_row later done_row \<in> set (snd (maintain sample_config later [done_row]))"
    by (simp add: done_row_expires)
  show "comparable_expiry (c_expires_at (expire_row later done_row))" using e sample_comparable by simp
  show "strptime_utc (c_expires_at (expire_row later done_row)) = Some 63918461100000000"
    using e sample_expiry by (simp add: sample_request_def)
qed simp

text \<open>
  An expiry written with Unicode digits passes validation, but no clean-up ever sees it
  pass: the text comparison of the SQL never holds, so the row keeps its admission slot and
  its output beyond its expiry.
\<close>

definition wide_expiry :: pystr where
  "wide_expiry = [65298, 65296, 65298, 65302] @ py ''-07-01T00:00:00Z''"

theorem wide_digits_never_expire:
  "validate_request_expiry wide_expiry = Inr wide_expiry \<and> strptime_utc wide_expiry = Some noon \<and>
    \<not> overdue now (row\<lparr>c_expires_at := wide_expiry\<rparr>)"
proof -
  have s: "strptime_utc wide_expiry = Some noon"
    by (simp add: wide_expiry_def strptime_eval)
  then have "rfc3339_shape wide_expiry" by (auto simp: strptime_utc_def split: if_splits)
  obtain y m d where "ord2ymd (dt_secs now div 86400 + 1) = (y, m, d)" by (rule prod_cases3)
  then obtain rest where "timestamp now = tens (y div 100) # rest"
    by (simp add: timestamp_def stamp_def pad4_def pad2_def)
  moreover have "tens (y div 100) < 65298"
  proof -
    have "y div 100 div 10 mod 10 < 10" by simp
    then show ?thesis unfolding tens_def by (simp add: nat_less_iff)
  qed
  ultimately have "\<not> wide_expiry \<le> timestamp now" by (simp add: wide_expiry_def)
  then show ?thesis using s \<open>rfc3339_shape wide_expiry\<close> by (simp add: overdue_def validate_request_expiry_def)
qed

text \<open>
  Start-up succeeds exactly on an empty database or on one with the supported schema; any
  other database is refused and left untouched.
\<close>

theorem startup_checks_schema:
  "(fst (initialize cfg now db) = Inr () \<longleftrightarrow> db_tables db = {} \<or> supported_schema db) \<and>
    (fst (initialize cfg now db) = Inr () \<or> snd (initialize cfg now db) = db)"
  using initialize_iff [of cfg now db] initialize_refused [of db cfg now] by fastforce

text \<open>
  C32: After a restart on an existing database no request is in progress: one that was is
  ambiguous, or has expired.
\<close>

theorem restart_settles_attempts:
  assumes "supported_schema db" "table_ok (db_rows db)" "clock_ok cfg now"
    "status (db_rows db) rid = Some In_Progress"
  shows "status (db_rows (snd (initialize cfg now db))) rid \<in> {Some Ambiguous, Some Expired} \<and>
    list_all (\<lambda>r. c_state r \<noteq> In_Progress) (db_rows (snd (initialize cfg now db)))"
  using recover_status [OF assms(2-4)] recover_settles [of cfg now "db_rows db"]
  by (simp add: initialize_supported [OF assms(1)] list_all_iff)

definition sample_database :: database where
  "sample_database = \<lparr>db_tables = {metadata_table, requests_table},
     db_columns = (\<lambda>t. if t = metadata_table then set METADATA_COLUMNS else set REQUEST_COLUMNS),
     db_versions = [Some 1], db_rows = [running_row]\<rparr>"

theorem restart_settles_attempts_witness:
  "status (db_rows (snd (initialize sample_config noon sample_database))) sample_id \<in> {Some Ambiguous, Some Expired} \<and>
    list_all (\<lambda>r. c_state r \<noteq> In_Progress) (db_rows (snd (initialize sample_config noon sample_database)))"
proof (rule restart_settles_attempts [OF _ _ sample_clock_ok])
  show "supported_schema sample_database"
    using tables_differ by (auto simp: supported_schema_def sample_database_def SCHEMA_VERSION_def)
  show "table_ok (db_rows sample_database)" by (simp add: sample_database_def sample_tables)
  show "status (db_rows sample_database) sample_id = Some In_Progress"
    by (simp add: sample_database_def status_def sample_find) (simp add: running_row_def started_def)
qed

text \<open>
  An elementary change of the table forgets an id only once it is retired, and lets one appear
  only as reserved and be in progress only after having been reserved.
\<close>

lemma elementary_transitions:
  assumes "table_ok t" "clocked_step cfg t t'"
  shows "(status t rid = None \<longrightarrow> status t' rid = None \<or> status t' rid = Some Reserved) \<and>
    (status t' rid = None \<longrightarrow> status t rid \<in> {None, Some Expired, Some Acknowledged}) \<and>
    (status t' rid = Some In_Progress \<longrightarrow> status t rid \<in> {Some Reserved, Some In_Progress})"
  using ledger.new_is_reserved [OF assms, of rid] ledger.forgotten_only_retired [OF assms, of rid]
    ledger.dispatched_from_reserved [OF assms, of rid]
  by (cases "status t' rid"; cases "status t rid") (auto simp: is_retired_def)

text \<open>
  C37: What each operation of the store may do to a request.  A call leaves the row of an id as it
  is or makes one of these changes: the clean-up forgets a tombstone past its retention or
  expires an overdue row; \<open>admit\<close> records the request, not yet expired, as reserved where there
  was no row or a tombstone past its retention; \<open>mark_in_progress\<close> starts a reserved row; and
  \<open>reset_reserved\<close>, \<open>mark_ambiguous\<close>, \<open>mark_failed\<close> and \<open>complete\<close> move a row in progress under
  the attempt they name, \<open>acknowledge\<close> a completed row of its owner, and the recovery at start-up
  a row in progress to ambiguous.  Any other transition is impossible.
\<close>

theorem ledger_transitions:
  assumes "call_ok call" "table_ok t" "clock_ok cfg now"
  shows "find_row rid (run_call cfg cipher now call t) = find_row rid t \<or>
    (case find_row rid (run_call cfg cipher now call t) of
       None \<Rightarrow> \<exists>r. find_row rid t = Some r \<and> stale cfg now r
     | Some r' \<Rightarrow>
        (case c_state r' of
           Reserved \<Rightarrow>
             (\<exists>request owner digest. call = Call_Admit request owner digest \<and> request_id request = rid \<and>
                \<not> expires_at request \<le> now \<and> r' = new_row request owner digest now \<and>
                (\<forall>r. find_row rid t = Some r \<longrightarrow> stale cfg now r)) \<or>
             (\<exists>r attempt. call = Call_Reset_Reserved rid attempt \<and> find_row rid t = Some r \<and>
                c_state r = In_Progress \<and> c_attempt_id r = Some attempt)
         | In_Progress \<Rightarrow> \<exists>r attempt. call = Call_Mark_In_Progress rid attempt \<and> find_row rid t = Some r \<and>
             c_state r = Reserved \<and> \<not> overdue now r \<and> c_attempt_id r' = Some attempt
         | Completed \<Rightarrow> \<exists>r attempt. (\<exists>nonce media content deployment version.
                call = Call_Complete nonce rid attempt media content deployment version) \<and>
             find_row rid t = Some r \<and> c_state r = In_Progress \<and> c_attempt_id r = Some attempt \<and> \<not> overdue now r
         | Failed \<Rightarrow> \<exists>r attempt. (\<exists>code retryable after. call = Call_Mark_Failed rid attempt code retryable after) \<and>
             find_row rid t = Some r \<and> c_state r = In_Progress \<and> c_attempt_id r = Some attempt
         | Ambiguous \<Rightarrow> \<exists>r. find_row rid t = Some r \<and> c_state r = In_Progress \<and>
             (call = Call_Recover \<or> (\<exists>attempt. call = Call_Mark_Ambiguous rid attempt \<and> c_attempt_id r = Some attempt))
         | Expired \<Rightarrow> \<exists>r. find_row rid t = Some r \<and> overdue now r \<and> r' = expire_row now r
         | Acknowledged \<Rightarrow> \<exists>r owner disposition. call = Call_Acknowledge rid owner disposition \<and>
             find_row rid t = Some r \<and> c_state r = Completed \<and> c_credential_hash r = owner))"
    (is "?same \<or> ?moved")
proof -
  have row: "find_row rid (run_call cfg cipher now call t) = ledger_call cfg cipher now call (ledger_of t) rid"
    using call_refines [OF assms, of cipher] by (metis ledger_of_def)
  have m: "ledger_of t k = find_row k t" for k by (simp add: ledger_of_def)
  show ?thesis
  proof (cases call)
    case Call_Recover
    then show ?thesis unfolding row
      by (auto simp: m ledger_clean_def cleaned_def expire_row_def overdue_def stale_def is_retired_def
          split: option.splits request_state.splits if_splits)
  next
    case (Call_Admit request owner digest)
    then show ?thesis unfolding row
      by (auto simp: m ledger_admit_def ledger_clean_def cleaned_def expire_row_def new_row_def Let_def
          split: option.splits if_splits)
  next
    case (Call_Get_Owned rid' owner digest)
    then show ?thesis unfolding row
      by (auto simp: m ledger_get_def ledger_clean_def cleaned_def expire_row_def Let_def
          split: option.splits if_splits)
  next
    case (Call_Mark_In_Progress rid' attempt)
    then show ?thesis unfolding row
      by (auto simp: m ledger_start_def ledger_clean_def cleaned_def expire_row_def started_def Let_def
          split: option.splits if_splits)
  next
    case (Call_Complete nonce rid' attempt media content deployment version)
    then show ?thesis unfolding row
      by (auto simp: m ledger_complete_def ledger_clean_def cleaned_def expire_row_def finished_def owns_attempt_def Let_def
          split: option.splits if_splits sum.splits)
  next
    case Call_Maintain
    then show ?thesis unfolding row
      by (auto simp: m ledger_clean_def cleaned_def expire_row_def split: option.splits if_splits)
  next
    case (Call_Acknowledge rid' owner disposition)
    then show ?thesis unfolding row
      by (auto simp: m ledger_acknowledge_def ledger_clean_def cleaned_def expire_row_def acknowledged_def Let_def
          split: option.splits if_splits)
  next
    case (Call_Reset_Reserved rid' attempt)
    then show ?thesis unfolding row by (auto simp: m ledger_update_def owns_attempt_def split: option.splits)
  next
    case (Call_Mark_Ambiguous rid' attempt)
    then show ?thesis unfolding row by (auto simp: m ledger_update_def owns_attempt_def split: option.splits)
  next
    case (Call_Mark_Failed rid' attempt code retryable after)
    then show ?thesis unfolding row by (auto simp: m ledger_update_def owns_attempt_def split: option.splits)
  qed
qed

lemma sample_started:
  "run_call sample_config plain_cipher noon (Call_Mark_In_Progress sample_id (py ''attempt'')) [sample_row] = [running_row]"
  using sample_start by simp

theorem ledger_transitions_witness:
  "\<exists>r. find_row sample_id [sample_row] = Some r \<and> c_state r = Reserved \<and> \<not> overdue noon r \<and>
    find_row sample_id (run_call sample_config plain_cipher noon
      (Call_Mark_In_Progress sample_id (py ''attempt'')) [sample_row]) = Some running_row"
proof -
  have "c_state running_row = In_Progress" "running_row \<noteq> sample_row"
    by (auto simp: running_row_def started_def sample_row_def new_row_def dest: arg_cong [where f = c_state])
  moreover note ledger_transitions [OF _ sample_tables(2) sample_clock_ok,
      of "Call_Mark_In_Progress sample_id (py ''attempt'')" sample_id plain_cipher, unfolded sample_started sample_find]
  ultimately show ?thesis unfolding sample_started sample_find by auto
qed

end
