(* ===== verification/Service_Properties.thy ===== *)
theory Service_Properties
  imports Service_System Service_Flow Store_Properties
begin

text \<open>
  The properties of the service in app.py, each with a witness where it has hypotheses.
\<close>

subsection \<open>Samples\<close>

definition sample_settings :: settings where
  "sample_settings = \<lparr>database_path = py ''gateway.db'', credentials_path = py ''credentials.json'',
     encryption_key_path = py ''key'', ollama_base_url = py ''http://127.0.0.1:11434'',
     ollama_model = py ''model'', deployment_id = py ''deployment'', lm_studio_fallback = None,
     bind_host = py ''127.0.0.1'', bind_port = 8787, tls_certificate_path = None, tls_key_path = None,
     request_max_bytes = 1000000, request_max_lifetime_seconds = 900, worker_timeout_seconds = 300,
     retry_after_seconds = 15, open_total_limit = 16, open_per_credential_limit = 4,
     tombstone_seconds = 86400, maintenance_interval_seconds = 30\<rparr>"

definition sample_service :: service where
  "sample_service = \<lparr>the_settings = sample_settings, the_store = sample_config,
     the_cipher = plain_cipher, sha256_hex = (\<lambda>_. py ''digest'')\<rparr>"

definition sample_credential :: credential where
  "sample_credential = \<lparr>identity_hash = py ''owner'', token_digest = [], tasks = {(py ''email.analyze'', 1)}\<rparr>"

lemma sample_service_simps [simp]:
  "the_settings sample_service = sample_settings" "the_store sample_service = sample_config"
  "the_cipher sample_service = plain_cipher" "sha256_hex sample_service = (\<lambda>_. py ''digest'')"
  "identity_hash sample_credential = py ''owner''"
  by (simp_all add: sample_service_def sample_credential_def)

lemma sample_policy: "validate_policy sample_service sample_credential sample_request noon = Inr ()"
  by (simp add: validate_policy_def TASK_POLICIES_def DOCUMENT_TASK_V2_def task_of_def sample_expires
      sample_settings_def sample_credential_def maximum_expiry_def Let_def)
    (simp add: sample_request_def sample_schema_def uses_passage_definitions_def is_bounded_root_object_choice_def
      jhas_def jkeys_def)

lemma sample_digest: "canonical_digest (\<lambda>_. py ''digest'') sample_request = Inr (py ''digest'')"
  using canonical_digest_total [OF sample_sound, of "\<lambda>_. py ''digest''"]
  by (auto simp: canonical_digest_def bind_res_eq_Inr)

text \<open>A run of one thread is a run of the system; a calm one has no answer of the worker yet.\<close>

definition solo :: "service \<Rightarrow> bool \<Rightarrow> gateway \<Rightarrow> json service_program \<Rightarrow> bool" where
  "solo srv calm g p = (\<exists>s. reachable srv s \<and> shared s = g \<and> threads s = [p] \<and> (calm \<longrightarrow> answered s = (\<lambda>_. 0)))"

lemma reachable_step: "reachable srv s \<Longrightarrow> system_step srv s s' \<Longrightarrow> reachable srv s'"
  unfolding reachable_def by (meson rtranclp.rtrancl_into_rtrancl)

lemma solo_start:
  assumes "table_ok t" "strptime_utc (request_expires_at request) \<noteq> None"
  shows "solo srv calm (idle_gateway t) (infer srv credential request)"
proof -
  have "reachable srv (first_system t)" using assms(1) by (auto simp: reachable_def)
  from reachable_step [OF this system_step.arrive [OF assms(2)]] show ?thesis
    by (auto simp: solo_def first_system_def intro!: exI)
qed

lemma solo_ask:
  assumes "solo srv calm g (Ask q k)" and r: "reply_ok (the_store srv) g q r" "calm \<Longrightarrow> \<forall>a. r \<noteq> Answer a"
  shows "solo srv calm g (k r)"
proof -
  from assms(1) obtain s where s: "reachable srv s" "shared s = g" "threads s = [Ask q k]"
    "calm \<longrightarrow> answered s = (\<lambda>_. 0)" by (auto simp: solo_def)
  let ?s = "count_answer q r (s\<lparr>threads := (threads s)[0 := k r]\<rparr>)"
  have "system_step srv s ?s" by (rule system_step.ask) (use s r(1) in simp_all)
  moreover have "shared ?s = g" "threads ?s = [k r]"
    using s(2,3) by (simp_all add: count_answer_def split: service_question.split)
  moreover have "answered ?s = (\<lambda>_. 0)" if calm
    using s(4) r that by (auto simp: count_answer_def reply_ok_def kind_ok_def split: service_question.splits service_reply.splits)
  ultimately show ?thesis using reachable_step [OF s(1)] unfolding solo_def by blast
qed

lemma solo_change: "solo srv calm g (Change u k) \<Longrightarrow> solo srv calm (u g) (k g)"
proof -
  assume "solo srv calm g (Change u k)"
  then obtain s where s: "reachable srv s" "shared s = g" "threads s = [Change u k]"
    "calm \<longrightarrow> answered s = (\<lambda>_. 0)" by (auto simp: solo_def)
  let ?s = "count_admission (u (shared s)) (s\<lparr>threads := (threads s)[0 := k (shared s)]\<rparr>)"
  have "system_step srv s ?s" by (rule system_step.change) (use s in simp_all)
  moreover have "shared ?s = u g" "threads ?s = [k g]" "calm \<longrightarrow> answered ?s = (\<lambda>_. 0)"
    using s(2,3,4) by (simp_all add: count_admission_def)
  ultimately show ?thesis using reachable_step [OF s(1)] unfolding solo_def by blast
qed

primrec advance ::
    "json service_program \<Rightarrow> service_reply list \<Rightarrow> gateway \<Rightarrow> gateway \<times> json service_program" where
  "advance (Finish x) rs g = (g, Finish x)"
| "advance (Ask q k) rs g = (case rs of [] \<Rightarrow> (g, Ask q k) | r # rs' \<Rightarrow> advance (k r) rs' g)"
| "advance (Change u k) rs g = advance (k g) rs (u g)"

primrec polite :: "store_config \<Rightarrow> json service_program \<Rightarrow> service_reply list \<Rightarrow> gateway \<Rightarrow> bool" where
  "polite cfg (Finish x) rs g = True"
| "polite cfg (Ask q k) rs g = (case rs of [] \<Rightarrow> True | r # rs' \<Rightarrow> reply_ok cfg g q r \<and> polite cfg (k r) rs' g)"
| "polite cfg (Change u k) rs g = polite cfg (k g) rs (u g)"

lemma solo_advance:
  "solo srv calm g p \<Longrightarrow> polite (the_store srv) p rs g \<Longrightarrow> (calm \<Longrightarrow> \<forall>a. Answer a \<notin> set rs) \<Longrightarrow>
    solo srv calm (fst (advance p rs g)) (snd (advance p rs g))"
proof (induction p arbitrary: rs g)
  case (Finish x)
  then show ?case by simp
next
  case (Ask q k)
  show ?case
  proof (cases rs)
    case Nil
    then show ?thesis using Ask.prems(1) by simp
  next
    case (Cons r rs')
    then have "solo srv calm g (k r)" using Ask.prems(2,3) by (intro solo_ask [OF Ask.prems(1)]) auto
    then show ?thesis using Cons Ask.prems(2,3) Ask.IH [of "k r" g rs'] by simp
  qed
next
  case (Change u k)
  then show ?case using solo_change [OF Change.prems(1)] by auto
qed

definition dispatch_script :: "service_reply list" where
  "dispatch_script = [Time noon, Begun True, Uuid (py ''attempt''), Time noon, Begun True, Time noon]"

lemma sample_first: "existing_response srv (the_record sample_row) = Inr None"
    "r_state (the_record sample_row) = Reserved" "r_request_id (the_record sample_row) = sample_id"
  by (simp_all add: existing_response_def the_record_simps [OF sample_row_ok(1)])
    (simp_all add: sample_row_def new_row_def sample_request_def)

lemma sample_timely: "\<not> expires_at sample_request \<le> noon" "request_id sample_request = sample_id"
  by (simp add: sample_expires) (simp add: sample_request_def)

lemma sample_dispatch:
  "\<exists>k. advance (infer sample_service sample_credential sample_request) dispatch_script (idle_gateway []) =
    (\<lparr>requests = [running_row], lane = Some \<lparr>identity = 0, attempt_request = sample_id\<rparr>, next_identity = 1,
       finished_attempts = {}\<rparr>, Ask (Call_Worker sample_request 300) k) \<and>
   polite sample_config (infer sample_service sample_credential sample_request) dispatch_script (idle_gateway [])"
  using sample_timely
  by (simp add: dispatch_script_def infer_def run_simps read_clock_def transact_def sample_policy sample_digest
      sample_admit sample_first sample_start claim_lane_def run_attempt_def attempt_body_def refuse_expired_def
      call_worker_def idle_gateway_def Let_def reply_ok_def kind_ok_def sample_clock_ok)
    (simp add: sample_settings_def seconds_between_def sample_expires)

lemma dispatched_system:
  "\<exists>s k. reachable sample_service s \<and> requests (shared s) = [running_row] \<and>
    threads s = [Ask (Call_Worker sample_request 300) k] \<and> answered s = (\<lambda>_. 0)"
proof -
  have "solo sample_service True (idle_gateway []) (infer sample_service sample_credential sample_request)"
    by (rule solo_start) (use sample_expiry in \<open>simp_all add: sample_tables sample_request_def\<close>)
  moreover have "\<forall>a. Answer a \<notin> set dispatch_script" by (simp add: dispatch_script_def)
  ultimately show ?thesis
    using solo_advance [of sample_service True "idle_gateway []" _ dispatch_script] sample_dispatch by (fastforce simp: solo_def)
qed

subsection \<open>Properties of every reachable system\<close>

text \<open>
  C4: However threads, maintenance and restarts interleave, and whatever SQLite or the worker
  answers, at most one worker call is in flight.
\<close>

theorem single_worker_call:
  assumes "reachable srv s"
  shows "length (filter in_flight (threads s)) \<le> 1"
proof -
  obtain phs where ok: "system_ok srv s phs" using reachable_ok [OF assms] by blast
  then have "length (held phs) \<le> 1" by (simp add: system_ok_def split: option.splits)
  then show ?thesis using single_flight_count [OF ok] by linarith
qed

theorem single_worker_call_witness:
  "\<exists>s. reachable sample_service s \<and> 1 \<le> length (filter in_flight (threads s)) \<and>
    length (filter in_flight (threads s)) \<le> 1"
proof -
  obtain s k where s: "reachable sample_service s" "threads s = [Ask (Call_Worker sample_request 300) k]"
    using dispatched_system by blast
  from single_worker_call [OF s(1)] s show ?thesis by (intro exI [of _ s]) (simp add: in_flight_def)
qed

lemma calls_accounted:
  assumes "reachable srv s"
  shows "answered s rid + length (filter (in_flight_for rid) (threads s)) \<le> admitted s rid + refused s rid"
proof -
  obtain phs where ok: "system_ok srv s phs" using reachable_ok [OF assms] by blast
  then have "answered s rid + reservations (requests (shared s)) rid + sum_list (map (pending rid) phs) \<le>
      admitted s rid + refused s rid"
    by (simp add: system_ok_def)
  then show ?thesis using flight_pending_count [OF ok, of rid] by linarith
qed

text \<open>
  C3: A request is never sent to the worker twice by mistake: for every request id the calls made,
  running ones included, are at most the times the id was reserved plus the times the worker
  reported that it had not taken the request.
\<close>

theorem worker_calls_accounted:
  assumes "reachable srv s"
  shows "answered s rid + length (filter (in_flight_for rid) (threads s)) \<le> admitted s rid + refused s rid"
  using assms by (rule calls_accounted)

theorem worker_calls_accounted_witness:
  "\<exists>s :: system. 1 \<le> length (filter (in_flight_for sample_id) (threads s)) \<and>
    answered s sample_id + length (filter (in_flight_for sample_id) (threads s)) \<le>
      admitted s sample_id + refused s sample_id"
proof -
  obtain s k where s: "reachable sample_service s" "threads s = [Ask (Call_Worker sample_request 300) k]"
    using dispatched_system by blast
  have "1 \<le> length (filter (in_flight_for sample_id) (threads s))"
    using s(2) sample_timely by (simp add: in_flight_for_def)
  then show ?thesis using worker_calls_accounted [OF s(1)] by blast
qed

text \<open>
  C16: The lane is never lost: whenever every call has ended, however it ended, the lane is free.
\<close>

theorem lane_always_released:
  assumes "reachable srv s" "list_all (\<lambda>p. \<exists>r. p = Finish r) (threads s)"
  shows "lane (shared s) = None"
  using reachable_ok [OF assms(1)] quiescent_lane [OF _ assms(2)] by blast

lemma refused_run:
  "\<exists>s r. reachable sample_service s \<and> threads s = [Finish (Inl r)] \<and> next_identity (shared s) = 1"
proof -
  let ?script = "[Time noon, Begun True, Uuid (py ''attempt''), Time noon, Begun False]"
  have "polite sample_config (infer sample_service sample_credential sample_request) ?script (idle_gateway []) \<and>
    advance (infer sample_service sample_credential sample_request) ?script (idle_gateway []) =
      (\<lparr>requests = [sample_row], lane = None, next_identity = 1, finished_attempts = {0}\<rparr>, throw OperationalError)"
    using sample_timely
    by (simp add: infer_def run_simps read_clock_def transact_def sample_policy sample_digest
        sample_admit sample_first claim_lane_def run_attempt_def attempt_body_def refuse_expired_def
        store_exception_def release_lane_def idle_gateway_def Let_def reply_ok_def kind_ok_def sample_clock_ok)
  moreover have "solo sample_service False (idle_gateway []) (infer sample_service sample_credential sample_request)"
    by (rule solo_start) (use sample_expiry in \<open>simp_all add: sample_tables sample_request_def\<close>)
  ultimately show ?thesis using solo_advance [of sample_service False "idle_gateway []" _ ?script] by (fastforce simp: solo_def)
qed

theorem lane_always_released_witness:
  "\<exists>s :: system. threads s \<noteq> [] \<and> next_identity (shared s) = 1 \<and> lane (shared s) = None"
proof -
  obtain s r where s: "reachable sample_service s" "threads s = [Finish (Inl r)]" "next_identity (shared s) = 1"
    using refused_run by blast
  have "lane (shared s) = None" by (rule lane_always_released [OF s(1)]) (simp add: s(2))
  then show ?thesis using s by (intro exI [of _ s]) simp
qed

subsection \<open>What one call does\<close>

text \<open>
  C8: A fresh, authorized request within the limits is reserved, sent to the worker once, completed
  and answered with exactly the content the worker produced; the lane is free again and the
  waiters of the attempt are woken.
\<close>

theorem fresh_request_completes:
  assumes "validate_policy srv credential request t0 = Inr ()"
    "canonical_digest (sha256_hex srv) request = Inr d" "table_ok (requests g)" "lane g = None"
    "\<forall>t \<in> set [t0, t1, t2, t3, t4]. in_time (the_store srv) request t"
    "comparable_expiry (request_expires_at request)"
    "find_row (request_id request) (cleanup (the_store srv) t0 (requests g)) = None"
    "open_count (cleanup (the_store srv) t0 (requests g)) < max_open_total (the_store srv)"
    "owner_open_count (identity_hash credential) (cleanup (the_store srv) t0 (requests g)) < max_open_per_credential (the_store srv)"
    "faithful (the_cipher srv)" "utf8_encode (content result) = Inr bytes"
    "is_ascii_text (request_id request)" "is_ascii_text (identity_hash credential)" "is_ascii_text d"
  shows "\<exists>g'. play (infer srv credential request)
      [Time t0, Begun True, Uuid u, Time t1, Begun True, Time t2, Answer (Inr result),
       Time t3, Nonce n, Begun True, Time t4, Begun True] g =
    (attempt_questions request \<lparr>identity = next_identity g, attempt_request = request_id request\<rparr>
       (min (worker_timeout_seconds (the_settings srv)) (max (1 / 1000) (seconds_between (expires_at request) t2))), g',
     Some (Inr (success_body srv request result))) \<and>
    lane g' = None \<and> status (requests g') (request_id request) = Some Completed \<and>
    next_identity g \<in> finished_attempts g'"
  using assms(5) by (intro infer_completes [OF assms(1-4) _ _ _ _ _ assms(6-14)]) simp_all

definition sample_result :: worker_result where
  "sample_result = \<lparr>media_type = py ''application/json'', content = py ''{}''\<rparr>"

text \<open>The facts about the sample request that its run needs.\<close>

lemma sample_attempt_facts:
  "min (worker_timeout_seconds sample_settings) (max (1 / 1000) (seconds_between (expires_at sample_request) noon)) = 300"
  "min (worker_timeout_seconds sample_settings) (seconds_between (expires_at sample_request) noon) = 300"
  "is_ascii_text (request_id sample_request)" "is_ascii_text (py ''owner'')" "is_ascii_text (py ''digest'')"
  "open_count [] < max_open_total sample_config" "owner_open_count owner [] < max_open_per_credential sample_config"
  "find_row rid [] = None" "in_time sample_config sample_request noon"
  "utf8_encode (content sample_result) = Inr (py ''{}'')" "comparable_expiry (request_expires_at sample_request)"
proof -
  show "min (worker_timeout_seconds sample_settings) (max (1 / 1000) (seconds_between (expires_at sample_request) noon)) = 300"
      "min (worker_timeout_seconds sample_settings) (seconds_between (expires_at sample_request) noon) = 300"
    by (simp_all add: sample_settings_def seconds_between_def sample_expires)
  show "is_ascii_text (request_id sample_request)" "is_ascii_text (py ''owner'')" "is_ascii_text (py ''digest'')"
    by (simp_all add: sample_timely sample_id_def is_ascii_text_def py_def)
  show "open_count [] < max_open_total sample_config" "owner_open_count owner [] < max_open_per_credential sample_config"
      "find_row rid [] = None"
    by (simp_all add: open_count_def owner_open_count_def count_where_def sample_config_def find_row_def)
  show "in_time sample_config sample_request noon" by (simp add: in_time_def sample_clock_ok sample_expires)
  show "utf8_encode (content sample_result) = Inr (py ''{}'')"
    by (simp add: sample_result_def utf8_encode_ascii is_ascii_text_def py_def)
  show "comparable_expiry (request_expires_at sample_request)"
    using sample_comparable by (simp add: sample_request_def)
qed

theorem fresh_request_completes_witness:
  "\<exists>g'. play (infer sample_service sample_credential sample_request)
      [Time noon, Begun True, Uuid (py ''attempt''), Time noon, Begun True, Time noon, Answer (Inr sample_result),
       Time noon, Nonce [], Begun True, Time noon, Begun True] (idle_gateway []) =
    (attempt_questions sample_request \<lparr>identity = 0, attempt_request = sample_id\<rparr> 300, g',
     Some (Inr (success_body sample_service sample_request sample_result))) \<and>
    lane g' = None \<and> status (requests g') sample_id = Some Completed \<and> 0 \<in> finished_attempts g'"
proof -
  from fresh_request_completes [of sample_service sample_credential sample_request noon "py ''digest''" "idle_gateway []"
      noon noon noon noon sample_result "py ''{}''" "py ''attempt''" "[]"]
  show ?thesis
    using sample_attempt_facts plain_cipher_faithful sample_policy sample_digest sample_timely(2)
    by (simp add: idle_gateway_def sample_tables sample_cleanup)
qed

lemma sample_attempt:
  "\<exists>g'. play (infer sample_service sample_credential sample_request)
      [Time noon, Begun True, Uuid (py ''attempt''), Time noon, Begun True, Time noon, Answer (Inr sample_result),
       Time noon, Nonce [], Begun True, Time noon, Begun True] (idle_gateway []) =
    (attempt_questions sample_request \<lparr>identity = 0, attempt_request = sample_id\<rparr> 300, g',
     Some (Inr (success_body sample_service sample_request sample_result)))"
proof -
  from infer_completes [of sample_service sample_credential sample_request noon "py ''digest''" "idle_gateway []"
      noon noon noon noon sample_result "py ''{}''" "py ''attempt''" "[]"]
  show ?thesis
    using sample_attempt_facts plain_cipher_faithful sample_policy sample_digest sample_timely(2)
    by (auto simp: idle_gateway_def sample_tables sample_cleanup)
qed

text \<open>
  C15: Every inference call ends, and soon.  Whatever the other parties answer, it asks at most 14
  questions (clock readings, transactions, identifiers, waits and worker calls) and, given as many
  replies, returns or raises.  At most one of the questions blocks, and that one has a time limit:
  either it waits for an attempt on the same request, for at most one second more than the worker
  timeout, and then asks at most 6 questions in all, with no second wait and no retry; or it sends
  exactly this request to the worker, at a clock reading before its expiry, for at most the worker
  timeout and at most the time that is left then, but no less than a millisecond.
\<close>

theorem inference_ends:
  assumes "play (infer srv credential request) rs g = (qs, g', x)"
  shows "length qs \<le> 14 \<and> (14 \<le> length rs \<longrightarrow> (\<exists>y. x = Some y)) \<and>
    length (filter (\<lambda>q. (\<exists>a l. q = Wait_For a l) \<or> (\<exists>sent l. q = Call_Worker sent l)) qs) \<le> 1 \<and>
    (\<forall>a l. Wait_For a l \<in> set qs \<longrightarrow> length qs \<le> 6 \<and> attempt_request a = request_id request \<and>
      l \<le> worker_timeout_seconds (the_settings srv) + 1 \<and>
      min (worker_timeout_seconds (the_settings srv) + 1) (1 / 1000) \<le> l) \<and>
    (\<forall>sent l. Call_Worker sent l \<in> set qs \<longrightarrow> sent = request \<and>
      (\<exists>r \<in> set rs. the_time r < expires_at request \<and>
        l = min (worker_timeout_seconds (the_settings srv))
          (max (1 / 1000) (seconds_between (expires_at request) (the_time r)))))"
proof (intro conjI allI impI)
  have one: "price 1 1 1 = (\<lambda>_. 1)" by (rule ext) (simp add: price_def split: service_question.split)
  show "length qs \<le> 14"
    using costs_play [OF priced_infer [of 1 1 14 1] assms] by (simp add: one sum_list_triv del: One_nat_def)
  show "\<exists>y. x = Some y" if "14 \<le> length rs"
    using play_ends [OF _ that assms] priced_infer [of 1 1 14 1 srv credential request] by (simp only: one)
  have blocking: "sum_list (map (price 1 1 0) qs) =
      length (filter (\<lambda>q. (\<exists>a l. q = Wait_For a l) \<or> (\<exists>sent l. q = Call_Worker sent l)) qs)"
    by (induction qs) (auto simp: price_def split: service_question.split)
  show "length (filter (\<lambda>q. (\<exists>a l. q = Wait_For a l) \<or> (\<exists>sent l. q = Call_Worker sent l)) qs) \<le> 1"
    using costs_play [OF priced_infer [of 1 0 1 1] assms] blocking by simp
  have waiting: "length qs + (if Wait_For a l \<in> set qs then 8 else 0) \<le> sum_list (map (price 9 1 1) qs)" for a l
    by (induction qs) (auto simp: price_def split: service_question.split)
  show "length qs \<le> 6" if "Wait_For a l \<in> set qs" for a l
    using costs_play [OF priced_infer [of 1 1 14 9] assms] waiting [of a l] that by simp
  note asked = among_play [OF bounded_infer subset_refl assms]
  show "attempt_request a = request_id request" "l \<le> worker_timeout_seconds (the_settings srv) + 1"
      "min (worker_timeout_seconds (the_settings srv) + 1) (1 / 1000) \<le> l" if "Wait_For a l \<in> set qs" for a l
    using asked [OF that] by (simp_all add: limited_def)
  show "sent = request" "\<exists>r \<in> set rs. the_time r < expires_at request \<and>
        l = min (worker_timeout_seconds (the_settings srv))
          (max (1 / 1000) (seconds_between (expires_at request) (the_time r)))"
    if "Call_Worker sent l \<in> set qs" for sent l
    using asked [OF that] by (simp_all add: limited_def)
qed

theorem inference_ends_witness:
  "\<exists>g' x. play (infer sample_service sample_credential sample_request)
      [Time noon, Begun True, Uuid (py ''attempt''), Time noon, Begun True, Time noon, Answer (Inr sample_result),
       Time noon, Nonce [], Begun True, Time noon, Begun True] (idle_gateway []) =
    (attempt_questions sample_request \<lparr>identity = 0, attempt_request = sample_id\<rparr> 300, g', x) \<and>
    length (attempt_questions sample_request \<lparr>identity = 0, attempt_request = sample_id\<rparr> 300) \<le> 14 \<and>
    (\<exists>r. the_time r < expires_at sample_request \<and> 300 = min (worker_timeout_seconds sample_settings)
      (max (1 / 1000) (seconds_between (expires_at sample_request) (the_time r))))"
proof -
  obtain g' x where run: "play (infer sample_service sample_credential sample_request)
      [Time noon, Begun True, Uuid (py ''attempt''), Time noon, Begun True, Time noon, Answer (Inr sample_result),
       Time noon, Nonce [], Begun True, Time noon, Begun True] (idle_gateway []) =
    (attempt_questions sample_request \<lparr>identity = 0, attempt_request = sample_id\<rparr> 300, g', x)"
    using sample_attempt by blast
  have "Call_Worker sample_request 300 \<in> set (attempt_questions sample_request \<lparr>identity = 0, attempt_request = sample_id\<rparr> 300)"
    by (simp add: attempt_questions_def)
  then show ?thesis using run inference_ends [OF run] by (simp only: sample_service_simps) blast
qed

text \<open>
  C9: A request that was completed is answered again from the table, with the same content and
  provenance, in one transaction and without touching the lane or the worker.
\<close>

theorem completed_request_replayed:
  assumes "validate_policy srv credential request now = Inr ()" "canonical_digest (sha256_hex srv) request = Inr d"
    "live (the_store srv) now (requests g) (request_id request) r" "c_state r = Completed"
    "c_credential_hash r = identity_hash credential" "c_request_digest r = d"
    "output_of (the_cipher srv) (the_record r) = Inr answer"
  shows "play (infer srv credential request) [Time now, Begun True] g =
    ([Read_Clock, Begin_Transaction], g\<lparr>requests := cleanup (the_store srv) now (requests g)\<rparr>,
     Some (Inr (completed_response (the_record r) (the (c_producing_deployment_id r))
       (the (c_producing_task_policy_version r)) answer)))"
  by (rule infer_replays [OF assms])

theorem completed_request_replayed_witness:
  "play (infer sample_service sample_credential sample_request) [Time noon, Begun True] (idle_gateway [done_row]) =
    ([Read_Clock, Begin_Transaction], (idle_gateway [done_row])\<lparr>requests := cleanup sample_config noon [done_row]\<rparr>,
     Some (Inr (completed_response (the_record done_row) (the (c_producing_deployment_id done_row))
       (the (c_producing_task_policy_version done_row)) (py ''{}''))))"
proof -
  have "live sample_config noon [done_row] sample_id done_row"
  proof (rule in_time_live [OF _ sample_comparable done_row_facts(1,3)])
    show "in_time sample_config sample_request noon" by (simp add: in_time_def sample_clock_ok sample_expires)
    show "c_expires_at done_row = request_expires_at sample_request"
      by (simp add: done_row_def finished_def running_row_def started_def sample_row_def new_row_def)
  qed (simp add: done_row_facts is_retired_def)
  moreover have "output_of plain_cipher (the_record done_row) = Inr (py ''{}'')"
    using complete_reads_back [OF sample_tables(3) plain_cipher_faithful sample_complete] done_row_facts(3) by auto
  moreover have "c_request_digest done_row = py ''digest''"
    by (simp add: done_row_def finished_def running_row_def started_def sample_row_def new_row_def)
  ultimately show ?thesis
    using completed_request_replayed [OF sample_policy, of "py ''digest''" "idle_gateway [done_row]" done_row "py ''{}''"]
      sample_digest sample_timely(2) done_row_facts
    by (simp add: idle_gateway_def)
qed

lemma maximum_expiry_le: "maximum_expiry lifetime now \<le> (now div 1000000 + 1 + lifetime) * 1000000"
proof -
  let ?m = "now + lifetime * 1000000"
  have "?m div 1000000 = now div 1000000 + lifetime" by simp
  moreover have "?m = ?m div 1000000 * 1000000 + ?m mod 1000000" "?m mod 1000000 < 1000000" by simp_all
  ultimately show ?thesis unfolding maximum_expiry_def Let_def by (auto simp: algebra_simps)
qed

text \<open>
  C20: When the retention is at least the request lifetime, a request that passed the policy is
  forgotten after its acknowledgement only once it has expired, so it cannot run again.
\<close>

theorem tombstone_outlives_request:
  assumes "validate_policy srv credential request admitted_at = Inr ()" "admitted_at \<le> retired_at"
    "c_updated_at r = timestamp retired_at" "stale (the_store srv) now r"
    "clock_range retired_at" "clock_ok (the_store srv) now"
    "request_max_lifetime_seconds (the_settings srv) \<le> tombstone_retention_seconds (the_store srv)"
  shows "expires_at request \<le> now"
proof -
  let ?L = "request_max_lifetime_seconds (the_settings srv)" and ?R = "tombstone_retention_seconds (the_store srv)"
  have "expires_at request \<le> maximum_expiry ?L admitted_at"
    using assms(1) by (auto simp: validate_policy_def Let_def split: if_splits option.splits)
  also have "\<dots> \<le> (admitted_at div 1000000 + 1 + ?L) * 1000000" by (rule maximum_expiry_le)
  also have "\<dots> \<le> (retired_at div 1000000 + 1 + ?L) * 1000000"
    using zdiv_mono1 [OF assms(2), of 1000000] by simp
  finally have e: "expires_at request \<le> (dt_secs retired_at + 1 + ?L) * 1000000" by (simp add: dt_secs_def)
  have "timestamp retired_at < timestamp (now - ?R * 1000000)"
    using assms(3,4) by (simp add: stale_def retention_cutoff_def)
  then have "dt_secs retired_at < dt_secs (now - ?R * 1000000)"
    using timestamp_less assms(5,6) by (simp add: clock_ok_def retention_cutoff_def)
  then have "dt_secs retired_at + 1 + ?R \<le> now div 1000000" by (simp add: dt_secs_def)
  then have "(dt_secs retired_at + 1 + ?L) * 1000000 \<le> now" using assms(7) by simp
  then show ?thesis using e by linarith
qed

definition next_day :: datetime where "next_day = noon + 86402 * 1000000"

lemma next_day_facts: "clock_ok sample_config next_day" "timestamp (next_day - 86400 * 1000000) = py ''2026-07-01T00:00:02Z''"
  by (simp_all add: next_day_def clock_ok_def retention_cutoff_def sample_config_def clock_range_def dt_year_def
      dt_secs_def calendar_eval) (simp add: stamp_eval py_def)

theorem tombstone_outlives_request_witness:
  "stale sample_config next_day (acknowledged (py ''persisted'') noon done_row) \<and> expires_at sample_request \<le> next_day"
proof -
  have stale: "stale sample_config next_day (acknowledged (py ''persisted'') noon done_row)"
    using next_day_facts(2) noon_text
    by (simp add: stale_def acknowledged_def is_retired_def retention_cutoff_def sample_config_def py_def)
  have "expires_at sample_request \<le> next_day"
  proof (rule tombstone_outlives_request [OF sample_policy order_refl])
    show "c_updated_at (acknowledged (py ''persisted'') noon done_row) = timestamp noon" by (simp add: acknowledged_def)
  qed (use stale sample_clock next_day_facts(1) in \<open>simp_all add: sample_settings_def sample_config_def\<close>)
  then show ?thesis using stale by blast
qed

text \<open>
  Settings may choose a retention below the request lifetime; then an acknowledged request is
  forgotten while it is still valid, and sending it again reserves it for a second run.
\<close>

definition short_retention :: store_config where
  "short_retention = sample_config\<lparr>tombstone_retention_seconds := 1\<rparr>"

abbreviation soon :: datetime where "soon \<equiv> noon + 3 * 1000000"

theorem short_retention_readmits:
  "admit short_retention sample_request (py ''owner'') (py ''digest'') soon
      [acknowledged (py ''persisted'') noon done_row] =
    (Inr (the_record (new_row sample_request (py ''owner'') (py ''digest'') soon)),
     [new_row sample_request (py ''owner'') (py ''digest'') soon])"
proof -
  let ?r = "acknowledged (py ''persisted'') noon done_row"
  have ok: "table_ok [?r]"
    using done_row_facts(1)
    by (simp add: table_ok_def row_ok_def acknowledged_def no_output_def done_row_def finished_def running_row_def
        started_def sample_row_def new_row_def)
  have "timestamp (soon - 1000000) = py ''2026-07-01T00:00:02Z''" by (simp add: stamp_eval py_def)
  then have "stale short_retention soon ?r"
    using noon_text
    by (simp add: stale_def acknowledged_def is_retired_def retention_cutoff_def short_retention_def sample_config_def py_def)
  moreover have "\<not> overdue soon ?r" by (simp add: overdue_def acknowledged_def is_retired_def)
  ultimately have "cleanup short_retention soon [?r] = []" by (simp add: cleanup_def update_where_def)
  then show ?thesis
    using admit_new [OF ok, of sample_request short_retention soon "py ''owner''" "py ''digest''"] sample_expiry
    by (simp add: find_row_def sample_expires open_count_def owner_open_count_def count_where_def short_retention_def
        sample_config_def) (simp add: sample_request_def)
qed

end
