(* ===== verification/Json_Parse.thy ===== *)
theory Json_Parse
  imports Json_Text
begin

text \<open>
  Reading JSON: \<open>json.loads\<close> on bytes with the hooks the gateway passes, as CPython's scanner
  works, and \<open>parse_json_object\<close>.  The recursion limit of the interpreter is a parameter; the
  fuel of the scanner is one more than twice the length of the text, which is proved to be enough.
\<close>

subsection \<open>Bytes to text\<close>

text \<open>UTF-8 with the \<open>surrogatepass\<close> handler: encoded surrogates are let through.\<close>

fun utf8_decode_pass :: "nat list \<Rightarrow> pystr option" where
  "utf8_decode_pass [] = Some []"
| "utf8_decode_pass (b # bs) =
    (if b < 128 then map_option (\<lambda>s. b # s) (utf8_decode_pass bs)
     else if b < 194 then None
     else if b < 224 then
       (case bs of c # r \<Rightarrow>
          if is_cont c then map_option (\<lambda>s. ((b - 192) * 64 + (c - 128)) # s) (utf8_decode_pass r) else None
        | _ \<Rightarrow> None)
     else if b < 240 then
       (case bs of c # d # r \<Rightarrow>
          let p = (b - 224) * 4096 + (c - 128) * 64 + (d - 128)
          in if is_cont c \<and> is_cont d \<and> 2048 \<le> p
             then map_option (\<lambda>s. p # s) (utf8_decode_pass r) else None
        | _ \<Rightarrow> None)
     else if b < 245 then
       (case bs of c # d # e # r \<Rightarrow>
          let p = (b - 240) * 262144 + (c - 128) * 4096 + (d - 128) * 64 + (e - 128)
          in if is_cont c \<and> is_cont d \<and> is_cont e \<and> 65536 \<le> p \<and> p < 1114112
             then map_option (\<lambda>s. p # s) (utf8_decode_pass r) else None
        | _ \<Rightarrow> None)
     else None)"

definition is_high :: "nat \<Rightarrow> bool" where "is_high u = (55296 \<le> u \<and> u < 56320)"
definition is_low :: "nat \<Rightarrow> bool" where "is_low u = (56320 \<le> u \<and> u < 57344)"

definition join_surrogates :: "nat \<Rightarrow> nat \<Rightarrow> nat" where
  "join_surrogates h l = 65536 + (h - 55296) * 1024 + (l - 56320)"

fun utf16_units :: "bool \<Rightarrow> nat list \<Rightarrow> nat list option" where
  "utf16_units big [] = Some []"
| "utf16_units big [b] = None"
| "utf16_units big (a # b # bs) =
    map_option (\<lambda>us. (if big then a * 256 + b else b * 256 + a) # us) (utf16_units big bs)"

fun join_units :: "nat list \<Rightarrow> pystr" where
  "join_units (h # l # us) = (if is_high h \<and> is_low l then join_surrogates h l # join_units us else h # join_units (l # us))"
| "join_units us = us"

fun utf32_points :: "bool \<Rightarrow> nat list \<Rightarrow> pystr option" where
  "utf32_points big [] = Some []"
| "utf32_points big (a # b # c # d # bs) =
    (let p = (if big then ((a * 256 + b) * 256 + c) * 256 + d else ((d * 256 + c) * 256 + b) * 256 + a)
     in if p < 1114112 then map_option (\<lambda>s. p # s) (utf32_points big bs) else None)"
| "utf32_points big bs = None"

text \<open>\<open>detect_encoding\<close> of the \<open>json\<close> package, and the decoding it selects.\<close>

definition decode_json_bytes :: "nat list \<Rightarrow> pystr result" where
  "decode_json_bytes b =
    (let utf16 = (\<lambda>big t. map_option join_units (utf16_units big t));
         text = (if take 4 b = [0, 0, 254, 255] then utf32_points True (drop 4 b)
           else if take 4 b = [255, 254, 0, 0] then utf32_points False (drop 4 b)
           else if take 2 b = [254, 255] then utf16 True (drop 2 b)
           else if take 2 b = [255, 254] then utf16 False (drop 2 b)
           else if take 3 b = [239, 187, 191] then utf8_decode_pass (drop 3 b)
           else if 4 \<le> length b \<and> b ! 0 = 0 then (if b ! 1 \<noteq> 0 then utf16 True b else utf32_points True b)
           else if 4 \<le> length b \<and> b ! 1 = 0 then
             (if b ! 2 \<noteq> 0 \<or> b ! 3 \<noteq> 0 then utf16 False b else utf32_points False b)
           else if length b = 2 \<and> b ! 0 = 0 then utf16 True b
           else if length b = 2 \<and> b ! 1 = 0 then utf16 False b
           else utf8_decode_pass b)
     in case text of None \<Rightarrow> Inl (ValueError ''invalid bytes'') | Some s \<Rightarrow> Inr s)"

subsection \<open>Tokens\<close>

definition json_space :: "nat \<Rightarrow> bool" where
  "json_space c = (c = 32 \<or> c = 9 \<or> c = 10 \<or> c = 13)"

abbreviation skip_space :: "pystr \<Rightarrow> pystr" where
  "skip_space s \<equiv> dropWhile json_space s"

fun after_prefix :: "pystr \<Rightarrow> pystr \<Rightarrow> pystr option" where
  "after_prefix [] s = Some s"
| "after_prefix (p # ps) [] = None"
| "after_prefix (p # ps) (c # cs) = (if p = c then after_prefix ps cs else None)"

definition hex_digit :: "nat \<Rightarrow> nat option" where
  "hex_digit c =
    (if 48 \<le> c \<and> c \<le> 57 then Some (c - 48)
     else if 97 \<le> c \<and> c \<le> 102 then Some (c - 87)
     else if 65 \<le> c \<and> c \<le> 70 then Some (c - 55) else None)"

definition hex4 :: "nat \<Rightarrow> nat \<Rightarrow> nat \<Rightarrow> nat \<Rightarrow> nat option" where
  "hex4 a b c d =
    Option.bind (hex_digit a) (\<lambda>p. Option.bind (hex_digit b) (\<lambda>q.
    Option.bind (hex_digit c) (\<lambda>r. Option.bind (hex_digit d) (\<lambda>s.
    Some (((p * 16 + q) * 16 + r) * 16 + s)))))"

definition simple_escape :: "nat \<Rightarrow> nat option" where
  "simple_escape c =
    map_of [(34, 34), (92, 92), (47, 47), (98, 8), (102, 12), (110, 10), (114, 13), (116, 9)] c"

definition bad_syntax :: "'a result" where
  "bad_syntax = Inl (ValueError ''JSONDecodeError'')"

text \<open>
  One character of a string: a plain one, or an escape.  Two escapes that spell a surrogate pair
  are one character.
\<close>

definition scan_hex :: "pystr \<Rightarrow> (nat \<times> pystr) result" where
  "scan_hex s =
    (case s of
       a # b # c # d # r \<Rightarrow> (case hex4 a b c d of None \<Rightarrow> bad_syntax | Some u \<Rightarrow> Inr (u, r))
     | _ \<Rightarrow> bad_syntax)"

definition scan_unicode :: "pystr \<Rightarrow> (nat \<times> pystr) result" where
  "scan_unicode s =
    bind_res (scan_hex s) (\<lambda>(u, r).
    if is_high u \<and> take 2 r = [92, 117]
    then bind_res (scan_hex (drop 2 r)) (\<lambda>(v, r').
      if is_low v then Inr (join_surrogates u v, r') else Inr (u, r))
    else Inr (u, r))"

definition scan_char :: "nat \<Rightarrow> pystr \<Rightarrow> (nat \<times> pystr) result" where
  "scan_char c cs =
    (if c = 92 then
       (case cs of
          [] \<Rightarrow> bad_syntax
        | e # r \<Rightarrow>
            if e = 117 then scan_unicode r
            else (case simple_escape e of None \<Rightarrow> bad_syntax | Some v \<Rightarrow> Inr (v, r)))
     else if c < 32 then bad_syntax
     else Inr (c, cs))"

lemma bad_syntax_simps [simp]: "bad_syntax \<noteq> Inr x" "bad_syntax \<noteq> Inl AssertionError"
  by (simp_all add: bad_syntax_def)

lemma bind_bad_syntax [simp]: "bind_res bad_syntax f = bad_syntax"
  by (simp add: bad_syntax_def)

lemma scan_hex_shorter: "scan_hex s = Inr (u, r) \<Longrightarrow> length r < length s"
  by (auto simp: scan_hex_def split: list.splits option.splits)

lemma scan_unicode_shorter: "scan_unicode s = Inr (u, r) \<Longrightarrow> length r < length s"
  by (auto simp: scan_unicode_def bind_res_eq_Inr split: if_splits dest!: scan_hex_shorter)

lemma scan_char_shorter: "scan_char c cs = Inr (u, r) \<Longrightarrow> length r \<le> length cs"
  by (auto simp: scan_char_def split: if_splits list.splits option.splits dest!: scan_unicode_shorter)

text \<open>The rest of a string after its opening quote: the text and what follows it.\<close>

function scan_string :: "pystr \<Rightarrow> (pystr \<times> pystr) result" where
  "scan_string s =
    (case s of
       [] \<Rightarrow> bad_syntax
     | c # cs \<Rightarrow>
         if c = 34 then Inr ([], cs)
         else bind_res (scan_char c cs) (\<lambda>(u, r).
           bind_res (scan_string r) (\<lambda>(t, rest). Inr (u # t, rest))))"
  by pat_completeness auto
termination
  by (relation "measure length") (auto dest!: scan_char_shorter)

declare scan_string.simps [simp del]

lemma scan_string_simps:
  "scan_string [] = bad_syntax"
  "scan_string (c # cs) =
    (if c = 34 then Inr ([], cs)
     else bind_res (scan_char c cs) (\<lambda>(u, r). bind_res (scan_string r) (\<lambda>(t, rest). Inr (u # t, rest))))"
  by (simp_all add: scan_string.simps [of "[]"] scan_string.simps [of "c # cs"])

lemma scan_string_shorter: "scan_string s = Inr (t, r) \<Longrightarrow> length r < length s"
proof (induction "length s" arbitrary: s t r rule: less_induct)
  case less
  show ?case
  proof (cases s)
    case Nil
    then show ?thesis using less.prems by (simp add: scan_string_simps)
  next
    case (Cons c cs)
    show ?thesis
    proof (cases "c = 34")
      case False
      then obtain u r' t' where "scan_char c cs = Inr (u, r')" "scan_string r' = Inr (t', r)"
        using less.prems Cons by (auto simp: scan_string_simps bind_res_eq_Inr)
      then show ?thesis using less.hyps [of r' t' r] scan_char_shorter [of c cs u r'] Cons by simp
    qed (use less.prems Cons in \<open>simp add: scan_string_simps\<close>)
  qed
qed

text \<open>
  A number token: the sign, the digits without a leading zero, then a fraction and an exponent
  only where they are complete.  The flag says whether it is a float.
\<close>

definition take_fraction :: "pystr \<Rightarrow> pystr \<times> pystr" where
  "take_fraction s =
    (case s of
       p # d # cs \<Rightarrow>
         if p = 46 \<and> is_digit d then (p # takeWhile is_digit (d # cs), dropWhile is_digit (d # cs)) else ([], s)
     | _ \<Rightarrow> ([], s))"

definition take_exponent :: "pystr \<Rightarrow> pystr \<times> pystr" where
  "take_exponent s =
    (case s of
       e # cs \<Rightarrow>
         if e = 101 \<or> e = 69 then
           (let sign = (case cs of x # _ \<Rightarrow> if x = 43 \<or> x = 45 then [x] else [] | [] \<Rightarrow> []);
                ds = takeWhile is_digit (drop (length sign) cs);
                rest = dropWhile is_digit (drop (length sign) cs)
            in if ds = [] then ([], s) else (e # sign @ ds, rest))
         else ([], s)
     | [] \<Rightarrow> ([], s))"

definition scan_number_token :: "pystr \<Rightarrow> (pystr \<times> bool \<times> pystr) option" where
  "scan_number_token s =
    (let sign = (case s of c # _ \<Rightarrow> if c = 45 then [c] else [] | [] \<Rightarrow> []);
         t = drop (length sign) s;
         digits = (case t of c # _ \<Rightarrow> if c = 48 then [c] else takeWhile is_digit t | [] \<Rightarrow> []);
         u = drop (length digits) t
     in if digits = [] then None
        else (case take_fraction u of (part, v) \<Rightarrow>
              case take_exponent v of (expo, w) \<Rightarrow>
                Some (sign @ digits @ part @ expo, part \<noteq> [] \<or> expo \<noteq> [], w)))"

subsection \<open>Values\<close>

text \<open>The keyword arguments of \<open>json.loads\<close>.\<close>

record json_hooks =
  parse_float :: "pystr \<Rightarrow> json result"
  parse_int :: "pystr \<Rightarrow> json result"
  parse_constant :: "string \<Rightarrow> json result"
  object_pairs_hook :: "jobj \<Rightarrow> jobj result"

definition scan_atom :: "json_hooks \<Rightarrow> pystr \<Rightarrow> (json \<times> pystr) result" where
  "scan_atom h s =
    (let word = (\<lambda>w. after_prefix (py w) s); found = (\<lambda>v rest. bind_res v (\<lambda>x. Inr (x, rest)))
     in case word ''null'' of Some r \<Rightarrow> Inr (JNull, r) | None \<Rightarrow>
        case word ''true'' of Some r \<Rightarrow> Inr (JBool True, r) | None \<Rightarrow>
        case word ''false'' of Some r \<Rightarrow> Inr (JBool False, r) | None \<Rightarrow>
        case word ''NaN'' of Some r \<Rightarrow> found (parse_constant h ''NaN'') r | None \<Rightarrow>
        case word ''Infinity'' of Some r \<Rightarrow> found (parse_constant h ''Infinity'') r | None \<Rightarrow>
        case word ''-Infinity'' of Some r \<Rightarrow> found (parse_constant h ''-Infinity'') r | None \<Rightarrow>
        case scan_number_token s of
          None \<Rightarrow> bad_syntax
        | Some (token, float, rest) \<Rightarrow> found (if float then parse_float h token else parse_int h token) rest)"

text \<open>
  \<open>scan_value\<close> reads one value, \<open>scan_members\<close> the members of an object from a key on, and
  \<open>scan_elements\<close> the elements of an array from a value on.  The first number is the fuel, the
  second the nesting the interpreter still allows.
\<close>

definition next_char :: "pystr \<Rightarrow> (nat \<times> pystr) result" where
  "next_char s = (case s of [] \<Rightarrow> bad_syntax | c # cs \<Rightarrow> Inr (c, cs))"

definition scan_key :: "pystr \<Rightarrow> (pystr \<times> pystr) result" where
  "scan_key s =
    bind_res (next_char s) (\<lambda>(c, cs).
    if c \<noteq> 34 then bad_syntax
    else bind_res (scan_string cs) (\<lambda>(key, r).
      bind_res (next_char (skip_space r)) (\<lambda>(d, ds).
      if d \<noteq> 58 then bad_syntax else Inr (key, skip_space ds))))"

text \<open>After a value: the closing character ends the list, a comma goes on.\<close>

definition scan_end :: "nat \<Rightarrow> pystr \<Rightarrow> (bool \<times> pystr) result" where
  "scan_end close s =
    bind_res (next_char (skip_space s)) (\<lambda>(e, es).
    if e = close then Inr (True, es) else if e = 44 then Inr (False, skip_space es) else bad_syntax)"

function scan_value :: "json_hooks \<Rightarrow> nat \<Rightarrow> nat \<Rightarrow> pystr \<Rightarrow> (json \<times> pystr) result"
  and scan_members :: "json_hooks \<Rightarrow> nat \<Rightarrow> nat \<Rightarrow> jobj \<Rightarrow> pystr \<Rightarrow> (jobj \<times> pystr) result"
  and scan_elements :: "json_hooks \<Rightarrow> nat \<Rightarrow> nat \<Rightarrow> json list \<Rightarrow> pystr \<Rightarrow> (json list \<times> pystr) result" where
  "scan_value h 0 depth s = Inl AssertionError"
| "scan_value h (Suc fuel) depth s =
    bind_res (next_char s) (\<lambda>(c, cs).
    if c = 34 then bind_res (scan_string cs) (\<lambda>(t, r). Inr (JStr t, r))
    else if c = 123 then
      (if depth = 0 then Inl RecursionError
       else bind_res (next_char (skip_space cs)) (\<lambda>(d, ds).
         bind_res (if d = 125 then Inr ([], ds) else scan_members h fuel (depth - 1) [] (skip_space cs)) (\<lambda>(pairs, r).
         bind_res (object_pairs_hook h pairs) (\<lambda>ob. Inr (JObj ob, r)))))
    else if c = 91 then
      (if depth = 0 then Inl RecursionError
       else bind_res (next_char (skip_space cs)) (\<lambda>(d, ds).
         if d = 93 then Inr (JList [], ds)
         else bind_res (scan_elements h fuel (depth - 1) [] (skip_space cs)) (\<lambda>(vs, r). Inr (JList vs, r))))
    else scan_atom h s)"
| "scan_members h 0 depth acc s = Inl AssertionError"
| "scan_members h (Suc fuel) depth acc s =
    bind_res (scan_key s) (\<lambda>(key, r).
    bind_res (scan_value h fuel depth r) (\<lambda>(v, r').
    bind_res (scan_end 125 r') (\<lambda>(closed, r'').
    if closed then Inr (acc @ [(key, v)], r'') else scan_members h fuel depth (acc @ [(key, v)]) r'')))"
| "scan_elements h 0 depth acc s = Inl AssertionError"
| "scan_elements h (Suc fuel) depth acc s =
    bind_res (scan_value h fuel depth s) (\<lambda>(v, r).
    bind_res (scan_end 93 r) (\<lambda>(closed, r').
    if closed then Inr (acc @ [v], r') else scan_elements h fuel depth (acc @ [v]) r'))"
  by pat_completeness auto
termination
  by (relation "measure (case_sum (\<lambda>(h, fuel, d, s). fuel)
        (case_sum (\<lambda>(h, fuel, d, acc, s). fuel) (\<lambda>(h, fuel, d, acc, s). fuel)))") simp_all

definition json_loads_text :: "json_hooks \<Rightarrow> nat \<Rightarrow> pystr \<Rightarrow> json result" where
  "json_loads_text h limit s =
    bind_res (scan_value h (Suc (length s + length s)) limit (skip_space s)) (\<lambda>(v, r).
      if skip_space r = [] then Inr v else bad_syntax)"

definition json_loads :: "json_hooks \<Rightarrow> nat \<Rightarrow> nat list \<Rightarrow> json result" where
  "json_loads h limit raw = bind_res (decode_json_bytes raw) (json_loads_text h limit)"

subsection \<open>contracts.py: \<open>parse_json_object\<close>\<close>

definition reject_json_constant :: "string \<Rightarrow> json result" where
  "reject_json_constant value = Inl (ValueError (''non-finite JSON constant '' @ value @ '' is not supported''))"

definition exact_hooks :: json_hooks where
  "exact_hooks =
    \<lparr>parse_float = (\<lambda>t. bind_res (parse_exact_json_decimal t) (\<lambda>d. Inr (JDec d))),
     parse_int = (\<lambda>t. bind_res (parse_json_integer t) (\<lambda>n. Inr (JInt n))),
     parse_constant = reject_json_constant,
     object_pairs_hook = parse_json_object_pairs\<rparr>"

definition caught_as :: "exn \<Rightarrow> exn \<Rightarrow> exn" where
  "caught_as replacement e = (if is_value_error e \<or> e = RecursionError then replacement else e)"

definition parse_json_object :: "nat \<Rightarrow> nat list \<Rightarrow> jobj result" where
  "parse_json_object limit raw =
    bind_res (map_sum (caught_as (ValueError ''request body is not valid JSON'')) id (json_loads exact_hooks limit raw)) (\<lambda>value.
    case value of
      JObj ob \<Rightarrow> bind_res (validate_json_shape value) (\<lambda>_. Inr ob)
    | _ \<Rightarrow> Inl (ValueError ''request body must be a JSON object''))"

subsection \<open>The scanner consumes text and has enough fuel\<close>

lemma after_prefix_shorter: "after_prefix p s = Some r \<Longrightarrow> length s = length p + length r"
  by (induction p s rule: after_prefix.induct) (auto split: if_splits)

lemma take_fraction_shorter: "take_fraction s = (a, r) \<Longrightarrow> length r \<le> length s"
  by (auto simp: take_fraction_def length_dropWhile_le le_SucI split: list.splits if_splits)

lemma take_exponent_shorter: "take_exponent s = (a, r) \<Longrightarrow> length r \<le> length s"
  using length_dropWhile_le [of is_digit]
  by (auto simp: take_exponent_def Let_def le_SucI split: list.splits if_splits intro: le_trans)

lemma scan_number_shorter: "scan_number_token s = Some (token, float, r) \<Longrightarrow> length r < length s"
proof -
  assume a: "scan_number_token s = Some (token, float, r)"
  define sign where "sign = (case s of c # _ \<Rightarrow> if c = 45 then [c] else [] | [] \<Rightarrow> [])"
  define t where "t = drop (length sign) s"
  define digits where "digits = (case t of c # _ \<Rightarrow> if c = (48 :: nat) then [c] else takeWhile is_digit t | [] \<Rightarrow> [])"
  have eq: "scan_number_token s = (if digits = [] then None
      else (case take_fraction (drop (length digits) t) of (part, v) \<Rightarrow> case take_exponent v of (expo, w) \<Rightarrow>
        Some (sign @ digits @ part @ expo, part \<noteq> [] \<or> expo \<noteq> [], w)))"
    unfolding scan_number_token_def Let_def sign_def t_def digits_def by (rule refl)
  obtain part v expo where p: "digits \<noteq> []" "take_fraction (drop (length digits) t) = (part, v)" "take_exponent v = (expo, r)"
    using a unfolding eq by (auto split: prod.splits if_splits)
  have "length t \<le> length s" by (simp add: t_def)
  moreover have "t \<noteq> []" using p(1) by (auto simp: digits_def)
  ultimately have "length (drop (length digits) t) < length s"
    using p(1) by (cases digits; cases t) auto
  then show ?thesis using take_fraction_shorter [OF p(2)] take_exponent_shorter [OF p(3)] by simp
qed

lemma scan_atom_shorter: "scan_atom h s = Inr (v, r) \<Longrightarrow> length r < length s"
  by (auto simp: scan_atom_def Let_def bind_res_eq_Inr dest!: after_prefix_shorter scan_number_shorter
      split: option.splits)

lemma skip_space_le: "length (skip_space s) \<le> length s"
  by (rule length_dropWhile_le)

lemma next_char_Inr: "next_char s = Inr (c, cs) \<longleftrightarrow> s = c # cs"
  by (auto simp: next_char_def split: list.split)

lemma skip_space_Cons: "skip_space s = c # cs \<Longrightarrow> length cs < length s"
  using skip_space_le [of s] by simp

lemma next_char_simps [simp]: "next_char [] = bad_syntax" "next_char (c # cs) = Inr (c, cs)"
  by (simp_all add: next_char_def)

lemma scan_key_shorter:
  assumes "scan_key s = Inr (key, r)" shows "length r + 2 < length s"
proof -
  obtain cs r' ds where s: "s = 34 # cs" "scan_string cs = Inr (key, r')" "skip_space r' = 58 # ds" "r = skip_space ds"
    using assms by (auto simp: scan_key_def bind_res_eq_Inr next_char_Inr split: if_splits)
  have "length r \<le> length ds" "length ds < length r'" "length r' < length cs"
    unfolding s(4) by (rule skip_space_le, rule skip_space_Cons [OF s(3)], rule scan_string_shorter [OF s(2)])
  then show ?thesis using s(1) by simp
qed

lemma scan_end_shorter:
  assumes "scan_end close s = Inr (b, r)" shows "length r < length s"
proof -
  obtain e es where s: "skip_space s = e # es" "r = es \<or> r = skip_space es"
    using assms by (auto simp: scan_end_def bind_res_eq_Inr next_char_Inr split: if_splits)
  then show ?thesis using skip_space_Cons [OF s(1)] skip_space_le [of es] by auto
qed

lemma scan_shorter:
  "scan_value h fuel depth s = Inr (v, r) \<Longrightarrow> length r < length s"
  "scan_members h fuel depth acc s = Inr (ps, r) \<Longrightarrow> length r < length s"
  "scan_elements h fuel depth vs s = Inr (ws, r) \<Longrightarrow> length r < length s"
proof (induction h fuel depth s and h fuel depth acc s and h fuel depth vs s arbitrary: v r and ps r and ws r
    rule: scan_value_scan_members_scan_elements.induct)
  case (2 h fuel depth s)
  obtain c cs where s: "s = c # cs" using "2.prems" by (cases s) simp_all
  have start: "next_char s = Inr (c, cs)" by (simp add: s next_char_Inr)
  consider (str) "c = 34" | (obj) "c = 123" | (list) "c = 91" | (atom) "c \<noteq> 34" "c \<noteq> 123" "c \<noteq> 91" by blast
  then show ?case
  proof cases
    case str
    then show ?thesis using "2.prems" by (auto simp: start bind_res_eq_Inr s dest!: scan_string_shorter)
  next
    case obj
    then obtain d ds pairs ob where d: "depth \<noteq> 0" "skip_space cs = d # ds"
      "(if d = 125 then Inr ([], ds) else scan_members h fuel (depth - 1) [] (skip_space cs)) = Inr (pairs, r)"
      using "2.prems" by (auto simp: start bind_res_eq_Inr next_char_Inr split: if_splits)
    then show ?thesis
      using "2.IH"(1) [OF start refl _ obj d(1) _ refl, of d ds pairs r] skip_space_Cons [OF d(2)] s obj
      by (auto simp: next_char_Inr split: if_splits)
  next
    case list
    then obtain d ds ws where d: "depth \<noteq> 0" "skip_space cs = d # ds"
      "d = 93 \<and> r = ds \<or> d \<noteq> 93 \<and> scan_elements h fuel (depth - 1) [] (skip_space cs) = Inr (ws, r)"
      using "2.prems" by (auto simp: start bind_res_eq_Inr next_char_Inr split: if_splits)
    then show ?thesis
      using "2.IH"(2) [OF start refl _ _ list d(1) _ refl, of d ds ws r] skip_space_Cons [OF d(2)] s list
      by (auto simp: next_char_Inr)
  next
    case atom
    then show ?thesis using "2.prems" by (auto simp: start dest!: scan_atom_shorter)
  qed
next
  case (4 h fuel depth acc s)
  then obtain key r1 v r2 closed r3 where k: "scan_key s = Inr (key, r1)" "scan_value h fuel depth r1 = Inr (v, r2)"
    "scan_end 125 r2 = Inr (closed, r3)"
    "(if closed then Inr (acc @ [(key, v)], r3) else scan_members h fuel depth (acc @ [(key, v)]) r3) = Inr (ps, r)"
    by (auto simp: bind_res_eq_Inr)
  have "length r2 < length r1" by (rule "4.IH"(1) [OF k(1) refl k(2)])
  moreover have "length r \<le> length r3"
    using k(4) "4.IH"(2) [OF k(1) refl k(2) refl k(3) refl, of ps r] by (cases closed) auto
  ultimately show ?case using scan_key_shorter [OF k(1)] scan_end_shorter [OF k(3)] by simp
next
  case (6 h fuel depth acc s)
  then obtain v r2 closed r3 where k: "scan_value h fuel depth s = Inr (v, r2)" "scan_end 93 r2 = Inr (closed, r3)"
    "(if closed then Inr (acc @ [v], r3) else scan_elements h fuel depth (acc @ [v]) r3) = Inr (ws, r)"
    by (auto simp: bind_res_eq_Inr)
  have "length r2 < length s" by (rule "6.IH"(1) [OF k(1)])
  moreover have "length r \<le> length r3"
    using k(3) "6.IH"(2) [OF k(1) refl k(2) refl, of ws r] by (cases closed) auto
  ultimately show ?case using scan_end_shorter [OF k(2)] by simp
qed simp_all

text \<open>
  The contract between the scanner and its hooks: the hooks raise nothing but expected errors, and
  the scanner's own complaints are expected.  \<open>AssertionError\<close>, the scanner's sign of exhausted
  fuel, need not be expected: the fuel of \<open>json_loads_text\<close> is enough.
\<close>

definition hooks_raise :: "(exn \<Rightarrow> bool) \<Rightarrow> json_hooks \<Rightarrow> bool" where
  "hooks_raise E h = ((\<forall>t. raises E (parse_float h t)) \<and> (\<forall>t. raises E (parse_int h t)) \<and>
    (\<forall>w. raises E (parse_constant h w)) \<and> (\<forall>ps. raises E (object_pairs_hook h ps)))"

locale json_reader =
  fixes h :: json_hooks and expected :: "exn \<Rightarrow> bool"
  assumes value_expected: "expected (ValueError w)"
    and nesting_expected: "expected RecursionError"
    and hooks_expected: "hooks_raise expected h"
begin

abbreviation quiet :: "'a result \<Rightarrow> bool" where
  "quiet m \<equiv> raises expected m"

lemma quiet_syntax [simp]: "quiet bad_syntax" "expected (ValueError w)" "expected RecursionError"
  using value_expected nesting_expected by (simp_all add: bad_syntax_def)

lemma quiet_hex: "quiet (scan_hex s)"
  by (simp add: scan_hex_def split: list.split option.split)

lemma quiet_char: "quiet (scan_char c cs)"
  by (auto simp: scan_char_def scan_unicode_def intro!: raises_bind quiet_hex split: list.split option.split)

lemma quiet_string: "quiet (scan_string s)"
proof (induction "length s" arbitrary: s rule: less_induct)
  case less
  then show ?case
    by (cases s) (auto simp: scan_string_simps intro!: raises_bind quiet_char dest!: scan_char_shorter)
qed

lemma quiet_next_char: "quiet (next_char s)"
  by (simp add: next_char_def split: list.split)

lemma quiet_key: "quiet (scan_key s)"
  by (auto simp: scan_key_def intro!: raises_bind quiet_string quiet_next_char)

lemma quiet_end: "quiet (scan_end close s)"
  by (auto simp: scan_end_def intro!: raises_bind quiet_next_char)

lemma quiet_atom: "quiet (scan_atom h s)"
  using hooks_expected
  by (auto simp: scan_atom_def Let_def hooks_raise_def intro!: raises_bind split: option.split)

lemma scan_fuel_enough:
  shows "2 * length s < fuel \<Longrightarrow> quiet (scan_value h fuel depth s)"
    and "2 * length s < fuel \<Longrightarrow> quiet (scan_members h fuel depth acc s)"
    and "2 * length s + 1 < fuel \<Longrightarrow> quiet (scan_elements h fuel depth vs s)"
proof (induction fuel arbitrary: s depth acc vs)
  case (Suc fuel)
  have key: "2 * length r < fuel" if "scan_key s = Inr (key, r)" "2 * length s < Suc fuel" for s key r
    using scan_key_shorter [OF that(1)] that(2) by simp
  {
    case 1
    have inner: "2 * length (skip_space cs) + 1 < fuel" if "s = c # cs" for c cs
      using 1 that skip_space_le [of cs] by simp
    show ?case
      using Suc.IH(2,3) inner hooks_expected
      by (auto simp: next_char_Inr hooks_raise_def intro!: raises_bind quiet_next_char quiet_string quiet_atom)
  next
    case 2
    show ?case
    proof (simp, intro raises_bind quiet_key, clarsimp, intro raises_bind, goal_cases)
      case (1 key r)
      show ?case by (rule Suc.IH(1)) (use key [OF 1 2] in simp)
    next
      case (2 key r p)
      then obtain v r' where p: "p = (v, r')" by (cases p)
      have shorter: "length r' < length s" 
        using 2 p scan_shorter(1) [of h fuel depth r v r'] scan_key_shorter [of s key r] by simp
      show ?case
        using \<open>2 * length s < Suc fuel\<close> shorter
        by (auto simp: p intro!: raises_bind quiet_end Suc.IH(2) dest!: scan_end_shorter)
    qed
  next
    case 3
    show ?case
    proof (simp, intro raises_bind, goal_cases)
      case 1
      show ?case by (rule Suc.IH(1)) (use 3 in simp)
    next
      case (2 p)
      then obtain v r where p: "p = (v, r)" by (cases p)
      have shorter: "length r < length s" using 2 p scan_shorter(1) [of h fuel depth s v r] by simp
      show ?case
        using 3 shorter by (auto simp: p intro!: raises_bind quiet_end Suc.IH(3) dest!: scan_end_shorter)
    qed
  }
qed simp_all

lemma quiet_loads_text:
  "quiet (json_loads_text h limit s)"
  unfolding json_loads_text_def
proof (intro raises_bind scan_fuel_enough(1))
  show "2 * length (skip_space s) < Suc (length s + length s)" using skip_space_le [of s] by simp
qed (auto split: prod.splits)

lemma quiet_decode: "quiet (decode_json_bytes b)"
proof -
  have "quiet (case t of None \<Rightarrow> Inl (ValueError w) | Some s \<Rightarrow> Inr s)" for t :: "pystr option" and w
    by (cases t) simp_all
  then show ?thesis unfolding decode_json_bytes_def Let_def by blast
qed

lemma quiet_loads: "quiet (json_loads h limit raw)"
  unfolding json_loads_def by (intro raises_bind quiet_decode quiet_loads_text)

end

subsection \<open>What the exact reader returns\<close>

text \<open>The errors of the exact hooks; \<open>decimal.Overflow\<close> is none the callers expect.\<close>

definition reading_error :: "exn \<Rightarrow> bool" where
  "reading_error e = (is_value_error e \<or> e = RecursionError \<or> e = DecimalOverflow)"

lemma reading_errors [simp]:
  "reading_error (ValueError w)" "reading_error RecursionError" "reading_error DecimalOverflow"
  by (simp_all add: reading_error_def)

lemma quiet_decimal: "raises reading_error (parse_exact_json_decimal t)"
  by (auto simp: parse_exact_json_decimal_def in_finite_range_def abs_exceeds_def
      intro!: raises_bind split: option.split prod.split)

lemma quiet_integer: "raises reading_error (parse_json_integer t)"
  by (auto simp: parse_json_integer_def Let_def abs_exceeds_def
      intro!: raises_bind split: prod.split)

lemma quiet_pairs: "raises reading_error (parse_json_object_pairs ps)"
proof -
  have "raises reading_error (object_pairs d ps)" for d by (induction d ps rule: object_pairs.induct) auto
  then show ?thesis by (simp add: parse_json_object_pairs_def)
qed

lemma exact_hooks_raise: "hooks_raise reading_error exact_hooks"
  by (auto simp: hooks_raise_def exact_hooks_def reject_json_constant_def
      intro!: raises_bind quiet_decimal quiet_integer quiet_pairs)

interpretation exact_reader: json_reader exact_hooks reading_error
  by unfold_locales (simp_all add: exact_hooks_raise)

text \<open>A document without duplicate keys, without binary floats and with finite numbers only.\<close>

fun exact_json :: "json \<Rightarrow> bool" where
  "exact_json (JFloat d) = False"
| "exact_json (JInt n) = finite_number (of_int n)"
| "exact_json (JDec d) = finite_number (dec_value d)"
| "exact_json (JList vs) = list_all exact_json vs"
| "exact_json (JObj ob) = (distinct (map fst ob) \<and> list_all (\<lambda>(k, v). exact_json v) ob)"
| "exact_json _ = True"

lemma exact_atom: "scan_atom exact_hooks s = Inr (v, r) \<Longrightarrow> exact_json v"
  using exact_decimal_finite json_integer_finite
  by (auto simp: scan_atom_def Let_def exact_hooks_def reject_json_constant_def bind_res_eq_Inr
      split: option.splits if_splits)

lemma exact_pairs: "parse_json_object_pairs ps = Inr ob \<Longrightarrow> distinct (map fst ob) \<and> ob = ps"
  by (simp add: parse_json_object_pairs_def object_pairs_iff)

lemma scan_exact:
  "scan_value exact_hooks fuel depth s = Inr (v, r) \<Longrightarrow> exact_json v"
  "scan_members exact_hooks fuel depth acc s = Inr (ps, r) \<Longrightarrow> list_all (\<lambda>(k, v). exact_json v) acc \<Longrightarrow>
    list_all (\<lambda>(k, v). exact_json v) ps"
  "scan_elements exact_hooks fuel depth vs s = Inr (ws, r) \<Longrightarrow> list_all exact_json vs \<Longrightarrow> list_all exact_json ws"
proof (induction fuel arbitrary: s depth acc vs v r ps ws)
  case (Suc fuel)
  have hook: "object_pairs_hook exact_hooks = parse_json_object_pairs" by (simp add: exact_hooks_def)
  {
    case 1
    then obtain c cs where s: "s = c # cs" by (cases s) auto
    show ?case
      using 1 Suc.IH(2) [of "depth - 1" "[]" "skip_space cs"] Suc.IH(3) [of "depth - 1" "[]" "skip_space cs"]
      by (auto simp: s hook bind_res_eq_Inr split: if_splits dest!: exact_atom exact_pairs)
  next
    case 2
    then obtain key r1 v r2 closed r3 where k: "scan_value exact_hooks fuel depth r1 = Inr (v, r2)"
      "(if closed then Inr (acc @ [(key, v)], r3) else scan_members exact_hooks fuel depth (acc @ [(key, v)]) r3) = Inr (ps, r)"
      by (auto simp: bind_res_eq_Inr)
    then show ?case using Suc.IH(1) [OF k(1)] Suc.IH(2) 2(2) by (auto split: if_splits)
  next
    case 3
    then obtain v r2 closed r3 where k: "scan_value exact_hooks fuel depth s = Inr (v, r2)"
      "(if closed then Inr (vs @ [v], r3) else scan_elements exact_hooks fuel depth (vs @ [v]) r3) = Inr (ws, r)"
      by (auto simp: bind_res_eq_Inr)
    then show ?case using Suc.IH(1) [OF k(1)] Suc.IH(3) 3(2) by (auto split: if_splits)
  }
qed simp_all

lemma exact_loads: "json_loads exact_hooks limit raw = Inr v \<Longrightarrow> exact_json v"
  by (auto simp: json_loads_def json_loads_text_def bind_res_eq_Inr simp del: scan_value.simps
      split: if_splits dest!: scan_exact(1))

lemma shape_error: "raises is_value_error (validate_json_shape v)"
proof -
  have "raises is_value_error (shape_loop st n)" for st n
    by (induction st n rule: shape_loop.induct) simp_all
  then show ?thesis by (simp only: validate_json_shape_def)
qed

lemma parse_json_object_result:
  "case parse_json_object limit raw of
     Inr ob \<Rightarrow> exact_json (JObj ob) \<and> json_nodes (JObj ob) \<le> MAX_JSON_NODES \<and> json_depth (JObj ob) \<le> MAX_JSON_DEPTH
   | Inl e \<Rightarrow> is_value_error e \<or> e = DecimalOverflow"
proof (cases "json_loads exact_hooks limit raw")
  case (Inl e)
  then have "reading_error e" using exact_reader.quiet_loads [of limit raw] by simp
  then show ?thesis using Inl by (auto simp: parse_json_object_def caught_as_def reading_error_def)
next
  case (Inr v)
  show ?thesis
    using Inr exact_loads [OF Inr] shape_error [of v] validate_json_shape_iff [of v]
    by (cases v; cases "validate_json_shape v") (auto simp: parse_json_object_def)
qed

subsection \<open>Properties\<close>

text \<open>
  C14: Reading a request body ends, with enough fuel, in one of two ways.  Either it is an object
  without duplicate keys or binary floats, of at most 20000 values nested at most 32 deep; or the
  error is a \<open>ValueError\<close>, or the \<open>decimal.Overflow\<close> of a huge exponent and nothing else.
\<close>

theorem request_body_type:
  "case parse_json_object limit raw of
     Inr ob \<Rightarrow> exact_json (JObj ob) \<and> json_nodes (JObj ob) \<le> MAX_JSON_NODES \<and> json_depth (JObj ob) \<le> MAX_JSON_DEPTH
   | Inl e \<Rightarrow> is_value_error e \<or> e = DecimalOverflow"
  by (rule parse_json_object_result)

end
