(* ===== verification/Http_Application.thy ===== *)
theory Http_Application
  imports Service_Core Json_Parse
begin

text \<open>
  app.py: the HTTP surface.  A request is its headers, with lower-case names, and the chunks of
  its body; a response is a status and a JSON document.  The routes are programs over the state
  of the service.  FastAPI's routing and its conversion of path parameters are not modelled: a
  route is a function of the path parameters the framework passes.
\<close>

record http_request =
  http_headers :: "(pystr \<times> pystr) list"
  body_chunks :: "nat list list"
  body_complete :: bool

record http_response =
  response_status :: int
  response_body :: json

type_synonym route = "(gateway, service_question, service_reply, http_response) program"

text \<open>\<open>request.headers.get(name, default)\<close>\<close>

definition header_or :: "http_request \<Rightarrow> string \<Rightarrow> string \<Rightarrow> pystr" where
  "header_or request name absent =
    (case map_of (http_headers request) (py name) of None \<Rightarrow> py absent | Some v \<Rightarrow> v)"

subsection \<open>Credentials\<close>

text \<open>\<open>s.partition(" ")\<close>\<close>

definition partition_space :: "pystr \<Rightarrow> pystr \<times> pystr \<times> pystr" where
  "partition_space s =
    (let before = takeWhile (\<lambda>c. c \<noteq> 32) s
     in (before, take 1 (drop (length before) s), drop (Suc (length before)) s))"

definition authenticate_request ::
    "(nat list \<Rightarrow> pystr) \<Rightarrow> credential list \<Rightarrow> http_request \<Rightarrow> credential option" where
  "authenticate_request sha credentials request =
    (case partition_space (header_or request ''authorization'' '''') of
       (scheme, separator, token) \<Rightarrow>
         if separator \<noteq> [32] \<or> casefold scheme \<noteq> py ''bearer'' \<or> token = [] then None
         else authenticate sha credentials token)"

subsection \<open>Bodies\<close>

text \<open>The loop over \<open>request.stream()\<close>; a client that goes away ends it with an exception.\<close>

fun read_body :: "int \<Rightarrow> bool \<Rightarrow> nat list \<Rightarrow> nat list list \<Rightarrow> nat list result" where
  "read_body limit whole body [] = (if whole then Inr body else Inl ClientDisconnect)"
| "read_body limit whole body (chunk # chunks) =
    (if limit - int (length body) < int (length chunk)
     then Inl (ValueError ''request body exceeds its byte limit'')
     else read_body limit whole (body @ chunk) chunks)"

definition media_type_of :: "pystr \<Rightarrow> pystr" where
  "media_type_of header = casefold (strip (takeWhile (\<lambda>c. c \<noteq> 59) header))"

text \<open>\<open>nesting\<close> is the recursion the interpreter allows the JSON scanner.\<close>

definition bounded_document :: "nat \<Rightarrow> http_request \<Rightarrow> int \<Rightarrow> jobj result" where
  "bounded_document nesting request limit =
    (let content_encoding = casefold (strip (header_or request ''content-encoding'' ''identity''));
         content_type = media_type_of (header_or request ''content-type'' '''')
     in bind_res (check (content_encoding \<in> {[], py ''identity''})
          (ValueError ''encoded request bodies are not supported'')) (\<lambda>_.
        bind_res (check (content_type = py ''application/json'')
          (ValueError ''request body must be application/json'')) (\<lambda>_.
        bind_res (read_body limit (body_complete request) [] (body_chunks request)) (\<lambda>body.
        parse_json_object nesting body))))"

subsection \<open>Responses\<close>

text \<open>\<open>JSONResponse\<close> renders at once and encodes as UTF-8, which fails on a lone surrogate.\<close>

fun encodable :: "json \<Rightarrow> bool" where
  "encodable (JStr s) = is_unicode s"
| "encodable (JList vs) = list_all encodable vs"
| "encodable (JObj ob) = list_all (\<lambda>(k, v). is_unicode k \<and> encodable v) ob"
| "encodable _ = True"

definition json_response :: "int \<Rightarrow> json \<Rightarrow> http_response result" where
  "json_response code body =
    (if encodable body then Inr \<lparr>response_status = code, response_body = body\<rparr> else Inl UnicodeEncodeError)"

definition generic_auth_failure :: "http_response result" where
  "generic_auth_failure = json_response 401 (JObj
    [(py ''protocol_version'', JInt PROTOCOL_VERSION),
     (py ''status'', JStr (py ''failed'')),
     (py ''error'', JObj [(py ''code'', JStr (py ''unauthenticated'')), (py ''retryable'', JBool False)])])"

definition failure_response :: "pystr option \<Rightarrow> gateway_failure \<Rightarrow> http_response result" where
  "failure_response rid failure = json_response (failure_status failure) (JObj
    ([(py ''protocol_version'', JInt PROTOCOL_VERSION),
      (py ''status'', JStr (py ''failed'')),
      (py ''error'', JObj
        ([(py ''code'', JStr (failure_code failure)), (py ''retryable'', JBool (failure_retryable failure))] @
         (case failure_retry_after failure of None \<Rightarrow> [] | Some n \<Rightarrow> [(py ''retry_after_seconds'', JInt n)])))] @
     (case rid of None \<Rightarrow> [] | Some i \<Rightarrow> [(py ''request_id'', JStr i)])))"

definition invalid_request :: gateway_failure where
  "invalid_request = \<lparr>failure_code = py ''invalid_request'', failure_retryable = False,
     failure_status = 422, failure_retry_after = None\<rparr>"

subsection \<open>Routes\<close>

record application =
  app_service :: service
  app_credentials :: "credential list"
  app_nesting :: nat
  app_to_float :: "decimal \<Rightarrow> decimal"
  app_check_schema :: "json \<Rightarrow> bool"

definition caller :: "application \<Rightarrow> http_request \<Rightarrow> credential option" where
  "caller app request = authenticate_request (sha256_hex (app_service app)) (app_credentials app) request"

definition authenticated :: "application \<Rightarrow> http_request \<Rightarrow> (credential \<Rightarrow> route) \<Rightarrow> route" where
  "authenticated app request act =
    (case caller app request of None \<Rightarrow> Finish generic_auth_failure | Some credential \<Rightarrow> act credential)"

text \<open>The \<open>except\<close> clauses the two POST routes share.\<close>

definition route_failure :: "pystr option \<Rightarrow> exn \<Rightarrow> route" where
  "route_failure rid e =
    (case e of
       GatewayFailure failure \<Rightarrow> Finish (failure_response rid failure)
     | _ \<Rightarrow> if is_value_error e then Finish (failure_response rid invalid_request) else throw e)"

definition liveness_route :: route where
  "liveness_route = Finish (json_response 200 (JObj
    [(py ''protocol_version'', JInt PROTOCOL_VERSION), (py ''status'', JStr (py ''live''))]))"

definition health_route :: "application \<Rightarrow> http_request \<Rightarrow> route" where
  "health_route app request = authenticated app request (\<lambda>credential.
    bind_p (health (app_service app) credential) (\<lambda>body. Finish (json_response 200 body)))"

definition task_profile_route :: "application \<Rightarrow> http_request \<Rightarrow> pystr \<Rightarrow> int \<Rightarrow> route" where
  "task_profile_route app request name version = authenticated app request (\<lambda>credential.
    try_except
      (bind_p (task_profile (app_service app) credential (name, version)) (\<lambda>body. Finish (json_response 200 body)))
      (\<lambda>e. case e of GatewayFailure failure \<Rightarrow> Finish (failure_response None failure) | _ \<Rightarrow> throw e))"

definition request_document :: "application \<Rightarrow> http_request \<Rightarrow> jobj result" where
  "request_document app request =
    bounded_document (app_nesting app) request (request_max_bytes (the_settings (app_service app)))"

definition inference_route :: "application \<Rightarrow> http_request \<Rightarrow> route" where
  "inference_route app request = authenticated app request (\<lambda>credential.
    let document = request_document app request;
        rid = (case document of Inl _ \<Rightarrow> None | Inr ob \<Rightarrow> safe_request_id (jget ob ''request_id''))
    in try_except
      (bind_p (Finish document) (\<lambda>ob.
       bind_p (Finish (validate_inference_request (app_to_float app) (app_check_schema app) ob)) (\<lambda>parsed.
       bind_p (infer (app_service app) credential parsed) (\<lambda>result.
       Finish (json_response 200 result)))))
      (route_failure rid))"

definition acknowledge_route :: "application \<Rightarrow> pystr \<Rightarrow> http_request \<Rightarrow> route" where
  "acknowledge_route app path_request_id request = authenticated app request (\<lambda>credential.
    let rid = safe_request_id (JStr path_request_id)
    in try_except
      (bind_p (check_p (rid \<noteq> None) (GatewayFailure invalid_request)) (\<lambda>_.
       bind_p (Finish (request_document app request)) (\<lambda>ob.
       bind_p (Finish (validate_acknowledgement_request ob)) (\<lambda>parsed.
       bind_p (check_p (ack_request_id parsed = path_request_id) (GatewayFailure invalid_request)) (\<lambda>_.
       bind_p (acknowledge_request (app_service app) credential parsed) (\<lambda>result.
       Finish (json_response 200 result)))))))
      (route_failure rid))"

subsection \<open>Maintenance\<close>

text \<open>One round of \<open>_run_maintenance\<close> after its sleep: every exception is dropped.\<close>

definition maintenance_round :: "service \<Rightarrow> unit service_program" where
  "maintenance_round srv = try_except
    (bind_p read_clock (\<lambda>now. bind_p (transact (maintain (the_store srv) now)) (\<lambda>_. give ()))) (\<lambda>e. give ())"

fun run_maintenance :: "service \<Rightarrow> nat \<Rightarrow> unit service_program" where
  "run_maintenance srv 0 = give ()"
| "run_maintenance srv (Suc rounds) = bind_p (maintenance_round srv) (\<lambda>_. run_maintenance srv rounds)"

subsection \<open>What the parts do\<close>

lemma takeWhile_to_space: "32 \<notin> set scheme \<Longrightarrow> takeWhile (\<lambda>c. c \<noteq> 32) (scheme @ 32 # token) = scheme" for scheme :: pystr
  by (induction scheme) auto

lemma partition_space_eq:
  "partition_space s = (scheme, [32], token) \<longleftrightarrow> s = scheme @ 32 # token \<and> 32 \<notin> set scheme"
proof
  assume p: "partition_space s = (scheme, [32], token)"
  then have parts: "scheme = takeWhile (\<lambda>c. c \<noteq> 32) s" "take 1 (drop (length scheme) s) = [32]"
      "token = drop (Suc (length scheme)) s"
    by (auto simp: partition_space_def Let_def)
  from parts(2) obtain rest where rest: "drop (length scheme) s = 32 # rest"
    by (cases "drop (length scheme) s") auto
  then have "token = rest" unfolding parts(3) by (metis drop_Suc tl_drop list.sel(3))
  moreover have "take (length scheme) s = scheme" unfolding parts(1) by (metis takeWhile_eq_take)
  ultimately have "s = scheme @ 32 # token" using rest append_take_drop_id [of "length scheme" s] by simp
  moreover have "32 \<notin> set scheme" unfolding parts(1) by (auto dest: set_takeWhileD)
  ultimately show "s = scheme @ 32 # token \<and> 32 \<notin> set scheme" by blast
next
  assume s: "s = scheme @ 32 # token \<and> 32 \<notin> set scheme"
  then have "takeWhile (\<lambda>c. c \<noteq> 32) s = scheme" using takeWhile_to_space by simp
  then show "partition_space s = (scheme, [32], token)" using s by (simp add: partition_space_def Let_def)
qed

lemma authenticate_Some:
  assumes "distinct (map token_digest credentials)"
  shows "authenticate sha credentials token = Some c \<longleftrightarrow>
    token_ok token \<and> c \<in> set credentials \<and> sha token = token_digest c"
proof -
  have "find (\<lambda>c. sha token = token_digest c) (rev credentials) = Some c \<longleftrightarrow>
      c \<in> set credentials \<and> sha token = token_digest c"
    using assms
  proof (induction credentials rule: rev_induct)
    case (snoc d ds)
    then show ?case by (auto simp: image_iff)
  qed simp
  then show ?thesis by (auto simp: authenticate_def fold_last_match split: option.split)
qed

lemma authenticate_request_Some:
  assumes "distinct (map token_digest credentials)"
  shows "authenticate_request sha credentials request = Some c \<longleftrightarrow>
    (\<exists>scheme token. header_or request ''authorization'' '''' = scheme @ 32 # token \<and> 32 \<notin> set scheme \<and>
      casefold scheme = py ''bearer'' \<and> token_ok token \<and> c \<in> set credentials \<and> sha token = token_digest c)"
proof -
  let ?h = "header_or request ''authorization'' ''''"
  obtain scheme separator token where p: "partition_space ?h = (scheme, separator, token)"
    by (cases "partition_space ?h") auto
  have ok: "\<not> token_ok []" by (simp add: token_ok_def)
  show ?thesis
  proof (cases "separator = [32]")
    case True
    then have split: "?h = s @ 32 # t \<and> 32 \<notin> set s \<longleftrightarrow> s = scheme \<and> t = token" for s t
      using p partition_space_eq [of ?h s t] by auto
    have "(\<exists>s t. (?h = s @ 32 # t \<and> 32 \<notin> set s) \<and>
        casefold s = py ''bearer'' \<and> token_ok t \<and> c \<in> set credentials \<and> sha t = token_digest c) \<longleftrightarrow>
        casefold scheme = py ''bearer'' \<and> token_ok token \<and> c \<in> set credentials \<and> sha token = token_digest c"
      by (simp add: split)
    moreover have "authenticate_request sha credentials request = Some c \<longleftrightarrow>
        casefold scheme = py ''bearer'' \<and> token_ok token \<and> c \<in> set credentials \<and> sha token = token_digest c"
      unfolding authenticate_request_def p using True ok authenticate_Some [OF assms, of sha token c]
      by (cases "token = []") simp_all
    ultimately show ?thesis by (simp add: conj_assoc)
  next
    case False
    then have "?h \<noteq> s @ 32 # t \<or> 32 \<in> set s" for s t
      using p partition_space_eq [of ?h s t] by auto
    then have "\<not> (\<exists>s t. (?h = s @ 32 # t \<and> 32 \<notin> set s) \<and>
        casefold s = py ''bearer'' \<and> token_ok t \<and> c \<in> set credentials \<and> sha t = token_digest c)" by blast
    moreover have "authenticate_request sha credentials request = None"
      unfolding authenticate_request_def p using False by simp
    ultimately show ?thesis by (simp add: conj_assoc)
  qed
qed

lemma read_body_Inr:
  "int (length body) \<le> limit \<Longrightarrow> read_body limit whole body chunks = Inr b \<longleftrightarrow>
    whole \<and> int (length (body @ concat chunks)) \<le> limit \<and> b = body @ concat chunks"
  by (induction limit whole body chunks rule: read_body.induct) auto

lemma read_body_over:
  assumes "int (length (body @ concat before)) \<le> limit" "limit < int (length (body @ concat before @ chunk))"
  shows "read_body limit whole body (before @ chunk # after) = Inl (ValueError ''request body exceeds its byte limit'')"
  using assms by (induction before arbitrary: body) auto

definition plain_json_headers :: "http_request \<Rightarrow> bool" where
  "plain_json_headers request =
    (casefold (strip (header_or request ''content-encoding'' ''identity'')) \<in> {[], py ''identity''} \<and>
     media_type_of (header_or request ''content-type'' '''') = py ''application/json'')"

lemma bounded_document_eq:
  "bounded_document nesting request limit =
    (if plain_json_headers request
     then bind_res (read_body limit (body_complete request) [] (body_chunks request)) (parse_json_object nesting)
     else Inl (ValueError (if casefold (strip (header_or request ''content-encoding'' ''identity'')) \<in> {[], py ''identity''}
       then ''request body must be application/json'' else ''encoded request bodies are not supported'')))"
  by (simp add: bounded_document_def plain_json_headers_def Let_def check_def)

lemma generic_auth_failure_eq: "\<exists>body. generic_auth_failure = Inr \<lparr>response_status = 401, response_body = body\<rparr>"
  by (simp add: generic_auth_failure_def json_response_def is_unicode_def py_def utf8_char_def)

end
