(* ===== verification/Program_Outcomes.thy ===== *)
theory Program_Outcomes
  imports Gateway_Program
begin

text \<open>
  How a program may end in an environment that answers in any way and interferes at any point:
  the weakest precondition for postconditions that only look at the result.
\<close>

primrec ends_in :: "('a result \<Rightarrow> bool) \<Rightarrow> ('s, 'q, 'r, 'a) program \<Rightarrow> bool" where
  "ends_in Q (Finish r) = Q r"
| "ends_in Q (Ask q k) = (\<forall>r. ends_in Q (k r))"
| "ends_in Q (Change u k) = (\<forall>s. ends_in Q (k s))"

lemma ends_in_play: "ends_in Q p \<Longrightarrow> play p rs s = (qs, s', Some x) \<Longrightarrow> Q x"
proof (induction p arbitrary: rs s qs)
  case (Ask q k)
  then show ?case by (auto split: list.splits prod.splits) (metis rangeI)
next
  case (Change u k)
  then show ?case by simp (metis rangeI)
qed simp

lemma ends_in_True: "(\<And>r. Q r) \<Longrightarrow> ends_in Q p"
  by (induction p) simp_all

lemma ends_in_mono: "ends_in Q p \<Longrightarrow> (\<And>r. Q r \<Longrightarrow> Q' r) \<Longrightarrow> ends_in Q' p"
  by (induction p) auto

lemma ends_in_bind:
  "ends_in P p \<Longrightarrow> (\<And>e. P (Inl e) \<Longrightarrow> Q (Inl e)) \<Longrightarrow> (\<And>x. P (Inr x) \<Longrightarrow> ends_in Q (f x)) \<Longrightarrow> ends_in Q (bind_p p f)"
  unfolding bind_p_def by (induction p) (auto split: sum.split)

lemma ends_in_except:
  "ends_in P p \<Longrightarrow> (\<And>e. P (Inl e) \<Longrightarrow> ends_in Q (h e)) \<Longrightarrow> (\<And>x. P (Inr x) \<Longrightarrow> Q (Inr x)) \<Longrightarrow> ends_in Q (try_except p h)"
  unfolding try_except_def by (induction p) (auto split: sum.split)

lemma ends_in_finally:
  "ends_in Q p \<Longrightarrow> ends_in (\<lambda>r. r = Inr ()) c \<Longrightarrow> ends_in Q (try_finally p c)"
proof -
  assume p: "ends_in Q p" and c: "ends_in (\<lambda>r. r = Inr ()) c"
  have "ends_in Q (bind_p c (\<lambda>_. Finish r))" if "Q r" for r
    by (rule ends_in_bind [OF c]) (use that in auto)
  with p show ?thesis unfolding try_finally_def by (induction p) auto
qed

subsection \<open>Runs with their history\<close>

text \<open>
  The discipline whose ghost state is the history of questions and replies: a postcondition may
  speak of everything a run asked and was told.
\<close>

definition logged :: "('q \<Rightarrow> 'r \<Rightarrow> bool) \<Rightarrow> ('s, 'q, 'r, ('q \<times> 'r) list) discipline" where
  "logged ok = \<lparr>may_ask = (\<lambda>h q r. {h @ [(q, r)]}), may_change = (\<lambda>h s s'. {h}), replies = ok, states = (\<lambda>s. True)\<rparr>"

lemma logged_simps [simp]:
  "may_ask (logged ok) h q r = {h @ [(q, r)]}" "may_change (logged ok) h s s' = {h}"
  "replies (logged ok) = ok" "states (logged ok) s"
  by (simp_all add: logged_def)

lemma logged_play:
  "wp (logged ok) p Q h \<Longrightarrow> play p rs s = (qs, s', Some x) \<Longrightarrow> list_all2 ok qs (take (length qs) rs) \<Longrightarrow>
    Q x (h @ zip qs rs)"
proof (induction p arbitrary: rs s qs h)
  case (Ask q k)
  from Ask.prems(2) obtain r rs' qs' where run: "rs = r # rs'" "qs = q # qs'" "play (k r) rs' s = (qs', s', Some x)"
    by (auto split: list.splits prod.splits)
  then have "Q x ((h @ [(q, r)]) @ zip qs' rs')"
    using Ask.prems(1,3) by (intro Ask.IH [of "k r" _ rs' s]) auto
  then show ?case using run by simp
next
  case (Change u k)
  then show ?case by simp (metis rangeI)
qed simp

lemma play_length: "play p rs s = (qs, s', Some x) \<Longrightarrow> length qs \<le> length rs"
proof (induction p arbitrary: rs s qs)
  case (Ask q k)
  then show ?case by (auto split: list.splits prod.splits) (metis rangeI)
next
  case (Change u k)
  then show ?case by simp (metis rangeI)
qed simp

lemma logged_play_any:
  assumes "wp (logged (\<lambda>_ _. True)) p Q []" "play p rs s = (qs, s', Some x)"
  shows "\<exists>h. map fst h = qs \<and> Q x h"
  using logged_play [OF assms] play_length [OF assms(2)]
  by (intro exI [of _ "zip qs rs"]) (simp add: list_all2_conv_all_nth map_fst_zip_take min_absorb2)

end
