(* ===== verification/Http_Errors.thy ===== *)
theory Http_Errors
  imports Http_Application Program_Outcomes
begin

text \<open>
  Which errors the parts of a route may raise, on the way to the map of every outcome of the
  HTTP routes.
\<close>

subsection \<open>Validation\<close>

text \<open>Values are refused with a \<open>ValueError\<close>, or with \<open>decimal.Overflow\<close>.\<close>

definition value_fault :: "exn \<Rightarrow> bool" where
  "value_fault e = (is_value_error e \<or> e = DecimalOverflow)"

abbreviation refusing :: "'a result \<Rightarrow> bool" where
  "refusing m \<equiv> raises value_fault m"

lemma value_faults [simp, raises_intros]:
  "value_fault (ValueError w)" "value_fault UnicodeEncodeError" "value_fault DecimalOverflow"
  by (simp_all add: value_fault_def)

lemma nullable_union_error: "nullable_union allow v = Some e \<Longrightarrow> \<exists>w. e = ValueError w"
  by (auto simp: nullable_union_def split: json.splits if_splits)

lemma refusing_obj:
  "(\<And>ob. v = JObj ob \<Longrightarrow> refusing (f ob)) \<Longrightarrow> refusing (Inl (ValueError w)) \<Longrightarrow>
    refusing (case v of JObj ob \<Rightarrow> f ob | _ \<Rightarrow> Inl (ValueError w))"
  by (cases v) simp_all

lemma refusing_nullable: "nullable_union allow v = Some e \<Longrightarrow> value_fault e"
  using nullable_union_error [of allow v e] by auto

lemma raises_check_iff [simp]: "raises E (check c e) \<longleftrightarrow> (\<not> c \<longrightarrow> E e)"
  by (simp add: check_def)

lemmas refusing_intros = raises_intros raises_simps(1) iffD2 [OF raises_simps(2)] refusing_obj

lemma refusing_schema_sized:
  "(Suc (size (JObj schema)) \<le> n \<longrightarrow> refusing (validate_supported_schema ds nullable at_root m refs schema)) \<and>
   (size (JList vs) \<le> n \<longrightarrow> refusing (validate_children msg ds nullable m refs vs))"
proof (induction n arbitrary: schema vs msg ds nullable at_root m refs)
  case 0
  then show ?case by simp
next
  case (Suc n)
  have node: "refusing (validate_supported_schema ds nullable at_root m refs child)" if "Suc (size (JObj child)) \<le> n"
    for ds nullable at_root m refs child using Suc.IH that by blast
  have kids: "refusing (validate_children msg ds nullable m refs ws)" if "size (JList ws) \<le> n"
    for msg ds nullable m refs ws using Suc.IH that by blast
  have "refusing (validate_supported_schema ds nullable at_root m refs schema)" if le: "Suc (size (JObj schema)) \<le> Suc n"
  proof -
    have small: "size (JList (json_obj_values (jget schema k))) \<le> n" "size (JList (json_list (jget schema k))) \<le> n" for k
      using le size_child [of schema k] by simp_all
    have item: "Suc (size (JObj it)) \<le> n" if "jget schema k = JObj it" for k it
      using le jget_size [of "JObj it" schema k] that by simp
    show ?thesis
      unfolding validate_supported_schema.simps [of ds nullable at_root m refs schema] Let_def
      by (intro refusing_intros kids node small; (erule item | erule refusing_nullable))
  qed
  moreover have "refusing (validate_children msg ds nullable m refs vs)" if le: "size (JList vs) \<le> Suc n"
  proof (cases vs)
    case (Cons v ws)
    show ?thesis
      unfolding Cons validate_children.simps
      by (intro refusing_intros kids node) (use le Cons in auto)
  qed simp
  ultimately show ?case by blast
qed

lemma refusing_schema: "refusing (validate_supported_schema ds nullable at_root m refs schema)"
  using refusing_schema_sized by blast

lemma refusing_number: "refusing (encode_json_number d)"
  by (auto simp: encode_json_number_def in_finite_range_def abs_exceeds_def
      intro!: raises_bind split: prod.split)

lemma refusing_encode: "refusing (encode_json sorted_keys v)"
proof (induction v)
  case (JInt n)
  then show ?case by (auto simp: int_decimal_def intro!: raises_bind refusing_number)
next
  case (JObj ob)
  have "refusing (encode_json sorted_keys (snd kv))" if "kv \<in> set (key_order sorted_keys ob)" for kv
    using JObj [of kv "snd kv"] that by (cases kv) simp
  then show ?case by (auto intro!: raises_bind raises_map_res)
qed (auto intro!: raises_bind raises_map_res refusing_number)

lemma refusing_utf8: "refusing (utf8_encode s)"
  by (induction s) (auto intro!: raises_bind split: option.split)

lemma refusing_encode_bytes: "refusing (encode_json_bytes sorted_keys v)"
  by (auto simp: encode_json_bytes_def intro!: raises_bind refusing_encode refusing_utf8)

lemma refusing_shape: "refusing (validate_json_shape v)"
  by (rule raises_mono [OF shape_error]) (simp add: value_fault_def)

lemma refusing_passages: "refusing (passage_definitions schema)"
proof -
  have "refusing (check_passage_definition kv)" for kv
    by (cases kv; cases "snd kv") (auto simp: check_passage_definition_def intro!: refusing_intros split: json.split)
  then show ?thesis
    by (auto simp: passage_definitions_def intro!: raises_bind raises_map_res split: json.split)
qed

lemma refusing_fields:
  "refusing (invalid w)" "refusing (only_fields names ob)" "refusing (str_field ob k ok)" "refusing (int_field ob k ok')"
  "refusing (obj_field ob k)" "refusing (list_field ob k n)"
  by (auto simp: invalid_def only_fields_def str_field_def int_field_def obj_field_def list_field_def split: json.split)

lemma refusing_generation_shape: "refusing (validate_generation_shape check_schema g)"
  unfolding validate_generation_shape_def Let_def
  by (intro refusing_intros refusing_encode_bytes refusing_shape refusing_passages refusing_schema)

lemma refusing_message: "refusing (validate_message v)"
  by (cases v) (auto simp: validate_message_def intro!: raises_bind refusing_fields)

lemma refusing_generation: "refusing (validate_generation to_float check_schema ob)"
  unfolding validate_generation_def Let_def
  by (intro refusing_intros refusing_fields raises_map_res refusing_message refusing_generation_shape)
    (auto simp: temperature_field_def seed_field_def intro!: refusing_fields raises_map_sum split: option.split)

lemma refusing_inference_request: "refusing (validate_inference_request to_float check_schema ob)"
proof -
  have parts: "refusing (validate_protocol_version v)" "refusing (validate_request_id t)" "refusing (validate_request_expiry t)" for v t
    by (auto simp: validate_protocol_version_def validate_request_id_def validate_request_expiry_def split: json.split)
  have "refusing (validate_task_reference o1)" "refusing (validate_requirements o1)" for o1
    by (auto simp: validate_task_reference_def validate_requirements_def intro!: raises_bind refusing_fields)
  then show ?thesis
    unfolding validate_inference_request_def by (intro refusing_intros refusing_fields refusing_generation parts)
qed

lemma refusing_acknowledgement_request: "refusing (validate_acknowledgement_request ob)"
proof -
  have parts: "refusing (validate_protocol_version v)" "refusing (validate_request_id t)" for v t
    by (auto simp: validate_protocol_version_def validate_request_id_def split: json.split)
  show ?thesis unfolding validate_acknowledgement_request_def by (intro refusing_intros refusing_fields parts)
qed

subsection \<open>The errors of the transactions\<close>

text \<open>
  Exactly which errors each transaction may raise, whatever the table holds: a stored timestamp
  that does not parse is a \<open>ValueError\<close>, and the assertions of the store never fail.
\<close>

lemma select_errors: "select_request rid t = Inl e \<Longrightarrow> is_value_error e"
  by (auto simp: select_request_def record_of_row_def parse_timestamp_def bind_res_def split: option.splits sum.splits)

lemma find_row_None_iff: "find_row rid t = None \<longleftrightarrow> rid \<notin> set (map c_request_id t)"
  by (auto simp: find_row_def find_None_iff)

lemma select_None: "select_request rid t = Inr None \<longleftrightarrow> rid \<notin> set (map c_request_id t)"
  using find_row_None_iff [of rid t]
  by (auto simp: select_request_def record_of_row_def parse_timestamp_def bind_res_def split: option.splits sum.splits)

lemma reselect_errors:
  "fst (reselect rid t) = Inl e \<Longrightarrow> rid \<in> set (map c_request_id t) \<Longrightarrow> is_value_error e"
  using select_None [of rid t] select_errors [of rid t e]
  by (auto simp: reselect_def result_simps split: sum.splits option.splits)

lemma count_where_id: "count_where (\<lambda>r. c_request_id r = rid \<and> P r) t = Suc 0 \<Longrightarrow> rid \<in> set (map c_request_id t)"
  by (induction t) (auto simp: count_where_def split: if_splits)

lemma admit_errors:
  "fst (admit cfg request owner digest now t) = Inl e \<Longrightarrow>
    e \<in> {RequestForbidden, RequestIdentityConflict, RequestExpired, RequestCapacityLimited} \<or> is_value_error e"
  by (auto simp: admit_def result_simps act_bind_def [of "insert_row _"] insert_row_def authorize_existing_def
        new_row_def select_None
      split: sum.splits option.splits prod.splits if_splits dest: select_errors dest!: reselect_errors)

lemma get_owned_errors:
  "fst (get_owned cfg rid owner digest now t) = Inl e \<Longrightarrow>
    e \<in> {RequestUnknown, RequestForbidden, RequestIdentityConflict} \<or> is_value_error e"
  by (auto simp: get_owned_def result_simps authorize_existing_def
      split: sum.splits option.splits prod.splits if_splits dest: select_errors)

lemma acknowledge_errors:
  "fst (acknowledge cfg rid owner disposition now t) = Inl e \<Longrightarrow>
    e \<in> {RequestUnknown, RequestForbidden, RequestExpired, RequestNotTerminal, AcknowledgementConflict} \<or> is_value_error e"
  using select_None [of rid "cleanup cfg now t"]
  by (auto simp: acknowledge_def result_simps authorize_existing_def update_where_ids
      split: sum.splits option.splits prod.splits if_splits dest: select_errors dest!: reselect_errors)

lemma mark_in_progress_errors:
  "fst (mark_in_progress cfg rid attempt now t) = Inl e \<Longrightarrow> is_store_error e \<or> is_value_error e"
  by (auto simp: mark_in_progress_def result_simps act_bind_def [of "update_count _ _"] update_count_def update_where_ids
      split: sum.splits option.splits prod.splits if_splits dest!: reselect_errors count_where_id)

lemma encrypt_errors: "encrypt cipher nonce r w = Inl e \<Longrightarrow> is_store_error e \<or> is_value_error e"
proof -
  have "utf8_encode w = Inl e \<Longrightarrow> is_value_error e" for w
    by (induction w) (auto simp: bind_res_def split: option.splits sum.splits)
  then show "encrypt cipher nonce r w = Inl e \<Longrightarrow> is_store_error e \<or> is_value_error e"
    by (auto simp: encrypt_def aad_def ascii_encode_def bind_res_eq_Inl split: if_splits option.splits)
qed

lemma complete_errors:
  "fst (complete cfg cipher nonce rid attempt media w deployment version now t) = Inl e \<Longrightarrow> 1 \<le> version \<Longrightarrow>
    is_store_error e \<or> is_value_error e"
  by (auto simp: complete_def result_simps act_bind_def [of "update_count _ _"] update_count_def
      split: sum.splits option.splits prod.splits if_splits dest: select_errors encrypt_errors)

lemma silent_transactions:
  "fst (reset_reserved rid attempt now t) = Inr ()" "fst (mark_ambiguous rid attempt now t) = Inr ()"
  "fst (mark_failed rid attempt code again seconds now t) = Inr ()"
  by (simp_all add: reset_reserved_def mark_ambiguous_def mark_failed_def result_simps)

subsection \<open>The errors of a call of the service\<close>

text \<open>
  What a call may end with: a \<open>GatewayFailure\<close> with a status of a list, or an error the service
  does not name: a \<open>ValueError\<close>, which the routes answer, SQLite's own error, or a huge exponent.
\<close>

definition service_fault :: "int list \<Rightarrow> exn \<Rightarrow> bool" where
  "service_fault codes e =
    (case e of
       GatewayFailure f \<Rightarrow> failure_status f \<in> set codes
     | _ \<Rightarrow> is_value_error e \<or> e = OperationalError \<or> e = DecimalOverflow)"

lemma service_fault_simps [simp]:
  "service_fault codes (GatewayFailure f) = (failure_status f \<in> set codes)"
  "service_fault codes OperationalError" "service_fault codes DecimalOverflow"
  "service_fault codes (failing w again code) = (code \<in> set codes)"
  "service_fault codes (failing_after w code seconds) = (code \<in> set codes)"
  by (simp_all add: service_fault_def failing_def failing_after_def)

lemma service_value: "is_value_error e \<Longrightarrow> service_fault codes e"
  by (cases e) (simp_all add: service_fault_def)

lemma service_refusing: "refusing m \<Longrightarrow> raises (service_fault codes) m"
  by (erule raises_mono) (auto simp: value_fault_def service_value)

definition inference_statuses :: "int list" where
  "inference_statuses = [403, 409, 410, 422, 429, 500, 502, 503, 504]"

abbreviation inference_fault :: "exn \<Rightarrow> bool" where
  "inference_fault \<equiv> service_fault inference_statuses"

text \<open>Inside an attempt the errors of the store may pass as well, up to its handler.\<close>

definition attempt_fault :: "exn \<Rightarrow> bool" where
  "attempt_fault e = (inference_fault e \<or> is_store_error e)"

abbreviation attempting :: "'a service_program \<Rightarrow> bool" where
  "attempting p \<equiv> ends_in (raises attempt_fault) p"

lemma attempt_faults [simp]:
  "attempt_fault OperationalError"
  "code \<in> set inference_statuses \<Longrightarrow> attempt_fault (failing w again code)"
  "code \<in> set inference_statuses \<Longrightarrow> attempt_fault (failing_after w code seconds)"
  by (simp_all add: attempt_fault_def)

lemma attempting_bind: "attempting p \<Longrightarrow> (\<And>x. attempting (f x)) \<Longrightarrow> attempting (bind_p p f)"
  by (rule ends_in_bind [where P = "raises attempt_fault"]) simp_all

lemma attempting_transact:
  "(\<And>t e. fst (act t) = Inl e \<Longrightarrow> is_store_error e \<or> is_value_error e) \<Longrightarrow> attempting (transact act)"
  unfolding transact_def raises_def attempt_fault_def using service_value by (auto split: if_splits)

lemma attempting_transactions:
  "attempting (transact (get_owned cfg rid owner wanted now))" "attempting (transact (mark_in_progress cfg rid attempt now))"
  "attempting (transact (reset_reserved rid attempt now))" "attempting (transact (mark_ambiguous rid attempt now))"
  "attempting (transact (mark_failed rid attempt code again seconds now))"
  "attempting (transact (complete cfg cipher nonce rid attempt media w deployment TASK_POLICY_VERSION now))"
  by (rule attempting_transact;
      auto simp: silent_transactions TASK_POLICY_VERSION_def dest: get_owned_errors mark_in_progress_errors complete_errors)+

lemma attempting_clock: "attempting read_clock"
  by (simp add: read_clock_def)

lemmas attempting_intros = attempting_bind attempting_clock attempting_transactions

lemma existing_errors: "raises inference_fault (existing_response srv r)"
proof -
  have "is_store_error e" if "output_of (the_cipher srv) r = Inl e" for e
    using that decrypt_error by (auto simp: output_of_def split: if_splits)
  then have "output_of (the_cipher srv) r \<noteq> Inl e \<or> is_store_error e" for e by blast
  then show ?thesis
    by (auto simp: existing_response_def inference_statuses_def split: request_state.split option.split sum.split)
qed

lemma attempting_existing: "attempting (Finish (existing_response srv r))"
  by (simp, rule raises_mono [OF existing_errors]) (simp add: attempt_fault_def)

lemma attempting_worker_exception: "attempting (worker_exception srv rid attempt e)"
  unfolding worker_exception_def
  by (auto intro!: attempting_intros simp: inference_statuses_def split: exn.split)

lemma attempting_call_worker: "attempting (call_worker srv request rid attempt timeout)"
  unfolding call_worker_def
  by (rule ends_in_except [where P = "\<lambda>_. True"]) (simp_all add: attempting_worker_exception)

lemma attempting_finish: "attempting (finish_attempt srv credential digest rid attempt r)"
  unfolding finish_attempt_def
  by (auto intro!: attempting_intros attempting_existing simp: inference_statuses_def split: option.split)

lemma attempting_refuse: "attempting (refuse_expired srv credential request digest rid now)"
  unfolding refuse_expired_def by (auto intro!: attempting_intros simp: inference_statuses_def)

lemma attempting_body: "attempting (attempt_body srv credential request digest rid attempt)"
  unfolding attempt_body_def Let_def
  by (intro attempting_intros attempting_refuse attempting_call_worker attempting_finish)

text \<open>The handler around the attempt lets no error of the store out.\<close>

lemma run_attempt_errors: "ends_in (raises inference_fault) (run_attempt srv credential request digest rid active)"
proof -
  have quiet: "ends_in (raises inference_fault) (bind_p read_clock (\<lambda>now.
      bind_p (transact (mark_ambiguous rid attempt now)) (\<lambda>_. throw (failing_after w 504 seconds))))"
    for attempt w seconds and rid :: pystr
    by (simp add: read_clock_def transact_def bind_p_def silent_transactions inference_statuses_def)
  have "ends_in (raises inference_fault) (store_exception srv rid attempt e)" if "attempt_fault e" for attempt e
    using that quiet unfolding store_exception_def attempt_fault_def by (cases e) auto
  then have "ends_in (raises inference_fault) (try_except (attempt_body srv credential request digest rid attempt)
      (store_exception srv rid attempt))" for attempt
    by (rule ends_in_except [OF attempting_body]) simp_all
  then show ?thesis
    unfolding run_attempt_def by (auto intro!: ends_in_finally simp: release_lane_def)
qed

subsection \<open>The errors of an inference call\<close>

text \<open>
  A second look at the table, after the wait for another thread's attempt or without one, may
  find the request gone or taken over; those three errors have no handler there.
\<close>

definition lookup_error :: "exn \<Rightarrow> bool" where
  "lookup_error e = (e = RequestUnknown \<or> e = RequestForbidden \<or> e = RequestIdentityConflict)"

definition transactions :: "service_question list \<Rightarrow> nat" where
  "transactions qs = length (filter (\<lambda>q. q = Begin_Transaction) qs)"

definition infer_outcome :: "'a result \<Rightarrow> (service_question \<times> service_reply) list \<Rightarrow> bool" where
  "infer_outcome r h =
    (raises inference_fault r \<or>
     (\<exists>e. r = Inl e \<and> lookup_error e \<and> 2 \<le> transactions (map fst h) \<and> Draw_Uuid \<notin> fst ` set h))"

abbreviation any_reply :: "service_question \<Rightarrow> service_reply \<Rightarrow> bool" where
  "any_reply \<equiv> (\<lambda>_ _. True)"

lemma ends_wp: "ends_in P p \<Longrightarrow> (\<And>r h'. P r \<Longrightarrow> Q r h') \<Longrightarrow> wp (logged ok) p Q h"
  by (induction p arbitrary: h) auto

lemma reload_outcome:
  assumes "1 \<le> transactions (map fst h)" "Draw_Uuid \<notin> fst ` set h"
  shows "wp (logged any_reply) (reload_after_attempt srv rid credential digest) infer_outcome h"
proof -
  have got: "infer_outcome (Inl e) (h @ [(Read_Clock, r), (Begin_Transaction, r')])"
    if "fst (get_owned cfg rid owner wanted now t) = Inl e" for e r r' cfg rid owner wanted now t
    using get_owned_errors [OF that] assms
    by (auto simp: infer_outcome_def lookup_error_def transactions_def service_value)
  have resp: "infer_outcome (Inl e) h'" if "existing_response srv found = Inl e" for found e h'
    using existing_errors [of srv found] that by (simp add: infer_outcome_def)
  have rest: "infer_outcome (Inl OperationalError) h'" "infer_outcome (Inr x) h'"
    "infer_outcome (Inl (failing_after w 503 n)) h'" "infer_outcome (Inl (failing_after w 504 n)) h'" for h' x w n
    by (simp_all add: infer_outcome_def inference_statuses_def)
  show ?thesis
    unfolding reload_after_attempt_def
    by (auto simp: wp_rules read_clock_def transact_def rest split: sum.split option.split intro: got resp)
qed


lemma wait_outcome:
  assumes "1 \<le> transactions (map fst h)" "Draw_Uuid \<notin> fst ` set h"
  shows "wp (logged any_reply) (wait_and_reload srv active credential digest expiry) infer_outcome h"
proof -
  have "wp (logged any_reply) (reload_after_attempt srv rid credential digest) infer_outcome
      (h @ [(Read_Clock, r), (Wait_For active l, r')])" for r r' l rid
    by (rule reload_outcome) (use assms in \<open>auto simp: transactions_def\<close>)
  then show ?thesis
    by (auto simp: wait_and_reload_def wp_rules read_clock_def infer_outcome_def inference_statuses_def)
qed

lemma join_outcome:
  assumes "1 \<le> transactions (map fst h)" "Draw_Uuid \<notin> fst ` set h"
  shows "wp (logged any_reply) (join_active srv found credential digest) infer_outcome h"
  using reload_outcome [OF assms] wait_outcome [OF assms]
  by (auto simp: join_active_def read_lane_def wp_rules split: option.split)

lemma policy_errors: "raises inference_fault (validate_policy srv credential request now)"
  by (auto simp: validate_policy_def Let_def inference_statuses_def split: option.split)

lemma digest_errors: "raises (service_fault codes) (canonical_digest sha request)"
  unfolding canonical_digest_def
  by (intro service_refusing raises_intros refusing_encode_bytes) simp

lemma admission_errors:
  "fst (admit cfg request owner digest now t) = Inl e \<Longrightarrow> inference_fault (admission_failure srv e)"
  by (drule admit_errors, erule disjE, force simp: admission_failure_def inference_statuses_def)
    (cases e; simp add: admission_failure_def service_value)

lemma admitted_outcome:
  "raises inference_fault r \<Longrightarrow> infer_outcome r h"
  by (simp add: infer_outcome_def)

lemma infer_ends: "wp (logged any_reply) (infer srv credential request) infer_outcome []"
proof -
  let ?h = "\<lambda>r r'. [(Read_Clock, r), (Begin_Transaction, r')]"
  have h: "1 \<le> transactions (map fst (?h r r'))" "Draw_Uuid \<notin> fst ` set (?h r r')" for r r'
    by (simp_all add: transactions_def)
  have run: "wp (logged any_reply) (run_attempt srv credential request digest rid active) infer_outcome h" for digest rid active h
    by (rule ends_wp [OF run_attempt_errors]) (rule admitted_outcome)
  have plain: "infer_outcome (Inl e) h" if "inference_fault e" for e h
    using that by (simp add: infer_outcome_def)
  have fails: "infer_outcome (Inl e) h'" if "validate_policy srv credential request now = Inl e \<or>
      canonical_digest (sha256_hex srv) request = Inl e \<or> existing_response srv found = Inl e \<or>
      fst (admit cfg request owner digest now t) = Inl e' \<and> e = admission_failure srv e'"
    for now e found cfg owner digest t e' h'
    using that policy_errors [of srv credential request now] digest_errors [of inference_statuses "sha256_hex srv" request]
      existing_errors [of srv found] admission_errors
    by (auto intro: plain)
  show ?thesis
    unfolding infer_def
    by (auto simp: wp_rules read_clock_def transact_def claim_lane_def infer_outcome_def [of "Inr _"]
        infer_outcome_def [of "Inl (failing _ _ _)"] infer_outcome_def [of "Inl (failing_after _ _ _)"]
        infer_outcome_def [of "Inl OperationalError"] admission_failure_def [of _ OperationalError] inference_statuses_def
        intro: fails run join_outcome [OF h] wait_outcome [OF h]
        split: sum.split option.split request_state.split prod.split)
qed


subsection \<open>The errors of an acknowledgement\<close>

definition acknowledge_statuses :: "int list" where
  "acknowledge_statuses = [403, 404, 409]"

lemma acknowledgement_errors:
  "fst (acknowledge cfg rid owner disposition now t) = Inl e \<Longrightarrow>
    service_fault acknowledge_statuses (acknowledgement_failure e)"
  by (drule acknowledge_errors, erule disjE, force simp: acknowledgement_failure_def acknowledge_statuses_def)
    (cases e; simp add: acknowledgement_failure_def service_value)

lemma acknowledge_ends:
  "ends_in (raises (service_fault acknowledge_statuses)) (acknowledge_request srv credential request)"
  using acknowledgement_errors
  by (auto simp: acknowledge_request_def read_clock_def transact_def bind_p_def try_except_def raises_def
      acknowledgement_failure_def [of OperationalError] split: sum.split)

subsection \<open>The outcomes of a route\<close>

text \<open>The errors no handler names, of SQLite, a huge exponent, a lone surrogate, the client going away.\<close>

definition escaping :: "exn set" where
  "escaping = {OperationalError, DecimalOverflow, UnicodeEncodeError, ClientDisconnect}"

definition route_fault :: "int list \<Rightarrow> exn \<Rightarrow> bool" where
  "route_fault codes e = (service_fault codes e \<or> e = ClientDisconnect)"

definition route_outcome :: "int list \<Rightarrow> http_response result \<Rightarrow> bool" where
  "route_outcome codes r =
    (case r of
       Inr response \<Rightarrow> response_status response \<in> {200, 401, 422} \<union> set codes
     | Inl e \<Rightarrow> e \<in> escaping)"

lemma response_outcome: "code \<in> {200, 401, 422} \<union> set codes \<Longrightarrow> route_outcome codes (json_response code body)"
  by (simp add: route_outcome_def json_response_def escaping_def)

lemma failure_outcome: "route_fault codes e \<Longrightarrow> ends_in (route_outcome codes) (route_failure rid e)"
  by (cases e) (auto simp: route_fault_def service_fault_def route_failure_def failure_response_def invalid_request_def
      escaping_def route_outcome_def json_response_def)

lemma document_faults: "raises (route_fault codes) (request_document app request)"
proof -
  have val: "route_fault codes (ValueError w)" for w by (simp add: route_fault_def service_value)
  have read: "raises (route_fault codes) (read_body limit whole body chunks)" for limit whole body chunks
    by (induction limit whole body chunks rule: read_body.induct) (simp_all add: val, simp add: route_fault_def)
  have "route_fault codes e" if "parse_json_object nesting body = Inl e" for e nesting body
    using parse_json_object_result [of nesting body] that by (auto simp: route_fault_def service_value)
  then have "raises (route_fault codes) (parse_json_object nesting body)" for nesting body by (simp add: raises_def)
  then show ?thesis
    unfolding request_document_def bounded_document_eq
    by (intro raises_intros read) (simp_all add: val)
qed

lemma refusing_route: "refusing m \<Longrightarrow> raises (route_fault codes) m"
  by (erule raises_mono) (auto simp: route_fault_def value_fault_def service_value)

text \<open>Inside the \<open>try\<close> of a route: a rendered 200, or an error the handler sees.\<close>

definition inside_try :: "int list \<Rightarrow> http_response result \<Rightarrow> bool" where
  "inside_try codes r = (case r of Inr response \<Rightarrow> response_status response = 200 | Inl e \<Rightarrow> route_fault codes e)"

lemma inside_bind:
  assumes "ends_in (raises (route_fault codes)) p" "\<And>x. ends_in (inside_try codes) (f x)"
  shows "ends_in (inside_try codes) (bind_p p f)"
  by (rule ends_in_bind [where P = "raises (route_fault codes)"]) (use assms in \<open>simp_all add: inside_try_def\<close>)

lemma inside_response: "inside_try codes (json_response 200 body)"
  by (simp add: inside_try_def json_response_def route_fault_def service_value)

lemma outcome_authenticated:
  assumes "\<And>c. caller app request = Some c \<Longrightarrow> wp (logged any_reply) (act c) Q []"
    "\<And>r. route_outcome codes r \<Longrightarrow> Q r []"
  shows "wp (logged any_reply) (authenticated app request act) Q []"
proof -
  have "route_outcome codes generic_auth_failure"
    unfolding generic_auth_failure_def by (rule response_outcome) simp
  then show ?thesis using assms by (simp add: authenticated_def split: option.split)
qed

lemma acknowledge_outcomes:
  "wp (logged any_reply) (acknowledge_route app path_request_id request) (\<lambda>r h. route_outcome acknowledge_statuses r) []"
proof -
  have check: "ends_in (raises (route_fault codes)) (check_p c (GatewayFailure invalid_request))"
    if "422 \<in> set codes" for c codes
    using that by (simp add: check_p_def route_fault_def invalid_request_def)
  let ?codes = "422 # acknowledge_statuses"
  have acked: "ends_in (raises (route_fault ?codes)) (acknowledge_request srv credential parsed)" for srv credential parsed
    by (rule ends_in_mono [OF acknowledge_ends], erule raises_mono)
      (auto simp: route_fault_def service_fault_def split: exn.splits)
  have handled: "ends_in (route_outcome ?codes) (try_except p (route_failure rid))" if "ends_in (inside_try ?codes) p" for p rid
    by (rule ends_in_except [OF that]) (auto intro: failure_outcome simp: inside_try_def route_outcome_def)
  have weaker: "route_outcome acknowledge_statuses r" if "route_outcome ?codes r" for r
    using that by (auto simp: route_outcome_def split: sum.split_asm)
  show ?thesis
    unfolding acknowledge_route_def Let_def
    by (intro outcome_authenticated [where codes = acknowledge_statuses] ends_wp [where P = "route_outcome ?codes"]
        handled inside_bind check acked)
      (simp_all add: document_faults refusing_route refusing_acknowledgement_request inside_response weaker)
qed

lemma infer_route_failure:
  assumes "infer_outcome (Inl e :: json result) h"
  shows "wp (logged any_reply) (route_failure rid e) (\<lambda>r h'. h' = h \<and> (route_outcome inference_statuses r \<or>
    (\<exists>e. r = Inl e \<and> lookup_error e \<and> 2 \<le> transactions (map fst h) \<and> Draw_Uuid \<notin> fst ` set h))) h"
proof -
  from assms consider "inference_fault e" | "lookup_error e" "2 \<le> transactions (map fst h)" "Draw_Uuid \<notin> fst ` set h"
    by (auto simp: infer_outcome_def)
  then show ?thesis
  proof cases
    case 1
    then have "ends_in (route_outcome inference_statuses) (route_failure rid e)"
      by (intro failure_outcome) (simp add: route_fault_def)
    then show ?thesis by (auto simp: route_failure_def split: exn.split if_splits)
  next
    case 2
    then show ?thesis by (auto simp: lookup_error_def route_failure_def)
  qed
qed

lemma inference_outcomes:
  "wp (logged any_reply) (inference_route app request) (\<lambda>r h. route_outcome inference_statuses r \<or>
    (\<exists>e. r = Inl e \<and> lookup_error e \<and> 2 \<le> transactions (map fst h) \<and> Draw_Uuid \<notin> fst ` set h)) []"
proof -
  let ?Q = "\<lambda>r h. route_outcome inference_statuses r \<or>
    (\<exists>e. r = Inl e \<and> lookup_error e \<and> 2 \<le> transactions (map fst h) \<and> Draw_Uuid \<notin> fst ` set h)"
  have handled: "wp (logged any_reply) (route_failure rid e) ?Q h" if "route_fault inference_statuses e" for rid e h
    by (rule ends_wp [OF failure_outcome [OF that]]) simp
  have early: "wp (logged any_reply) (route_failure rid e) ?Q h" if "raises (route_fault inference_statuses) (Inl e)" for rid e h
    using that handled by simp
  have late: "wp (logged any_reply) (route_failure rid e) ?Q h" if "infer_outcome (Inl e :: json result) h" for rid e h
    by (rule wp_mono [OF _ infer_route_failure [OF that]]) auto
  have rendered: "case json_response 200 answer of
      Inl e \<Rightarrow> wp (logged any_reply) (route_failure rid e) ?Q h | Inr x \<Rightarrow> ?Q (Inr x) h" for answer rid h
    using inside_response [of inference_statuses answer] handled
    by (auto simp: inside_try_def route_outcome_def split: sum.split)
  have called: "wp (logged any_reply) (infer srv credential parsed) (\<lambda>r g. case r of
      Inl e \<Rightarrow> wp (logged any_reply) (route_failure rid e) ?Q g
    | Inr x \<Rightarrow> case json_response 200 x of
        Inl e \<Rightarrow> wp (logged any_reply) (route_failure rid e) ?Q g | Inr y \<Rightarrow> ?Q (Inr y) g) []" for srv credential parsed rid
    by (rule wp_mono [OF _ infer_ends]) (simp only: rendered split: sum.split, blast intro: late)
  have document: "raises (route_fault inference_statuses) (request_document app request)"
    by (rule document_faults)
  have valid: "raises (route_fault inference_statuses) (validate_inference_request f ok ob)" for f ok ob
    by (rule refusing_route [OF refusing_inference_request])
  show ?thesis
    unfolding inference_route_def Let_def
  proof (rule outcome_authenticated [where codes = inference_statuses])
    fix c assume "caller app request = Some c"
    show "wp (logged any_reply) (try_except (bind_p (Finish (request_document app request)) (\<lambda>ob.
        bind_p (Finish (validate_inference_request (app_to_float app) (app_check_schema app) ob)) (\<lambda>parsed.
        bind_p (infer (app_service app) c parsed) (\<lambda>result. Finish (json_response 200 result)))))
      (route_failure (case request_document app request of Inl _ \<Rightarrow> None | Inr ob \<Rightarrow> safe_request_id (jget ob ''request_id''))))
      ?Q []"
    proof (cases "request_document app request")
      case (Inl e)
      then show ?thesis using document handled by (simp add: wp_try_except wp_bind)
    next
      case (Inr ob)
      then show ?thesis
        using valid [of "app_to_float app" "app_check_schema app" ob] handled called
        by (cases "validate_inference_request (app_to_float app) (app_check_schema app) ob")
          (simp_all add: wp_try_except wp_bind cong: sum.case_cong)
    qed
  qed auto
qed

text \<open>No exception stops the maintenance loop, whatever SQLite does.\<close>

lemma maintenance_goes_on: "ends_in (\<lambda>r. r = Inr ()) (run_maintenance srv rounds)"
proof (induction rounds)
  case (Suc rounds)
  have "ends_in (\<lambda>r. r = Inr ()) (maintenance_round srv)"
    unfolding maintenance_round_def
    by (rule ends_in_except [where P = "\<lambda>r. \<forall>x. r = Inr x \<longrightarrow> x = ()"]) (auto intro: ends_in_True)
  then show ?case by (auto intro: ends_in_bind Suc.IH)
qed simp

end
