(* ===== verification/Http_Properties.thy ===== *)
theory Http_Properties
  imports Http_Errors Service_Properties
begin

text \<open>
  The properties of the HTTP routes in app.py: who may call the service, how much of a body is
  read, and how every call of a POST route ends.
\<close>

subsection \<open>Samples\<close>

definition sample_token :: pystr where
  "sample_token = replicate 32 97"

definition sample_digest_text :: pystr where
  "sample_digest_text = replicate 64 48"

definition sample_credentials :: jobj where
  "sample_credentials =
    [(py ''version'', JInt 1),
     (py ''credentials'', JList [JObj
       [(py ''id'', JStr (py ''client'')), (py ''token_sha256'', JStr sample_digest_text),
        (py ''tasks'', JList [JObj [(py ''id'', JStr (py ''email.analyze'')), (py ''version'', JInt 1)]])]])]"

definition sample_app :: application where
  "sample_app = \<lparr>app_service = sample_service\<lparr>sha256_hex := (\<lambda>_. sample_digest_text)\<rparr>,
     app_credentials = [\<lparr>identity_hash = sample_digest_text, token_digest = sample_digest_text,
       tasks = {(py ''email.analyze'', 1)}\<rparr>],
     app_nesting = 900, app_to_float = id, app_check_schema = (\<lambda>_. True)\<rparr>"

text \<open>A request with the body \<open>{"a": 1}\<close> in two chunks.\<close>

definition sample_http :: http_request where
  "sample_http = \<lparr>http_headers =
       [(py ''authorization'', py ''Bearer '' @ sample_token),
        (py ''content-type'', py ''Application/JSON; charset=utf-8'')],
     body_chunks = [[123, 34, 97, 34], [58, 32, 49, 125]], body_complete = True\<rparr>"

lemma sample_loaded:
  "credentials_of_document (sha256_hex (app_service sample_app)) sample_credentials = Inr (app_credentials sample_app)"
  by (simp add: sample_app_def sample_credentials_def)
    (simp add: credentials_of_document_def has_exactly_def jkeys_def jget_def parse_credential_def MAX_CREDENTIALS_def
      sample_digest_text_def TOKEN_DIGEST_LENGTH_def is_hex_lower_def is_digit_def parse_tasks_def check_def
      list_all_iff py_def utf8_char_def)

lemma sample_headers: "plain_json_headers sample_http"
  by (simp add: plain_json_headers_def header_or_def sample_http_def media_type_of_def py_def strip_def
      is_space_def casefold_def casefold_char_def)

lemma sample_parsed: "parse_json_object 900 (concat (body_chunks sample_http)) = Inr [(py ''a'', JInt 1)]"
proof -
  have "json_loads exact_hooks 900 (concat (body_chunks sample_http)) = Inr (JObj [([97], JInt 1)])"
    by code_simp
  moreover have "validate_json_shape (JObj [([97], JInt 1)]) = Inr ()"
    by (simp only: validate_json_shape_iff) (simp add: MAX_JSON_NODES_def MAX_JSON_DEPTH_def)
  ultimately show ?thesis by (simp add: parse_json_object_def py_def)
qed

subsection \<open>Who may call\<close>

text \<open>
  C24: No route but the liveness probe works without a credential.  With credentials loaded from a
  file, a request has the caller \<open>c\<close> exactly when its authorization header is a Bearer token of
  printable form whose digest is that of \<open>c\<close>; a request without a caller is answered 401 at once,
  and the service is not asked anything.
\<close>

theorem credential_required:
  assumes "credentials_of_document (sha256_hex (app_service app)) document = Inr (app_credentials app)"
  shows "(caller app request = Some c \<longleftrightarrow>
      (\<exists>scheme token. header_or request ''authorization'' '''' = scheme @ 32 # token \<and> 32 \<notin> set scheme \<and>
        casefold scheme = py ''bearer'' \<and> token_ok token \<and>
        c \<in> set (app_credentials app) \<and> sha256_hex (app_service app) token = token_digest c)) \<and>
    (caller app request = None \<longrightarrow>
      (\<exists>body. \<forall>p \<in> {health_route app request, task_profile_route app request name version,
          inference_route app request, acknowledge_route app path_request_id request}.
        p = give \<lparr>response_status = 401, response_body = body\<rparr>))"
proof -
  have "distinct (map token_digest (app_credentials app))"
    using assms parse_credentials_Inr
    by (auto simp: credentials_of_document_def configuration_def bind_res_eq_Inr split: json.splits if_splits)
  moreover obtain body where "generic_auth_failure = Inr \<lparr>response_status = 401, response_body = body\<rparr>"
    using generic_auth_failure_eq by blast
  ultimately show ?thesis
    using authenticate_request_Some
    by (auto simp: caller_def health_route_def task_profile_route_def inference_route_def acknowledge_route_def
        authenticated_def)
qed

lemma sample_caller: "header_or sample_http ''authorization'' '''' = py ''Bearer'' @ 32 # sample_token"
  by (simp add: header_or_def sample_http_def py_def)

definition sample_client :: credential where
  "sample_client = \<lparr>identity_hash = sample_digest_text, token_digest = sample_digest_text,
     tasks = {(py ''email.analyze'', 1)}\<rparr>"

lemma sample_bearer:
  "casefold (py ''Bearer'') = py ''bearer''" "32 \<notin> set (py ''Bearer'')" "token_ok sample_token"
  "sample_client \<in> set (app_credentials sample_app)"
  "sha256_hex (app_service sample_app) sample_token = token_digest sample_client"
  by (simp_all add: py_def casefold_def casefold_char_def token_ok_def sample_token_def is_ascii_text_def
      has_space_def is_space_def list_all_iff list_ex_iff sample_app_def sample_client_def)

theorem credential_required_witness:
  "caller sample_app sample_http = Some sample_client \<and>
    (\<exists>body. inference_route sample_app (sample_http\<lparr>http_headers := []\<rparr>) =
      give \<lparr>response_status = 401, response_body = body\<rparr>)"
proof -
  note used = credential_required [OF sample_loaded]
  have "caller sample_app sample_http = Some sample_client"
    using sample_caller sample_bearer by (intro iffD2 [OF conjunct1 [OF used]]) blast
  moreover have "caller sample_app (sample_http\<lparr>http_headers := []\<rparr>) = None"
    by (simp add: caller_def authenticate_request_def header_or_def partition_space_def py_def)
  then have "\<exists>body. inference_route sample_app (sample_http\<lparr>http_headers := []\<rparr>) =
      give \<lparr>response_status = 401, response_body = body\<rparr>"
    using conjunct2 [OF used, of "sample_http\<lparr>http_headers := []\<rparr>" "[]" 0 "[]"] by blast
  ultimately show ?thesis by blast
qed

subsection \<open>How much is read\<close>

text \<open>
  C29: A body is accepted exactly when it is declared as plain JSON, arrives completely, is within
  the byte limit and parses; and reading stops at the chunk that crosses the limit, whatever
  would follow it.
\<close>

theorem body_within_limit:
  assumes "0 \<le> limit"
  shows "(bounded_document nesting request limit = Inr ob \<longleftrightarrow>
      plain_json_headers request \<and> body_complete request \<and>
      int (length (concat (body_chunks request))) \<le> limit \<and>
      parse_json_object nesting (concat (body_chunks request)) = Inr ob) \<and>
    (plain_json_headers request \<and> body_chunks request = before @ chunk # after \<and>
      int (length (concat before)) \<le> limit \<and> limit < int (length (concat before @ chunk)) \<longrightarrow>
      bounded_document nesting request limit = Inl (ValueError ''request body exceeds its byte limit''))"
  using read_body_Inr [of "[]" limit "body_complete request" "body_chunks request"]
    read_body_over [of "[]" before limit chunk "body_complete request" after] assms
  by (auto simp: bounded_document_eq bind_res_eq_Inr)

theorem body_within_limit_witness:
  "bounded_document 900 sample_http 8 = Inr [(py ''a'', JInt 1)] \<and>
   bounded_document 900 sample_http 7 = Inl (ValueError ''request body exceeds its byte limit'')"
proof -
  have parts: "body_complete sample_http" "body_chunks sample_http = [[123, 34, 97, 34], [58, 32, 49, 125]]"
    by (simp_all add: sample_http_def)
  have "bounded_document 900 sample_http 8 = Inr [(py ''a'', JInt 1)]"
    using body_within_limit [of 8 900 sample_http "[(py ''a'', JInt 1)]"] sample_headers sample_parsed parts by simp
  moreover have "bounded_document 900 sample_http 7 = Inl (ValueError ''request body exceeds its byte limit'')"
    using body_within_limit [of 7 900 sample_http "[]" "[[123, 34, 97, 34]]" "[58, 32, 49, 125]" "[]"]
      sample_headers parts by simp
  ultimately show ?thesis by blast
qed

subsection \<open>How a call ends\<close>

text \<open>
  C28: However the clock, the store, the worker and the other threads behave, a POST route that
  ends answers with a status from the list of that route, 200 and 401 among them, or raises one
  of few errors.  The handlers name every refusal of the store: the acknowledgement route lets
  none of them out, and the inference route only the three of a second look at the table, after
  the admission and without an attempt of its own, that finds the request gone or taken over.
  Beyond those only SQLite's own error, the overflow of a huge exponent, a lone surrogate in a
  failure response, and the client going away escape; every failure of the worker is answered.
\<close>

theorem post_routes_answer:
  assumes "play p script g = (questions, g', Some r)"
  shows "(p = inference_route app request \<longrightarrow>
     (case r of
        Inr response \<Rightarrow> response_status response \<in> {200, 401, 403, 409, 410, 422, 429, 500, 502, 503, 504}
      | Inl e \<Rightarrow> e \<in> {OperationalError, DecimalOverflow, UnicodeEncodeError, ClientDisconnect} \<or>
          e \<in> {RequestUnknown, RequestForbidden, RequestIdentityConflict} \<and>
          2 \<le> length (filter (\<lambda>q. q = Begin_Transaction) questions) \<and> Draw_Uuid \<notin> set questions)) \<and>
   (p = acknowledge_route app path_request_id request \<longrightarrow>
     (case r of
        Inr response \<Rightarrow> response_status response \<in> {200, 401, 403, 404, 409, 422}
      | Inl e \<Rightarrow> e \<in> {OperationalError, DecimalOverflow, UnicodeEncodeError, ClientDisconnect}))"
proof (intro conjI impI)
  assume p: "p = inference_route app request"
  obtain h :: "(service_question \<times> service_reply) list" where h: "map fst h = questions" "route_outcome inference_statuses r \<or>
    (\<exists>e. r = Inl e \<and> lookup_error e \<and> 2 \<le> transactions (map fst h) \<and> Draw_Uuid \<notin> fst ` set h)"
    using logged_play_any [OF inference_outcomes assms [unfolded p]] by blast
  moreover have "fst ` set h = set questions" using h(1) by (metis set_map)
  ultimately show "case r of
        Inr response \<Rightarrow> response_status response \<in> {200, 401, 403, 409, 410, 422, 429, 500, 502, 503, 504}
      | Inl e \<Rightarrow> e \<in> {OperationalError, DecimalOverflow, UnicodeEncodeError, ClientDisconnect} \<or>
          e \<in> {RequestUnknown, RequestForbidden, RequestIdentityConflict} \<and>
          2 \<le> length (filter (\<lambda>q. q = Begin_Transaction) questions) \<and> Draw_Uuid \<notin> set questions"
    by (cases r) (auto simp: route_outcome_def escaping_def inference_statuses_def lookup_error_def transactions_def)
next
  assume p: "p = acknowledge_route app path_request_id request"
  obtain h :: "(service_question \<times> service_reply) list" where "map fst h = questions" "route_outcome acknowledge_statuses r"
    using logged_play_any [OF acknowledge_outcomes assms [unfolded p]] by blast
  then show "case r of
        Inr response \<Rightarrow> response_status response \<in> {200, 401, 403, 404, 409, 422}
      | Inl e \<Rightarrow> e \<in> {OperationalError, DecimalOverflow, UnicodeEncodeError, ClientDisconnect}"
    by (cases r) (auto simp: route_outcome_def escaping_def acknowledge_statuses_def)
qed

lemma sample_called: "caller sample_app sample_http = Some sample_client"
  unfolding caller_def
  using sample_caller sample_bearer
  by (intro iffD2 [OF authenticate_request_Some]) (auto simp: sample_app_def)

theorem post_routes_answer_witness:
  "\<exists>response. play (inference_route sample_app sample_http) [] (idle_gateway []) =
      ([], idle_gateway [], Some (Inr response)) \<and>
    response_status response = 422 \<and>
    response_status response \<in> {200, 401, 403, 409, 410, 422, 429, 500, 502, 503, 504}"
proof -
  have limit: "request_max_bytes (the_settings (app_service sample_app)) = 1000000" "app_nesting sample_app = 900"
    by (simp_all add: sample_app_def sample_settings_def)
  have "request_document sample_app sample_http = Inr [(py ''a'', JInt 1)]"
    using sample_headers sample_parsed
    by (simp add: request_document_def limit bounded_document_eq)
      (simp add: sample_http_def)
  moreover have "validate_inference_request f ok [(py ''a'', JInt 1)] = Inl (ValueError ''extra fields not permitted'')" for f ok
    by (simp add: validate_inference_request_def only_fields_def check_def)
  moreover have "failure_response None invalid_request = Inr r \<Longrightarrow> response_status r = 422" for r
    by (auto simp: failure_response_def json_response_def invalid_request_def split: if_splits)
  moreover have "\<exists>r. failure_response None invalid_request = Inr r"
    by (simp add: failure_response_def json_response_def invalid_request_def is_unicode_def py_def utf8_char_def)
  moreover have "safe_request_id (jget [(py ''a'', JInt 1)] ''request_id'') = None"
    by (simp add: jget_def safe_request_id_def)
  ultimately obtain response where run: "play (inference_route sample_app sample_http) [] (idle_gateway []) =
      ([], idle_gateway [], Some (Inr response))" and code: "response_status response = 422"
    by (auto simp: inference_route_def authenticated_def sample_called on_result_simps route_failure_def)
  from post_routes_answer [OF run, of sample_app sample_http] run code show ?thesis by auto
qed

end
