(* ===== verification/Py_Lines.thy ===== *)
theory Py_Lines
  imports Py_Text Json_Numbers
begin

text \<open>
  Python text functions the workers and the settings use: \<open>splitlines\<close>, \<open>split\<close>, \<open>int\<close>.
\<close>

subsection \<open>Lines and fields\<close>

text \<open>The line boundaries of \<open>str.splitlines\<close>; a carriage return and a line feed are one.\<close>

definition is_line_break :: "nat \<Rightarrow> bool" where
  "is_line_break c = (c \<in> set [10, 11, 12, 13, 28, 29, 30, 133, 8232, 8233])"

fun splitlines :: "pystr \<Rightarrow> pystr list" where
  "splitlines [] = []"
| "splitlines (c # cs) =
    (if is_line_break c
     then [] # splitlines (if c = 13 \<and> take 1 cs = [10] then drop 1 cs else cs)
     else (case splitlines cs of
         [] \<Rightarrow> [[c]]
       | line # lines \<Rightarrow> (c # line) # lines))"

text \<open>\<open>str.split()\<close>: the maximal runs without white space.\<close>

function split_fields :: "pystr \<Rightarrow> pystr list" where
  "split_fields s =
    (case dropWhile is_space s of
       [] \<Rightarrow> []
     | c # cs \<Rightarrow> takeWhile (\<lambda>c. \<not> is_space c) (c # cs) # split_fields (dropWhile (\<lambda>c. \<not> is_space c) (c # cs)))"
  by pat_completeness auto
termination
proof (relation "measure length", simp)
  fix s c cs
  assume d: "dropWhile is_space s = c # cs"
  then have "\<not> is_space c" using hd_dropWhile [of is_space s] by auto
  then have "length (dropWhile (\<lambda>c. \<not> is_space c) (c # cs)) \<le> length cs"
    using length_dropWhile_le [of "\<lambda>c. \<not> is_space c" cs] by simp
  also have "length cs < length s" using length_dropWhile_le [of is_space s] d by simp
  finally show "(dropWhile (\<lambda>c. \<not> is_space c) (c # cs), s) \<in> measure length" by simp
qed

declare split_fields.simps [simp del]

lemma fields_nonempty: "strip s \<noteq> [] \<Longrightarrow> split_fields s \<noteq> []"
  by (subst split_fields.simps) (auto simp: strip_def split: list.split dest: set_dropWhileD)

subsection \<open>Integers\<close>

text \<open>
  \<open>int(text)\<close> in base ten: white space around, a sign, decimal digits of any script with single
  underscores between them, and at most 4300 digits.
\<close>

fun digit_run :: "pystr \<Rightarrow> nat list option" where
  "digit_run [] = None"
| "digit_run [c] = map_option (\<lambda>d. [d]) (udigit c)"
| "digit_run (c # d # cs) =
    (case udigit c of
       None \<Rightarrow> None
     | Some n \<Rightarrow> map_option (\<lambda>ns. n # ns) (digit_run (if d = 95 then cs else d # cs)))"

text \<open>
  The white space around a number: CPython turns the Unicode spaces beyond ASCII into blanks and
  then skips what C counts as space, which the separators 28 to 31 are not.
\<close>

definition number_space :: "nat \<Rightarrow> bool" where
  "number_space c = (is_space c \<and> \<not> (28 \<le> c \<and> c \<le> 31))"

definition strip_number :: "pystr \<Rightarrow> pystr" where
  "strip_number s = rev (dropWhile number_space (rev (dropWhile number_space s)))"

lemma strip_number_id: "\<not> has_space s \<Longrightarrow> strip_number s = s"
proof -
  assume "\<not> has_space s"
  then have none: "\<forall>c \<in> set s. \<not> number_space c"
    by (simp add: has_space_def list_ex_iff number_space_def)
  then have "dropWhile number_space s = s" by (cases s) auto
  moreover from none have "dropWhile number_space (rev s) = rev s" by (cases "rev s") auto
  ultimately show ?thesis by (simp add: strip_number_def)
qed

definition py_int :: "pystr \<Rightarrow> int option" where
  "py_int text =
    (case read_sign (strip_number text) of (neg, t) \<Rightarrow>
      case digit_run t of
        None \<Rightarrow> None
      | Some ds \<Rightarrow>
          if MAX_INT_DIGITS < length ds then None
          else Some (if neg then - int (from_digits ds) else int (from_digits ds)))"

text \<open>\<open>text.isascii() and text.isdigit()\<close>\<close>

definition ascii_digits :: "pystr \<Rightarrow> bool" where
  "ascii_digits s = (s \<noteq> [] \<and> list_all is_digit s)"

lemma udigit_ascii_digit: "is_digit c \<Longrightarrow> udigit c = Some (c - 48)"
  using udigit_ascii [of "c - 48"] by (auto simp: is_digit_def)

lemma digit_run_ascii: "ascii_digits s \<Longrightarrow> digit_run s = Some (text_digits s)"
  by (induction s rule: digit_run.induct)
    (auto simp: ascii_digits_def text_digits_def udigit_ascii_digit is_digit_def)

lemma py_int_digits:
  assumes "ascii_digits s" "length s \<le> MAX_INT_DIGITS"
  shows "py_int s = Some (int (from_digits (text_digits s)))"
proof -
  have "\<not> has_space s"
    using assms(1) by (auto simp: ascii_digits_def has_space_def list_ex_iff list_all_iff is_digit_def is_space_def)
  then have "strip_number s = s" by (rule strip_number_id)
  moreover have "read_sign s = (False, s)"
    using assms(1) by (cases s) (auto simp: ascii_digits_def read_sign_def is_digit_def)
  ultimately show ?thesis
    using digit_run_ascii [OF assms(1)] assms(2) by (simp add: py_int_def text_digits_def)
qed

end
