(* ===== verification/Decoder_Order.thy ===== *)
theory Decoder_Order
  imports Contracts_Request
begin

text \<open>
  contracts.py: the order in which the decoder of the worker is asked to produce the fields of a
  response (\<open>uses_decoder_field_order\<close>, \<open>decoder_schema\<close>).  Both functions run on admitted
  schemas, whose keywords have the shape the meta-schema demands; on any other shape the model
  answers \<open>TypeError\<close> for whatever Python would raise.
\<close>

subsection \<open>When the order counts\<close>

definition shaped :: "'a option \<Rightarrow> 'a result" where
  "shaped v = (case v of None \<Rightarrow> Inl TypeError | Some x \<Rightarrow> Inr x)"

fun string_list :: "json list \<Rightarrow> pystr list option" where
  "string_list [] = Some []"
| "string_list (JStr s # vs) = map_option (\<lambda>ss. s # ss) (string_list vs)"
| "string_list (v # vs) = None"

text \<open>\<open>node.get("properties", {})\<close>, \<open>node.get("required", [])\<close> and the children of a node.\<close>

definition keyword :: "jobj \<Rightarrow> string \<Rightarrow> json option" where
  "keyword node k = map_of node (py k)"

definition properties_of :: "jobj \<Rightarrow> jobj result" where
  "properties_of node =
    (case keyword node ''properties'' of None \<Rightarrow> Inr [] | Some (JObj ob) \<Rightarrow> Inr ob | Some _ \<Rightarrow> Inl TypeError)"

definition required_of :: "jobj \<Rightarrow> pystr list result" where
  "required_of node =
    (case keyword node ''required'' of
       None \<Rightarrow> Inr [] | Some (JList vs) \<Rightarrow> shaped (string_list vs) | Some _ \<Rightarrow> Inl TypeError)"

definition any_of :: "jobj \<Rightarrow> json list result" where
  "any_of node =
    (case keyword node ''anyOf'' of None \<Rightarrow> Inr [] | Some (JList vs) \<Rightarrow> Inr vs | Some _ \<Rightarrow> Inl TypeError)"

definition pending_children :: "jobj \<Rightarrow> jobj \<Rightarrow> json list \<Rightarrow> json list" where
  "pending_children node properties alternatives =
    map snd properties @ (case keyword node ''items'' of None \<Rightarrow> [] | Some v \<Rightarrow> [v]) @ alternatives"

text \<open>
  The loop over \<open>pending\<close>; the last element of the Python list, which \<open>pop\<close> takes, is the head.
  The values left to visit bound it.
\<close>

definition nodes_at :: "jobj \<Rightarrow> string \<Rightarrow> nat" where
  "nodes_at node k = (case keyword node k of None \<Rightarrow> 0 | Some v \<Rightarrow> json_nodes v)"

lemma nodes_at_three:
  assumes "distinct [k1, k2, k3]"
  shows "nodes_at node k1 + nodes_at node k2 + nodes_at node k3 \<le> sum_list (map (\<lambda>(k, v). json_nodes v) node)"
  using assms by (induction node) (auto simp: nodes_at_def keyword_def)

lemma pending_smaller:
  assumes "properties_of node = Inr properties" "any_of node = Inr alternatives"
  shows "sum_list (map json_nodes (rev (pending_children node properties alternatives))) < json_nodes (JObj node)"
proof -
  have "sum_list (map (json_nodes \<circ> snd) properties) \<le> nodes_at node ''properties''"
    using assms(1) by (auto simp: properties_of_def nodes_at_def comp_def split_def split: option.splits json.splits)
  moreover have "sum_list (map json_nodes alternatives) \<le> nodes_at node ''anyOf''"
    using assms(2) by (auto simp: any_of_def nodes_at_def split: option.splits json.splits)
  moreover have "nodes_at node ''properties'' + nodes_at node ''items'' + nodes_at node ''anyOf'' \<le>
      sum_list (map (\<lambda>(k, v). json_nodes v) node)"
    by (rule nodes_at_three) simp
  moreover have "sum_list (map json_nodes (rev (pending_children node properties alternatives))) =
      sum_list (map (json_nodes \<circ> snd) properties) + nodes_at node ''items'' + sum_list (map json_nodes alternatives)"
    by (simp add: pending_children_def nodes_at_def rev_map [symmetric] sum_list_rev split: option.split)
  moreover have "sum_list (map (\<lambda>(k, v). json_nodes v) node) < json_nodes (JObj node)" by simp
  ultimately show ?thesis by linarith
qed

function decoder_order_loop :: "json list \<Rightarrow> bool result" where
  "decoder_order_loop [] = Inr True"
| "decoder_order_loop (v # pending) =
    (case v of
       JObj node \<Rightarrow>
         bind_res (properties_of node) (\<lambda>properties.
         bind_res (required_of node) (\<lambda>required.
         if \<not> jkeys properties \<subseteq> set required then Inr False
         else bind_res (any_of node) (\<lambda>alternatives.
           decoder_order_loop (rev (pending_children node properties alternatives) @ pending))))
     | _ \<Rightarrow> Inl TypeError)"
  by pat_completeness auto
termination
  by (relation "measure (\<lambda>pending. sum_list (map json_nodes pending))")
    (use pending_smaller in \<open>auto simp del: json_nodes.simps\<close>)

definition uses_decoder_field_order :: "jobj \<Rightarrow> pystr \<times> int \<Rightarrow> bool result" where
  "uses_decoder_field_order schema name =
    (if uses_passage_definitions schema then Inr True
     else if name \<noteq> (py ''email.analyze'', 1) then Inr False
     else decoder_order_loop [JObj schema])"

subsection \<open>Putting the fields in order\<close>

text \<open>\<open>dict.fromkeys(names)\<close> keeps the first occurrence of every name.\<close>

definition first_occurrences :: "pystr list \<Rightarrow> pystr list" where
  "first_occurrences names = rev (remdups (rev names))"

definition in_order :: "pystr list \<Rightarrow> jobj \<Rightarrow> jobj" where
  "in_order required ob =
    map (\<lambda>name. (name, the (map_of ob name)))
      (filter (\<lambda>name. name \<in> jkeys ob) (first_occurrences (required @ sort (map fst ob))))"

text \<open>
  \<open>ordered\<close> with the position it is called in: data, a schema node, the fields of a node
  (\<open>properties\<close> and \<open>$defs\<close>), or the branches of \<open>anyOf\<close>.
\<close>

datatype position = Data | Node | Field_Map | Branches

definition position_under :: "position \<Rightarrow> pystr \<Rightarrow> position" where
  "position_under p key =
    (if p \<noteq> Node then Data
     else if key = py ''properties'' \<or> key = py ''$defs'' then Field_Map
     else if key = py ''items'' then Node
     else if key = py ''anyOf'' then Branches else Data)"

definition arrange :: "position \<Rightarrow> jobj \<Rightarrow> pystr \<Rightarrow> json \<Rightarrow> (pystr \<times> json) result" where
  "arrange p node key v =
    (case v of
       JObj ob \<Rightarrow>
         if position_under p key = Field_Map
         then bind_res (if key = py ''properties'' then required_of node else Inr []) (\<lambda>required.
           Inr (key, JObj (in_order required ob)))
         else Inr (key, v)
     | _ \<Rightarrow> Inr (key, v))"

fun ordered :: "position \<Rightarrow> json \<Rightarrow> json result" where
  "ordered p (JList vs) =
    (if p = Field_Map then Inl TypeError
     else bind_res (map_res (ordered (if p = Branches then Node else Data)) vs) (\<lambda>ws. Inr (JList ws)))"
| "ordered p (JObj ob) =
    (if p = Branches then Inl TypeError
     else if p = Field_Map
     then bind_res (map_res (\<lambda>kv. bind_res (ordered Node (snd kv)) (\<lambda>w. Inr (fst kv, w))) ob) (\<lambda>ob'. Inr (JObj ob'))
     else bind_res (map_res (\<lambda>kv. bind_res (ordered (position_under p (fst kv)) (snd kv)) (arrange p ob (fst kv)))
         (key_order True ob)) (\<lambda>ob'. Inr (JObj ob')))"
| "ordered p v = (if p = Field_Map \<or> p = Branches then Inl TypeError else Inr v)"

definition decoder_schema :: "jobj \<Rightarrow> pystr \<times> int \<Rightarrow> json result" where
  "decoder_schema schema name =
    bind_res (uses_decoder_field_order schema name) (\<lambda>used.
    if \<not> used then Inr (JObj schema) else ordered Node (JObj schema))"

subsection \<open>Only the order changes\<close>

lemma set_first_occurrences [simp]: "set (first_occurrences names) = set names"
  by (simp add: first_occurrences_def)

lemma distinct_first_occurrences: "distinct (first_occurrences names)"
  by (simp add: first_occurrences_def)

lemma map_fst_in_order: "map fst (in_order required ob) = filter (\<lambda>name. name \<in> jkeys ob) (first_occurrences (required @ sort (map fst ob)))"
  by (simp add: in_order_def comp_def)

lemma in_order_distinct: "distinct (map fst (in_order required ob))"
  by (simp add: map_fst_in_order distinct_first_occurrences)

lemma set_in_order:
  assumes "distinct (map fst ob)"
  shows "set (in_order required ob) = set ob"
proof -
  have "set (in_order required ob) = (\<lambda>name. (name, the (map_of ob name))) ` jkeys ob"
    by (auto simp: in_order_def jkeys_def)
  also have "\<dots> = set ob"
    using assms by (force simp: jkeys_def image_iff)
  finally show ?thesis .
qed

text \<open>Objects with the same canonical members in another order.\<close>

lemma canon_pointwise:
  assumes "list_all2 (\<lambda>kv kw. fst kw = fst kv \<and> canon (snd kw) = canon (snd kv)) ob ob'"
  shows "canon (JObj ob') = canon (JObj ob)" "map fst ob' = map fst ob"
proof -
  have "map (\<lambda>(k, v). (k, canon v)) ob' = map (\<lambda>(k, v). (k, canon v)) ob" "map fst ob' = map fst ob"
    using assms by (induction rule: list_all2_induct) (auto simp: split_def)
  then show "canon (JObj ob') = canon (JObj ob)" "map fst ob' = map fst ob" by simp_all
qed

definition same_document :: "json \<Rightarrow> json \<Rightarrow> bool" where
  "same_document v w = (wf_json w \<and> canon w = canon v)"

lemma same_members:
  assumes "list_all2 (\<lambda>kv kw. fst kw = fst kv \<and> same_document (snd kv) (snd kw)) ob ob'" "distinct (map fst ob)"
  shows "same_document (JObj ob) (JObj ob')"
proof -
  have "list_all2 (\<lambda>kv kw. fst kw = fst kv \<and> canon (snd kw) = canon (snd kv)) ob ob'"
    using assms(1) by (rule list_all2_mono) (simp add: same_document_def)
  moreover have "list_all (\<lambda>(k, v). wf_json v) ob'"
    using assms(1) by (induction rule: list_all2_induct) (auto simp: same_document_def)
  ultimately show ?thesis using canon_pointwise [of ob ob'] assms(2) by (simp add: same_document_def)
qed

lemma same_arranged:
  assumes "arrange p node key v = Inr (key', w)" "wf_json v"
  shows "key' = key \<and> same_document v w"
proof (cases v)
  case (JObj ob)
  then have d: "distinct (map fst ob)" using assms(2) by simp
  have "same_document (JObj ob) (JObj (in_order required ob))" for required
  proof -
    have "list_all (\<lambda>(k, v). wf_json v) (in_order required ob)"
      using assms(2) JObj set_in_order [OF d, of required] by (simp add: list_all_iff)
    moreover have "canon (JObj (in_order required ob)) = canon (JObj ob)"
      by (rule canon_reordered) (use set_in_order [OF d] in_order_distinct d in simp_all)
    ultimately show ?thesis using in_order_distinct by (simp add: same_document_def)
  qed
  then show ?thesis using assms JObj
    by (auto simp: arrange_def bind_res_eq_Inr same_document_def split: if_splits)
qed (use assms in \<open>auto simp: arrange_def same_document_def\<close>)

lemma ordered_same: "ordered p v = Inr w \<Longrightarrow> wf_json v \<Longrightarrow> same_document v w"
proof (induction p v arbitrary: w rule: ordered.induct)
  case (1 p vs)
  then obtain ws where ws: "map_res (ordered (if p = Branches then Node else Data)) vs = Inr ws" "w = JList ws" "p \<noteq> Field_Map"
    by (auto simp: bind_res_eq_Inr split: if_splits)
  have "list_all2 (\<lambda>v w. same_document v w) vs ws"
    using ws(1) 1 ws(3) unfolding map_res_Inr_iff
    by (auto simp: list_all2_conv_all_nth list_all_iff)
  then have "map canon ws = map canon vs \<and> list_all wf_json ws"
    by (induction rule: list_all2_induct) (auto simp: same_document_def)
  then show ?case using ws(2) by (simp add: same_document_def)
next
  case (2 p ob)
  have wf: "distinct (map fst ob)" "\<And>kv. kv \<in> set ob \<Longrightarrow> wf_json (snd kv)"
    using "2.prems"(2) by (auto simp: list_all_iff)
  have np: "p \<noteq> Branches" using "2.prems"(1) by auto
  show ?case
  proof (cases "p = Field_Map")
    case True
    then obtain ob' where ob': "map_res (\<lambda>kv. bind_res (ordered Node (snd kv)) (\<lambda>w. Inr (fst kv, w))) ob = Inr ob'" "w = JObj ob'"
      using "2.prems"(1) by (auto simp: bind_res_eq_Inr)
    have "list_all2 (\<lambda>kv kw. fst kw = fst kv \<and> same_document (snd kv) (snd kw)) ob ob'"
      using ob'(1) unfolding map_res_Inr_iff
      by (rule list.rel_mono_strong) (use "2.IH"(1) [OF np True] wf(2) in \<open>auto simp: bind_res_eq_Inr\<close>)
    then show ?thesis using same_members wf(1) ob'(2) by simp
  next
    case False
    let ?s = "key_order True ob"
    obtain ob' where ob': "map_res (\<lambda>kv. bind_res (ordered (position_under p (fst kv)) (snd kv)) (arrange p ob (fst kv))) ?s = Inr ob'"
        "w = JObj ob'"
      using "2.prems"(1) False np by (auto simp: bind_res_eq_Inr)
    have "list_all2 (\<lambda>kv kw. fst kw = fst kv \<and> same_document (snd kv) (snd kw)) ?s ob'"
      using ob'(1) unfolding map_res_Inr_iff
    proof (rule list.rel_mono_strong)
      fix kv kw assume kv: "kv \<in> set ?s" "bind_res (ordered (position_under p (fst kv)) (snd kv)) (arrange p ob (fst kv)) = Inr kw"
      then obtain u where u: "ordered (position_under p (fst kv)) (snd kv) = Inr u" "arrange p ob (fst kv) u = Inr kw"
        by (auto simp: bind_res_eq_Inr)
      have "same_document (snd kv) u" using "2.IH"(2) [OF np False kv(1) u(1)] wf(2) kv(1) by simp
      moreover have "fst kw = fst kv \<and> same_document u (snd kw)"
        using same_arranged [of p ob "fst kv" u "fst kw" "snd kw"] u(2) calculation by (simp add: same_document_def)
      ultimately show "fst kw = fst kv \<and> same_document (snd kv) (snd kw)" by (simp add: same_document_def)
    qed
    moreover have d: "distinct (map fst ?s)" using wf(1) by (simp add: key_order_def distinct_map)
    ultimately have "same_document (JObj ?s) w" using same_members ob'(2) by simp
    moreover have "canon (JObj ?s) = canon (JObj ob)" by (rule canon_reordered) (use wf(1) d in simp_all)
    ultimately show ?thesis by (simp add: same_document_def)
  qed
qed (auto simp: same_document_def split: if_splits)

lemma decoder_schema_same:
  assumes "decoder_schema schema name = Inr w" "wf_json (JObj schema)"
  shows "wf_json w \<and> canon w = canon (JObj schema)"
  using assms ordered_same [of Node "JObj schema" w]
  by (auto simp: decoder_schema_def bind_res_eq_Inr same_document_def split: if_splits)

text \<open>The members of a node: every one comes from the member with the same key.\<close>

lemma arrange_key: "arrange p node key v = Inr kw \<Longrightarrow> fst kw = key"
  by (cases v) (auto simp: arrange_def bind_res_eq_Inr split: if_splits)

lemma ordered_member:
  assumes "ordered Node (JObj ob) = Inr w" "distinct (map fst ob)" "keyword ob k = Some v"
  obtains ob' u x where "w = JObj ob'" "ordered (position_under Node (py k)) v = Inr u"
    "arrange Node ob (py k) u = Inr (py k, x)" "keyword ob' k = Some x"
proof -
  let ?s = "key_order True ob"
  let ?f = "\<lambda>kv. bind_res (ordered (position_under Node (fst kv)) (snd kv)) (arrange Node ob (fst kv))"
  obtain ob' where ob': "map_res ?f ?s = Inr ob'" "w = JObj ob'"
    using assms(1) by (auto simp: bind_res_eq_Inr)
  have key: "fst kw = fst kv" if "?f kv = Inr kw" for kv kw
    using that arrange_key unfolding bind_res_eq_Inr by blast
  have same_keys: "map fst ob' = map fst ?s"
    using ob'(1) unfolding map_res_Inr_iff by (induction rule: list_all2_induct) (auto dest: key)
  then have d: "distinct (map fst ob')" using assms(2) by (simp add: key_order_def distinct_map)
  have "(py k, v) \<in> set ?s" using assms(3) by (auto simp: keyword_def dest: map_of_SomeD)
  then obtain i where i: "i < length ?s" "?s ! i = (py k, v)"
    unfolding in_set_conv_nth by blast
  then have at: "?f (py k, v) = Inr (ob' ! i)" "i < length ob'"
    using ob'(1) unfolding map_res_Inr_iff by (auto simp: list_all2_conv_all_nth)
  then obtain u where u: "ordered (position_under Node (py k)) v = Inr u" "arrange Node ob (py k) u = Inr (ob' ! i)"
    by (auto simp: bind_res_eq_Inr)
  obtain x where x: "ob' ! i = (py k, x)" using key [OF at(1)] by (cases "ob' ! i") simp
  have "(py k, x) \<in> set ob'" using at(2) x nth_mem by metis
  then have "keyword ob' k = Some x" using d by (simp add: keyword_def)
  then show thesis using that [of ob' u x] ob'(2) u x by simp
qed

lemma take_in_order:
  assumes "distinct required" "set required \<subseteq> jkeys ob"
  shows "take (length required) (map fst (in_order required ob)) = required"
proof -
  have keep: "rev (remdups (rev (xs @ ys))) = xs @ filter (\<lambda>y. y \<notin> set xs) (rev (remdups (rev ys)))" if "distinct xs" for xs ys :: "pystr list"
    using that
  proof (induction ys rule: rev_induct)
    case Nil
    then show ?case by (simp add: distinct_remdups_id)
  next
    case (snoc y ys)
    then show ?case by auto
  qed
  show ?thesis
    using assms(2) unfolding map_fst_in_order first_occurrences_def keep [OF assms(1)]
    by (simp add: subset_eq filter_id_conv [THEN iffD2])
qed

subsection \<open>Properties\<close>

text \<open>
  C13: The schema sent to the decoder is the admitted schema with its members in another order: both
  have the same canonical form, so no keyword is lost or changed.  Where the order counts, the
  fields of an object are listed first in the order of its required array.
\<close>

theorem decoder_schema_reorders:
  assumes "decoder_schema schema name = Inr w" "wf_json (JObj schema)"
  shows "canon w = canon (JObj schema) \<and>
    (uses_decoder_field_order schema name = Inr True \<and>
     keyword schema ''properties'' = Some (JObj properties) \<and> required_of schema = Inr required \<and>
     distinct required \<and> set required \<subseteq> jkeys properties \<longrightarrow>
      (\<exists>ob' qs. w = JObj ob' \<and> keyword ob' ''properties'' = Some (JObj qs) \<and>
        take (length required) (map fst qs) = required))"
proof (intro conjI impI; (elim conjE)?)
  show "canon w = canon (JObj schema)" using decoder_schema_same [OF assms] by blast
next
  assume used: "uses_decoder_field_order schema name = Inr True" and p: "keyword schema ''properties'' = Some (JObj properties)"
    and r: "required_of schema = Inr required" "distinct required" "set required \<subseteq> jkeys properties"
  have whole: "ordered Node (JObj schema) = Inr w"
    using assms(1) used by (simp add: decoder_schema_def del: ordered.simps)
  obtain ob' u x where w: "w = JObj ob'" and u: "ordered (position_under Node (py ''properties'')) (JObj properties) = Inr u"
    and x: "arrange Node schema (py ''properties'') u = Inr (py ''properties'', x)" "keyword ob' ''properties'' = Some x"
    by (rule ordered_member [OF whole _ p]) (use assms(2) in simp_all)
  have pos: "position_under Node (py ''properties'') = Field_Map" by (simp add: position_under_def)
  obtain fs where fs: "u = JObj fs" "map fst fs = map fst properties"
  proof -
    obtain fs where f: "map_res (\<lambda>kv. bind_res (ordered Node (snd kv)) (\<lambda>w. Inr (fst kv, w))) properties = Inr fs" "u = JObj fs"
      using u by (auto simp: pos bind_res_eq_Inr)
    from f(1) have "map fst fs = map fst properties"
      unfolding map_res_Inr_iff by (induction rule: list_all2_induct) (auto simp: bind_res_eq_Inr)
    then show thesis using that f(2) by blast
  qed
  have "x = JObj (in_order required fs)" using x(1) r(1) by (simp add: fs(1) arrange_def pos)
  moreover have "take (length required) (map fst (in_order required fs)) = required"
    by (rule take_in_order) (use r fs(2) in \<open>simp_all add: jkeys_def\<close>)
  ultimately show "\<exists>ob' qs. w = JObj ob' \<and> keyword ob' ''properties'' = Some (JObj qs) \<and>
      take (length required) (map fst qs) = required"
    using w x(2) by blast
qed

definition ordered_schema :: jobj where
  "ordered_schema =
    [(py ''type'', JStr (py ''object'')),
     (py ''required'', JList [JStr (py ''subject''), JStr (py ''body'')]),
     (py ''properties'', JObj
       [(py ''body'', JObj [(py ''type'', JStr (py ''string''))]),
        (py ''subject'', JObj [(py ''type'', JStr (py ''string''))])])]"

lemma ordered_schema_done: "case decoder_schema ordered_schema (py ''email.analyze'', 1) of Inl e \<Rightarrow> False | Inr w \<Rightarrow> True"
  by code_simp

theorem decoder_schema_reorders_witness:
  "\<exists>ob' qs. decoder_schema ordered_schema (py ''email.analyze'', 1) = Inr (JObj ob') \<and>
    canon (JObj ob') = canon (JObj ordered_schema) \<and>
    keyword ob' ''properties'' = Some (JObj qs) \<and>
    take 2 (map fst qs) = [py ''subject'', py ''body'']"
proof -
  let ?ps = "[(py ''body'', JObj [(py ''type'', JStr (py ''string''))]), (py ''subject'', JObj [(py ''type'', JStr (py ''string''))])]"
  have parts: "keyword ordered_schema ''properties'' = Some (JObj ?ps)" "properties_of ordered_schema = Inr ?ps"
    "required_of ordered_schema = Inr [py ''subject'', py ''body'']" "any_of ordered_schema = Inr []"
    "keyword ordered_schema ''items'' = None"
    by (simp_all add: ordered_schema_def keyword_def properties_of_def required_of_def any_of_def shaped_def)
  have leaf: "properties_of [(py ''type'', v)] = Inr []" "required_of [(py ''type'', v)] = Inr []"
    "any_of [(py ''type'', v)] = Inr []" "keyword [(py ''type'', v)] ''items'' = None" for v
    by (simp_all add: keyword_def properties_of_def required_of_def any_of_def)
  have used: "uses_decoder_field_order ordered_schema (py ''email.analyze'', 1) = Inr True"
    by (simp add: uses_decoder_field_order_def parts leaf pending_children_def jkeys_def)
  have wf: "wf_json (JObj ordered_schema)" by (simp add: ordered_schema_def)
  obtain w where w: "decoder_schema ordered_schema (py ''email.analyze'', 1) = Inr w"
    using ordered_schema_done by (cases "decoder_schema ordered_schema (py ''email.analyze'', 1)") simp_all
  from decoder_schema_reorders [OF w wf, of ?ps "[py ''subject'', py ''body'']"] w used parts(1,3)
  show ?thesis by (auto simp: jkeys_def numeral_2_eq_2)
qed

end
