(* ===== verification/Worker_Core.thy ===== *)
theory Worker_Core
  imports Program_Outcomes Py_Lines Decoder_Order Json_Parse Service_Core
begin

text \<open>
  worker.py: the inference workers.  A worker is a program over the calls it makes to an
  inference server and the readings of the monotonic clock; the replies are whatever the network
  and the server do.  The JSON Schema validator is a parameter.
\<close>

definition MAX_WORKER_RESPONSE_BYTES :: int where "MAX_WORKER_RESPONSE_BYTES = 1000000"
definition MAX_OUTPUT_CONTENT_BYTES :: nat where "MAX_OUTPUT_CONTENT_BYTES = 750000"
definition MAX_WORKER_CONTEXT_TOKENS :: int where "MAX_WORKER_CONTEXT_TOKENS = 1048576"

subsection \<open>Calls\<close>

datatype call_body = No_Body | Json_Body json | Raw_Body "nat list"

text \<open>
  One \<open>client.stream\<close>: the headers and the timeout of the client, the limit of the
  \<open>asyncio.timeout\<close> block around it, the method, the two parts of the URL and the body.
\<close>

record server_call =
  call_headers :: "(pystr \<times> pystr) list"
  call_timeout :: rat
  call_limit :: rat
  call_method :: pystr
  call_base :: pystr
  call_path :: string
  call_body :: call_body

text \<open>
  What comes back: an exception before the response, or the status, the headers with lower-case
  names, the chunks of the body, and the exception that interrupts it, if one does.
\<close>

record server_reply =
  reply_status :: int
  reply_headers :: "(pystr \<times> pystr) list"
  reply_chunks :: "nat list list"
  reply_interrupted :: "exn option"

datatype worker_question = Call_Server server_call | Read_Monotonic

datatype worker_reply = Served "server_reply result" | Monotonic rat

type_synonym 'a worker_program = "(unit, worker_question, worker_reply, 'a) program"

definition call_server :: "server_call \<Rightarrow> server_reply worker_program" where
  "call_server call = Ask (Call_Server call) (\<lambda>r. case r of Served x \<Rightarrow> Finish x | Monotonic _ \<Rightarrow> throw AssertionError)"

definition read_monotonic :: "rat worker_program" where
  "read_monotonic = Ask Read_Monotonic (\<lambda>r. case r of Monotonic t \<Rightarrow> give t | Served _ \<Rightarrow> throw AssertionError)"

record worker_tools =
  tool_nesting :: nat
  tool_conforms :: "json \<Rightarrow> json \<Rightarrow> bool"

text \<open>An \<open>OllamaWorker\<close>, or an \<open>LMStudioWorker\<close> with its token and idle time.\<close>

datatype worker_kind = Ollama | LM_Studio (studio_token: pystr) (studio_ttl: int)

record http_worker =
  worker_kind :: worker_kind
  base_url :: pystr
  worker_model :: pystr

definition client_headers :: "http_worker \<Rightarrow> (pystr \<times> pystr) list" where
  "client_headers w = [(py ''Accept-Encoding'', py ''identity'')] @
    (case worker_kind w of Ollama \<Rightarrow> [] | LM_Studio token _ \<Rightarrow> [(py ''Authorization'', py ''Bearer '' @ token)])"

definition server_get :: "http_worker \<Rightarrow> rat \<Rightarrow> rat \<Rightarrow> string \<Rightarrow> server_call" where
  "server_get w timeout limit path = \<lparr>call_headers = client_headers w, call_timeout = timeout, call_limit = limit,
     call_method = py ''GET'', call_base = base_url w, call_path = path, call_body = No_Body\<rparr>"

definition server_post :: "http_worker \<Rightarrow> rat \<Rightarrow> rat \<Rightarrow> string \<Rightarrow> (pystr \<times> pystr) list \<Rightarrow> call_body \<Rightarrow> server_call" where
  "server_post w timeout limit path extra body = \<lparr>call_headers = client_headers w @ extra, call_timeout = timeout,
     call_limit = limit, call_method = py ''POST'', call_base = base_url w, call_path = path, call_body = body\<rparr>"

subsection \<open>Bounded answers\<close>

definition bad_output :: "string \<Rightarrow> 'a result" where
  "bad_output why = Inl (InvalidWorkerOutput why)"

fun read_chunks :: "exn option \<Rightarrow> nat list \<Rightarrow> nat list list \<Rightarrow> nat list result" where
  "read_chunks interrupted body [] = (case interrupted of None \<Rightarrow> Inr body | Some e \<Rightarrow> Inl e)"
| "read_chunks interrupted body (chunk # chunks) =
    (if MAX_WORKER_RESPONSE_BYTES < int (length body) + int (length chunk)
     then bad_output ''worker response encoding or size is unsupported''
     else read_chunks interrupted (body @ chunk) chunks)"

text \<open>\<open>json.loads\<close> with the hooks of the worker, whose \<open>_reject_json_constant\<close> is the one of contracts.py.\<close>

definition worker_loads :: "nat \<Rightarrow> string \<Rightarrow> nat list \<Rightarrow> json result" where
  "worker_loads nesting why body = map_sum (caught_as (InvalidWorkerOutput why)) id (json_loads exact_hooks nesting body)"

definition as_object :: "string \<Rightarrow> json \<Rightarrow> jobj result" where
  "as_object why v = (case v of JObj ob \<Rightarrow> Inr ob | _ \<Rightarrow> bad_output why)"

definition bounded_json :: "nat \<Rightarrow> server_reply \<Rightarrow> jobj result" where
  "bounded_json nesting response =
    (let encoding = (case map_of (reply_headers response) (py ''content-encoding'') of
           None \<Rightarrow> py ''identity'' | Some v \<Rightarrow> v)
     in bind_res (check (casefold (strip encoding) \<in> {[], py ''identity''})
          (InvalidWorkerOutput ''worker response encoding or size is unsupported'')) (\<lambda>_.
        bind_res (case map_of (reply_headers response) (py ''content-length'') of
            None \<Rightarrow> Inr ()
          | Some v \<Rightarrow> (case py_int v of
              None \<Rightarrow> bad_output ''worker response content length is invalid''
            | Some n \<Rightarrow> check (n \<le> MAX_WORKER_RESPONSE_BYTES)
                (InvalidWorkerOutput ''worker response encoding or size is unsupported''))) (\<lambda>_.
        bind_res (read_chunks (reply_interrupted response) [] (reply_chunks response)) (\<lambda>body.
        bind_res (worker_loads nesting ''worker response is not valid JSON'' body)
          (as_object ''worker response must be a JSON object'')))))"

subsection \<open>Availability\<close>

datatype availability = AVAILABLE | UNAVAILABLE | UNKNOWN

fun model_ids :: "json list \<Rightarrow> pystr list option" where
  "model_ids [] = Some []"
| "model_ids (JObj item # items) =
    (case jget item ''id'' of JStr i \<Rightarrow> map_option (\<lambda>is. i # is) (model_ids items) | _ \<Rightarrow> None)"
| "model_ids (_ # items) = None"

definition configured_context :: "pystr \<Rightarrow> int option" where
  "configured_context parameters =
    (let settings = map split_fields (filter (\<lambda>line. strip line \<noteq> []) (splitlines parameters))
     in case filter (\<lambda>fs. hd fs = py ''num_ctx'') settings of
          [[name, n]] \<Rightarrow> if ascii_digits n \<and> length n \<le> 7 then py_int n else None
        | _ \<Rightarrow> None)"

definition context_ok :: "int \<Rightarrow> bool" where
  "context_ok n = (1 \<le> n \<and> n \<le> MAX_WORKER_CONTEXT_TOKENS)"

text \<open>The loop over the resident models; \<open>matched\<close> is set once the model is seen.\<close>

definition resident_identities :: "jobj \<Rightarrow> json list" where
  "resident_identities item = List.map_filter (\<lambda>k. map_of item (py k)) [''name'', ''model'']"

fun resident_scan :: "pystr \<Rightarrow> int \<Rightarrow> bool \<Rightarrow> json list \<Rightarrow> availability" where
  "resident_scan model minimum matched [] = AVAILABLE"
| "resident_scan model minimum matched (JObj item # items) =
    (let identities = resident_identities item
     in if identities = [] \<or> list_ex (\<lambda>v. case v of JStr s \<Rightarrow> s = [] | _ \<Rightarrow> True) identities then UNKNOWN
        else if JStr model \<notin> set identities then resident_scan model minimum matched items
        else if matched \<or> list_ex (\<lambda>v. v \<noteq> JStr model) identities then UNKNOWN
        else (case jget item ''context_length'' of
            JInt n \<Rightarrow>
              if \<not> context_ok n then UNKNOWN
              else if n < minimum then UNAVAILABLE
              else resident_scan model minimum True items
          | _ \<Rightarrow> UNKNOWN))"
| "resident_scan model minimum matched (_ # items) = UNKNOWN"

definition with_answer ::
    "worker_tools \<Rightarrow> server_call \<Rightarrow> 'a \<Rightarrow> (jobj \<Rightarrow> 'a worker_program) \<Rightarrow> 'a worker_program" where
  "with_answer tools call otherwise act =
    bind_p (call_server call) (\<lambda>response.
    if reply_status response \<noteq> 200 then give otherwise
    else bind_p (Finish (bounded_json (tool_nesting tools) response)) act)"

definition ollama_context :: "worker_tools \<Rightarrow> http_worker \<Rightarrow> rat \<Rightarrow> rat \<Rightarrow> int \<Rightarrow> availability worker_program" where
  "ollama_context tools w timeout limit minimum =
    (if minimum = 0 then give AVAILABLE
     else with_answer tools
       (server_post w timeout limit ''/api/show'' [] (Json_Body (JObj [(py ''model'', JStr (worker_model w))]))) UNKNOWN
       (\<lambda>configuration.
        case jget configuration ''parameters'' of
          JStr parameters \<Rightarrow>
            (case configured_context parameters of
               None \<Rightarrow> give UNKNOWN
             | Some configured \<Rightarrow>
                 if \<not> context_ok configured then give UNKNOWN
                 else if configured < minimum then give UNAVAILABLE
                 else with_answer tools (server_get w timeout limit ''/api/ps'') UNKNOWN (\<lambda>resident.
                   case jget resident ''models'' of
                     JList models \<Rightarrow> give (resident_scan (worker_model w) minimum False models)
                   | _ \<Rightarrow> give UNKNOWN))
        | _ \<Rightarrow> give UNKNOWN))"

definition context_availability :: "worker_tools \<Rightarrow> http_worker \<Rightarrow> rat \<Rightarrow> rat \<Rightarrow> int \<Rightarrow> availability worker_program" where
  "context_availability tools w timeout limit minimum =
    (case worker_kind w of
       Ollama \<Rightarrow> ollama_context tools w timeout limit minimum
     | LM_Studio _ _ \<Rightarrow> give (if minimum \<noteq> 0 then UNAVAILABLE else AVAILABLE))"

definition raw_availability :: "worker_tools \<Rightarrow> http_worker \<Rightarrow> rat \<Rightarrow> int \<Rightarrow> availability worker_program" where
  "raw_availability tools w timeout minimum =
    with_answer tools (server_get w timeout timeout ''/v1/models'') UNKNOWN (\<lambda>document.
      case jget document ''data'' of
        JList models \<Rightarrow>
          (case model_ids models of
             None \<Rightarrow> give UNKNOWN
           | Some ids \<Rightarrow>
               if worker_model w \<notin> set ids then give UNAVAILABLE
               else context_availability tools w timeout timeout minimum)
      | _ \<Rightarrow> give UNKNOWN)"

text \<open>\<open>except (TimeoutError, httpx.HTTPError, InvalidWorkerOutput)\<close>\<close>

fun is_probe_failure :: "exn \<Rightarrow> bool" where
  "is_probe_failure TimeoutError = True"
| "is_probe_failure ConnectFailure = True"
| "is_probe_failure TransportError = True"
| "is_probe_failure (InvalidWorkerOutput _) = True"
| "is_probe_failure _ = False"

definition worker_availability ::
    "worker_tools \<Rightarrow> http_worker \<Rightarrow> (pystr \<times> int) option \<Rightarrow> rat \<Rightarrow> availability worker_program" where
  "worker_availability tools w name timeout =
    try_except (raw_availability tools w timeout (required_context_tokens name))
      (\<lambda>e. if is_probe_failure e then give UNKNOWN else throw e)"

definition worker_health :: "worker_tools \<Rightarrow> http_worker \<Rightarrow> (pystr \<times> int) option \<Rightarrow> rat \<Rightarrow> bool worker_program" where
  "worker_health tools w name timeout =
    bind_p (worker_availability tools w name timeout) (\<lambda>a. give (a = AVAILABLE))"

definition fallback_capacity_available :: "worker_tools \<Rightarrow> http_worker \<Rightarrow> rat \<Rightarrow> bool worker_program" where
  "fallback_capacity_available tools w timeout =
    (case worker_kind w of
       LM_Studio _ _ \<Rightarrow> give False
     | Ollama \<Rightarrow>
         try_except (with_answer tools (server_get w timeout timeout ''/api/ps'') False
             (\<lambda>document. give (jget document ''models'' = JList [])))
           (\<lambda>e. if is_probe_failure e then give False else throw e))"

subsection \<open>The request to the decoder\<close>

definition schema_name :: "pystr \<times> int \<Rightarrow> pystr" where
  "schema_name name = map (\<lambda>c. if c = 46 then 95 else c) (fst name) @ py ''_v'' @ int_text (snd name)"

definition message_json :: "generation_message \<Rightarrow> json" where
  "message_json m = JObj [(py ''role'', JStr (msg_role m)), (py ''content'', JStr (msg_content m))]"

definition payload :: "http_worker \<Rightarrow> inference_request \<Rightarrow> json result" where
  "payload w request =
    bind_res (decoder_schema (response_schema (generation request)) (task_of request)) (\<lambda>schema.
    Inr (JObj
      ([(py ''model'', JStr (worker_model w)),
        (py ''messages'', JList (map message_json (messages (generation request)))),
        (py ''temperature'', JFloat (temperature (generation request))),
        (py ''max_tokens'', JInt (max_output_tokens (requirements request))),
        (py ''stream'', JBool False),
        (py ''response_format'', JObj
          [(py ''type'', JStr (py ''json_schema'')),
           (py ''json_schema'', JObj
             [(py ''name'', JStr (schema_name (task_of request))),
              (py ''strict'', JBool True),
              (py ''schema'', schema)])])] @
       (case seed (generation request) of None \<Rightarrow> [] | Some n \<Rightarrow> [(py ''seed'', JInt n)]) @
       (case worker_kind w of Ollama \<Rightarrow> [] | LM_Studio _ ttl \<Rightarrow> [(py ''ttl'', JInt ttl)]))))"

subsection \<open>The answer of the decoder\<close>

text \<open>\<open>value or other\<close>\<close>

definition truthy :: "json \<Rightarrow> bool" where
  "truthy v = (case v of JNull \<Rightarrow> False | JBool b \<Rightarrow> b | JInt n \<Rightarrow> n \<noteq> 0 | JDec d \<Rightarrow> dec_coef d \<noteq> 0
    | JFloat d \<Rightarrow> dec_coef d \<noteq> 0 | JStr s \<Rightarrow> s \<noteq> [] | JList vs \<Rightarrow> vs \<noteq> [] | JObj ob \<Rightarrow> ob \<noteq> [])"

definition or_else :: "json \<Rightarrow> json \<Rightarrow> json" where
  "or_else v w = (if truthy v then v else w)"

definition has_text :: "json \<Rightarrow> bool" where
  "has_text v = (case v of JStr s \<Rightarrow> strip s \<noteq> [] | _ \<Rightarrow> False)"

text \<open>\<open>x not in {None, "stop"}\<close> hashes \<open>x\<close>, which a list or an object refuses.\<close>

definition finished_normally :: "json \<Rightarrow> unit result" where
  "finished_normally v =
    (case v of
       JList _ \<Rightarrow> Inl TypeError | JObj _ \<Rightarrow> Inl TypeError
     | _ \<Rightarrow> check (v = JNull \<or> v = JStr (py ''stop'')) (InvalidWorkerOutput ''worker completion did not finish normally''))"

definition completion_message :: "jobj \<Rightarrow> (jobj \<times> jobj) result" where
  "completion_message document =
    (case jget document ''choices'' of
       JList (JObj choice # _) \<Rightarrow>
         (case jget choice ''message'' of
            JObj message \<Rightarrow> Inr (choice, message)
          | _ \<Rightarrow> bad_output ''worker response has no completion message'')
     | _ \<Rightarrow> bad_output ''worker response has no completion message'')"

definition generated_text :: "jobj \<Rightarrow> pystr result" where
  "generated_text message =
    (let direct = or_else (jget message ''content'') (JStr []);
         chosen = (if has_text direct then direct
           else or_else (or_else (jget message ''reasoning_content'') (jget message ''reasoning'')) (JStr []))
     in case chosen of
          JStr s \<Rightarrow> if strip s = [] then bad_output ''worker response has no generated content'' else Inr s
        | _ \<Rightarrow> bad_output ''worker response has no generated content'')"

definition validated_result :: "worker_tools \<Rightarrow> inference_request \<Rightarrow> jobj \<Rightarrow> worker_result result" where
  "validated_result tools request document =
    bind_res (completion_message document) (\<lambda>(choice, message).
    bind_res (finished_normally (jget choice ''finish_reason'')) (\<lambda>_.
    bind_res (generated_text message) (\<lambda>text.
    bind_res (case utf8_encode text of Inl e \<Rightarrow> bad_output ''worker content is not valid UTF-8'' | Inr b \<Rightarrow> Inr b) (\<lambda>encoded.
    bind_res (check (length encoded \<le> MAX_OUTPUT_CONTENT_BYTES)
      (InvalidWorkerOutput ''worker content exceeds its byte limit'')) (\<lambda>_.
    bind_res (worker_loads (tool_nesting tools) ''worker content is not valid JSON'' encoded) (\<lambda>generated.
    bind_res (as_object ''worker content must be a JSON object'' generated) (\<lambda>ob.
    bind_res (check (tool_conforms tools (normalize_json_numbers (JObj (response_schema (generation request)))) (JObj ob))
      (InvalidWorkerOutput ''worker content does not match response schema'')) (\<lambda>_.
    Inr \<lparr>media_type = py ''application/json'', content = text\<rparr>))))))))"

subsection \<open>Inference\<close>

definition out_of_time :: exn where
  "out_of_time = WorkerUnavailable ''worker routing deadline expired before dispatch''"

definition dispatch_timeout :: "rat \<Rightarrow> rat option \<Rightarrow> rat worker_program" where
  "dispatch_timeout timeout deadline =
    (case deadline of
       None \<Rightarrow> give timeout
     | Some d \<Rightarrow> bind_p read_monotonic (\<lambda>now.
         if d - now \<le> 0 then throw out_of_time else give (min timeout (d - now))))"

text \<open>The handlers of \<open>_infer\<close>; \<open>submitted\<close> is the flag of the code at the time of the exception.\<close>

definition dispatch_exception :: "bool \<Rightarrow> exn \<Rightarrow> exn" where
  "dispatch_exception submitted e =
    (case e of
       ConnectFailure \<Rightarrow> WorkerUnavailable ''worker connection was unavailable''
     | InvalidWorkerOutput _ \<Rightarrow>
         if submitted then e else WorkerUnavailable ''worker capacity check failed before dispatch''
     | TimeoutError \<Rightarrow>
         if submitted then WorkerOutcomeAmbiguous ''worker outcome is unknown''
         else WorkerUnavailable ''worker capacity check failed before dispatch''
     | TransportError \<Rightarrow>
         if submitted then WorkerOutcomeAmbiguous ''worker outcome is unknown''
         else WorkerUnavailable ''worker capacity check failed before dispatch''
     | _ \<Rightarrow> e)"

text \<open>Before the flag is set: the time left, and the capacity.\<close>

definition establish_capacity :: "worker_tools \<Rightarrow> http_worker \<Rightarrow> inference_request \<Rightarrow> rat \<Rightarrow> rat option \<Rightarrow> rat worker_program" where
  "establish_capacity tools w request timeout deadline =
    bind_p (dispatch_timeout timeout deadline) (\<lambda>limit.
    bind_p (context_availability tools w timeout limit (required_context_tokens (Some (task_of request)))) (\<lambda>capacity.
    if capacity \<noteq> AVAILABLE then throw (WorkerUnavailable ''worker task context capacity is not established'')
    else give limit))"

definition completion_call :: "http_worker \<Rightarrow> rat \<Rightarrow> rat \<Rightarrow> nat list \<Rightarrow> server_call" where
  "completion_call w timeout limit body =
    server_post w timeout limit ''/v1/chat/completions'' [(py ''Content-Type'', py ''application/json'')] (Raw_Body body)"

definition submit :: "worker_tools \<Rightarrow> http_worker \<Rightarrow> inference_request \<Rightarrow> json \<Rightarrow> rat \<Rightarrow> rat \<Rightarrow> jobj worker_program" where
  "submit tools w request document timeout limit =
    bind_p (Finish (uses_decoder_field_order (response_schema (generation request)) (task_of request))) (\<lambda>ordered_fields.
    bind_p (Finish (encode_json_bytes (\<not> ordered_fields) document)) (\<lambda>body.
    bind_p (call_server (completion_call w timeout limit body)) (\<lambda>response.
    if reply_status response \<in> {404, 429} \<or> 500 \<le> reply_status response \<and> reply_status response \<le> 599
    then throw (WorkerUnavailable ''worker rejected admission while unavailable'')
    else if 400 \<le> reply_status response
    then throw (InvalidWorkerOutput ''worker rejected the gateway request'')
    else Finish (bounded_json (tool_nesting tools) response))))"

definition worker_infer ::
    "worker_tools \<Rightarrow> http_worker \<Rightarrow> inference_request \<Rightarrow> rat \<Rightarrow> rat option \<Rightarrow> worker_result worker_program" where
  "worker_infer tools w request timeout deadline =
    bind_p (Finish (payload w request)) (\<lambda>document.
    bind_p (try_except (establish_capacity tools w request timeout deadline)
      (\<lambda>e. throw (dispatch_exception False e))) (\<lambda>limit.
    bind_p (try_except (submit tools w request document timeout limit)
      (\<lambda>e. throw (dispatch_exception True e))) (\<lambda>answer.
    Finish (validated_result tools request answer))))"

subsection \<open>Routing between two workers\<close>

record fallback_worker =
  primary :: http_worker
  fallback :: http_worker
  eligible_tasks :: "(pystr \<times> int) set"

definition remaining_time :: "rat \<Rightarrow> rat worker_program" where
  "remaining_time deadline = bind_p read_monotonic (\<lambda>now.
    if deadline - now \<le> 0 then throw out_of_time else give (deadline - now))"

definition fallback_ready ::
    "worker_tools \<Rightarrow> fallback_worker \<Rightarrow> (pystr \<times> int) option \<Rightarrow> rat \<Rightarrow> bool worker_program" where
  "fallback_ready tools fw name deadline =
    (case name of
       None \<Rightarrow> give False
     | Some t \<Rightarrow>
         if t \<notin> eligible_tasks fw then give False
         else bind_p (remaining_time deadline) (\<lambda>left.
           bind_p (fallback_capacity_available tools (primary fw) left) (\<lambda>free.
           if \<not> free then give False
           else bind_p (remaining_time deadline) (worker_health tools (fallback fw) name))))"

definition routed_health :: "worker_tools \<Rightarrow> fallback_worker \<Rightarrow> (pystr \<times> int) option \<Rightarrow> rat \<Rightarrow> bool worker_program" where
  "routed_health tools fw name timeout =
    try_except
      (bind_p read_monotonic (\<lambda>now.
       bind_p (remaining_time (now + timeout)) (\<lambda>left.
       bind_p (worker_availability tools (primary fw) name left) (\<lambda>a.
       if a = AVAILABLE then give True
       else if a = UNAVAILABLE then fallback_ready tools fw name (now + timeout)
       else give False))))
      (\<lambda>e. case e of WorkerUnavailable _ \<Rightarrow> give False | _ \<Rightarrow> throw e)"

definition routed_infer ::
    "worker_tools \<Rightarrow> fallback_worker \<Rightarrow> inference_request \<Rightarrow> rat \<Rightarrow> rat option \<Rightarrow> worker_result worker_program" where
  "routed_infer tools fw request timeout deadline =
    bind_p read_monotonic (\<lambda>now.
    let limit = (case deadline of None \<Rightarrow> now + timeout | Some d \<Rightarrow> min d (now + timeout))
    in bind_p (remaining_time limit) (\<lambda>left.
       bind_p (worker_availability tools (primary fw) (Some (task_of request)) left) (\<lambda>a.
       if a = AVAILABLE
       then bind_p (remaining_time limit) (\<lambda>left. worker_infer tools (primary fw) request left (Some limit))
       else bind_p (if a = UNAVAILABLE then fallback_ready tools fw (Some (task_of request)) limit else give False) (\<lambda>ready.
         if \<not> ready then throw (WorkerUnavailable ''no worker is safely available before dispatch'')
         else bind_p (remaining_time limit) (\<lambda>left. worker_infer tools (fallback fw) request left (Some limit))))))"

text \<open>The worker \<open>create_app\<close> builds.\<close>

datatype inference_worker = Single http_worker | Routed fallback_worker

definition start_infer ::
    "worker_tools \<Rightarrow> inference_worker \<Rightarrow> inference_request \<Rightarrow> rat \<Rightarrow> worker_result worker_program" where
  "start_infer tools iw request timeout =
    (case iw of
       Single w \<Rightarrow> worker_infer tools w request timeout None
     | Routed fw \<Rightarrow> routed_infer tools fw request timeout None)"

definition choose_worker :: "settings \<Rightarrow> pystr \<Rightarrow> inference_worker" where
  "choose_worker s token =
    (let main = \<lparr>worker_kind = Ollama, base_url = ollama_base_url s, worker_model = ollama_model s\<rparr>
     in case lm_studio_fallback s of
          None \<Rightarrow> Single main
        | Some f \<Rightarrow> Routed \<lparr>primary = main,
            fallback = \<lparr>worker_kind = LM_Studio token (fallback_idle_ttl_seconds f),
              base_url = fallback_base_url f, worker_model = fallback_model f\<rparr>,
            eligible_tasks = set (map fst TASK_POLICIES)\<rparr>)"

end
