(* ===== verification/Worker_Runs.thy ===== *)
theory Worker_Runs
  imports Worker_Core Http_Errors
begin

text \<open>
  What a run of a worker asks and how it may end, over the history of its calls: which calls
  submit a request, what was established before, and which errors remain.
\<close>

type_synonym history = "(worker_question \<times> worker_reply) list"

subsection \<open>The network\<close>

text \<open>
  Documented behaviour of httpx and asyncio: a call ends with a response or with one of three
  errors, a response may be interrupted by two of them, and \<open>ConnectError\<close> and
  \<open>ConnectTimeout\<close> are raised before anything is sent.
\<close>

definition plausible :: "worker_question \<Rightarrow> worker_reply \<Rightarrow> bool" where
  "plausible q r =
    (case (q, r) of
       (Read_Monotonic, Monotonic _) \<Rightarrow> True
     | (Call_Server _, Served (Inl e)) \<Rightarrow> e \<in> {ConnectFailure, TimeoutError, TransportError}
     | (Call_Server _, Served (Inr response)) \<Rightarrow> reply_interrupted response \<in> {None, Some TimeoutError, Some TransportError}
     | _ \<Rightarrow> False)"

abbreviation always :: "'a worker_program \<Rightarrow> ('a result \<Rightarrow> history \<Rightarrow> bool) \<Rightarrow> history \<Rightarrow> bool" where
  "always \<equiv> wp (logged plausible)"

definition submits :: "worker_question \<Rightarrow> bool" where
  "submits q = (case q of Call_Server call \<Rightarrow> call_path call = ''/v1/chat/completions'' | Read_Monotonic \<Rightarrow> False)"

text \<open>The server turned the request away before admitting it.\<close>

definition turned_away :: "worker_reply \<Rightarrow> bool" where
  "turned_away r =
    (case r of
       Served (Inl e) \<Rightarrow> e = ConnectFailure
     | Served (Inr response) \<Rightarrow> reply_status response \<in> {404, 429} \<or> 500 \<le> reply_status response \<and> reply_status response \<le> 599
     | Monotonic _ \<Rightarrow> False)"

definition silent :: "history \<Rightarrow> bool" where
  "silent l = list_all (\<lambda>(q, r). \<not> submits q) l"

lemma silent_simps [simp]: "silent []" "silent (x # l) = (\<not> submits (fst x) \<and> silent l)" "silent (l @ m) = (silent l \<and> silent m)"
  by (auto simp: silent_def)

lemma submits_simps [simp]:
  "\<not> submits (Call_Server (server_get w t l p)) \<longleftrightarrow> p \<noteq> ''/v1/chat/completions''"
  "submits (Call_Server (server_post w t l p x b)) \<longleftrightarrow> p = ''/v1/chat/completions''"
  "\<not> submits Read_Monotonic" "submits (Call_Server (completion_call w t l body))"
  by (simp_all add: submits_def server_get_def server_post_def completion_call_def)

subsection \<open>Errors of answers\<close>

fun answer_error :: "exn \<Rightarrow> bool" where
  "answer_error TimeoutError = True"
| "answer_error TransportError = True"
| "answer_error (InvalidWorkerOutput _) = True"
| "answer_error DecimalOverflow = True"
| "answer_error _ = False"

lemma loads_error: "raises (\<lambda>e. e = InvalidWorkerOutput why \<or> e = DecimalOverflow) (worker_loads nesting why body)"
proof (cases "json_loads exact_hooks nesting body")
  case (Inl e)
  then have "reading_error e" using exact_reader.quiet_loads [of nesting body] by simp
  then show ?thesis using Inl by (auto simp: worker_loads_def caught_as_def reading_error_def)
qed (simp add: worker_loads_def)

lemma answer_loads: "raises answer_error (worker_loads nesting why body)"
  by (rule raises_mono [OF loads_error]) auto

lemma answer_object: "raises answer_error (as_object why v)"
  by (cases v) (simp_all add: as_object_def bad_output_def)

lemma answer_chunks:
  "interrupted \<in> {None, Some TimeoutError, Some TransportError} \<Longrightarrow> raises answer_error (read_chunks interrupted body chunks)"
  by (induction interrupted body chunks rule: read_chunks.induct) (auto simp: bad_output_def)

lemma bounded_json_error:
  assumes "plausible (Call_Server call) (Served (Inr response))"
  shows "raises answer_error (bounded_json nesting response)"
  unfolding bounded_json_def Let_def
  by (intro raises_intros answer_loads answer_object answer_chunks)
    (use assms in \<open>simp_all add: plausible_def bad_output_def\<close>)

subsection \<open>Rules\<close>

lemma always_call:
  assumes "\<And>e. e \<in> {ConnectFailure, TimeoutError, TransportError} \<Longrightarrow> Q (Inl e) (h @ [(Call_Server call, Served (Inl e))])"
    and "\<And>response. plausible (Call_Server call) (Served (Inr response)) \<Longrightarrow>
      Q (Inr response) (h @ [(Call_Server call, Served (Inr response))])"
  shows "always (call_server call) Q h"
  unfolding call_server_def using assms
  by (auto simp: plausible_def split: worker_reply.splits sum.splits)

lemma always_clock:
  assumes "\<And>t. Q (Inr t) (h @ [(Read_Monotonic, Monotonic t)])"
  shows "always read_monotonic Q h"
  unfolding read_monotonic_def using assms by (auto simp: plausible_def split: worker_reply.splits)

lemma always_bind:
  assumes "always p (\<lambda>r h'. case r of Inl e \<Rightarrow> Q (Inl e) h' | Inr x \<Rightarrow> always (f x) Q h') h"
  shows "always (bind_p p f) Q h"
  using assms by (simp add: wp_bind)

lemma always_give: "Q (Inr x) h \<Longrightarrow> always (give x) Q h"
  by simp

lemma with_answer_always:
  assumes "\<And>e r. answer_error e \<or> e = ConnectFailure \<Longrightarrow> Q (Inl e) (h @ [(Call_Server call, r)])"
    and "\<And>r. Q (Inr otherwise) (h @ [(Call_Server call, r)])"
    and "\<And>response ob. reply_status response = 200 \<Longrightarrow> bounded_json (tool_nesting tools) response = Inr ob \<Longrightarrow>
      always (act ob) Q (h @ [(Call_Server call, Served (Inr response))])"
  shows "always (with_answer tools call otherwise act) Q h"
  unfolding with_answer_def
proof (intro always_bind always_call, goal_cases)
  case (1 e)
  then show ?case using assms(1) [of e] by auto
next
  case (2 response)
  show ?case
  proof (cases "reply_status response = 200")
    case True
    have err: "answer_error e" if "bounded_json (tool_nesting tools) response = Inl e" for e
      using bounded_json_error [OF 2, of "tool_nesting tools"] that by (simp add: raises_def)
    show ?thesis
      using True assms(1) assms(3) [OF True] err
      by (cases "bounded_json (tool_nesting tools) response") (auto simp: wp_bind)
  qed (use assms(2) in simp)
qed

subsection \<open>Probes\<close>

text \<open>An answer of status 200 to a call of \<open>w\<close> on \<open>path\<close> is in the history.\<close>

definition answered_with :: "worker_tools \<Rightarrow> http_worker \<Rightarrow> string \<Rightarrow> jobj \<Rightarrow> history \<Rightarrow> bool" where
  "answered_with tools w path ob l = (\<exists>call response. (Call_Server call, Served (Inr response)) \<in> set l \<and>
     call_base call = base_url w \<and> call_path call = path \<and> reply_status response = 200 \<and>
     bounded_json (tool_nesting tools) response = Inr ob)"

lemma answered_withI:
  "(Call_Server call, Served (Inr response)) \<in> set l \<Longrightarrow> call_base call = base_url w \<Longrightarrow> call_path call = path \<Longrightarrow>
    reply_status response = 200 \<Longrightarrow> bounded_json (tool_nesting tools) response = Inr ob \<Longrightarrow> answered_with tools w path ob l"
  by (auto simp: answered_with_def)

lemma call_simps [simp]:
  "call_base (server_get w t l p) = base_url w" "call_path (server_get w t l p) = p"
  "call_base (server_post w t l p x b) = base_url w" "call_path (server_post w t l p x b) = p"
  by (simp_all add: server_get_def server_post_def)

lemma answered_with_append: "answered_with tools w path ob l \<Longrightarrow> answered_with tools w path ob (k @ l @ m)"
  by (auto simp: answered_with_def)

text \<open>
  The capacity is known: none is needed, or the server configured at least that many tokens for
  the model and no resident instance has fewer.
\<close>

definition capacity_known :: "worker_tools \<Rightarrow> http_worker \<Rightarrow> int \<Rightarrow> history \<Rightarrow> bool" where
  "capacity_known tools w minimum l = (minimum = 0 \<or> worker_kind w = Ollama \<and>
    (\<exists>shown parameters n resident models.
      answered_with tools w ''/api/show'' shown l \<and> jget shown ''parameters'' = JStr parameters \<and>
      configured_context parameters = Some n \<and> minimum \<le> n \<and> n \<le> MAX_WORKER_CONTEXT_TOKENS \<and>
      answered_with tools w ''/api/ps'' resident l \<and> jget resident ''models'' = JList models \<and>
      resident_scan (worker_model w) minimum False models = AVAILABLE))"

definition probe_result :: "'a result \<Rightarrow> bool" where
  "probe_result r = (\<forall>e. r = Inl e \<longrightarrow> answer_error e \<or> e = ConnectFailure)"

lemma probe_result_simps [simp]: "probe_result (Inr x)" "probe_result (Inl e) = (answer_error e \<or> e = ConnectFailure)"
  by (simp_all add: probe_result_def)

lemma context_always:
  assumes "\<And>r l. silent l \<Longrightarrow> probe_result r \<Longrightarrow> (r = Inr AVAILABLE \<Longrightarrow> capacity_known tools w minimum l) \<Longrightarrow> Q r (h @ l)"
  shows "always (context_availability tools w timeout limit minimum) Q h"
proof (cases "worker_kind w")
  case (LM_Studio token ttl)
  then show ?thesis
    using assms [of "[]" "Inr AVAILABLE"] assms [of "[]" "Inr UNAVAILABLE"]
    by (cases "minimum = 0") (simp_all add: context_availability_def capacity_known_def)
next
  case Ollama
  show ?thesis
  proof (cases "minimum = 0")
    case True
    then show ?thesis using assms [of "[]"] Ollama by (simp add: context_availability_def ollama_context_def capacity_known_def)
  next
    case False
    let ?show = "server_post w timeout limit ''/api/show'' [] (Json_Body (JObj [(py ''model'', JStr (worker_model w))]))"
    let ?ps = "server_get w timeout limit ''/api/ps''"
    have unknown: "Q r (h @ l)" if "silent l" "probe_result r" "r \<noteq> Inr AVAILABLE" for r l
      by (rule assms) (use that in auto)
    have "always (with_answer tools ?ps UNKNOWN (\<lambda>resident.
        case jget resident ''models'' of JList models \<Rightarrow> give (resident_scan (worker_model w) minimum False models)
        | _ \<Rightarrow> give UNKNOWN)) Q (h @ [(Call_Server ?show, Served (Inr response))])"
      if cfg: "reply_status response = 200" "bounded_json (tool_nesting tools) response = Inr shown"
        "jget shown ''parameters'' = JStr parameters" "configured_context parameters = Some n" "minimum \<le> n" "context_ok n"
      for response shown parameters n
    proof (rule with_answer_always, goal_cases)
      case (1 e r)
      then show ?case using unknown [of "[(Call_Server ?show, Served (Inr response)), (Call_Server ?ps, r)]" "Inl e"] by simp
    next
      case (2 r)
      then show ?case using unknown [of "[(Call_Server ?show, Served (Inr response)), (Call_Server ?ps, r)]" "Inr UNKNOWN"] by simp
    next
      case (3 response' resident)
      let ?l = "[(Call_Server ?show, Served (Inr response)), (Call_Server ?ps, Served (Inr response'))]"
      have "Q (Inr (resident_scan (worker_model w) minimum False models)) (h @ ?l)"
        if m: "jget resident ''models'' = JList models" for models
      proof (rule assms, simp, simp)
        have "answered_with tools w ''/api/show'' shown ?l" "answered_with tools w ''/api/ps'' resident ?l"
          using answered_withI [of ?show response ?l w _ tools shown] answered_withI [of ?ps response' ?l w _ tools resident]
            cfg(1,2) 3 by simp_all
        moreover have "minimum \<le> n \<and> n \<le> MAX_WORKER_CONTEXT_TOKENS" using cfg by (simp add: context_ok_def)
        moreover assume "Inr (resident_scan (worker_model w) minimum False models) = (Inr AVAILABLE :: availability result)"
        then have "resident_scan (worker_model w) minimum False models = AVAILABLE" by simp
        ultimately show "capacity_known tools w minimum ?l"
          unfolding capacity_known_def using cfg(3,4) m Ollama by blast
      qed
      then show ?case using unknown [of ?l "Inr UNKNOWN"] by (cases "jget resident ''models''") simp_all
    qed
    note ps = this
    have "always (ollama_context tools w timeout limit minimum) Q h"
      unfolding ollama_context_def if_not_P [OF False]
    proof (rule with_answer_always, goal_cases)
      case (1 e r)
      then show ?case using unknown [of "[(Call_Server ?show, r)]" "Inl e"] by simp
    next
      case (2 r)
      then show ?case using unknown [of "[(Call_Server ?show, r)]" "Inr UNKNOWN"] by simp
    next
      case (3 response shown)
      have "Q (Inr a) (h @ [(Call_Server ?show, Served (Inr response))])" if "a \<noteq> AVAILABLE" for a
        using unknown [of "[(Call_Server ?show, Served (Inr response))]" "Inr a"] that by simp
      then show ?case using ps [OF 3]
        by (auto simp: not_less split: json.split option.split)
    qed
    then show ?thesis by (simp add: context_availability_def Ollama)
  qed
qed

lemma availability_always:
  assumes "\<And>r l. silent l \<Longrightarrow> (\<forall>e. r = Inl e \<longrightarrow> e = DecimalOverflow) \<Longrightarrow>
      (r = Inr AVAILABLE \<Longrightarrow> capacity_known tools w (required_context_tokens name) l) \<Longrightarrow> Q r (h @ l)"
  shows "always (worker_availability tools w name timeout) Q h"
proof -
  let ?min = "required_context_tokens name"
  define Q' where "Q' = (\<lambda>r h'. case r of
    Inl e \<Rightarrow> always (if is_probe_failure e then give UNKNOWN else throw e) Q h' | Inr x \<Rightarrow> Q (Inr x) h')"
  have post: "Q' r (h @ l)" if "silent l" "probe_result r" "r = Inr AVAILABLE \<Longrightarrow> capacity_known tools w ?min l" for r l
  proof (cases r)
    case (Inl e)
    then have "is_probe_failure e \<or> e = DecimalOverflow" using that(2) by (cases e) auto
    then show ?thesis using Inl assms [OF that(1), of "Inr UNKNOWN"] assms [OF that(1), of "Inl e"]
      by (auto simp: Q'_def)
  next
    case (Inr a)
    then show ?thesis using assms [OF that(1), of "Inr a"] that(3) by (simp add: Q'_def)
  qed
  have "always (raw_availability tools w timeout ?min) Q' h"
    unfolding raw_availability_def
  proof (rule with_answer_always, goal_cases)
    case (1 e r)
    then show ?case using post [of "[(Call_Server (server_get w timeout timeout ''/v1/models''), r)]" "Inl e"] by simp
  next
    case (2 r)
    then show ?case using post [of "[(Call_Server (server_get w timeout timeout ''/v1/models''), r)]" "Inr UNKNOWN"] by simp
  next
    case (3 response document)
    let ?first = "[(Call_Server (server_get w timeout timeout ''/v1/models''), Served (Inr response))]"
    have "Q' (Inr a) (h @ ?first)" if "a \<noteq> AVAILABLE" for a using post [of ?first "Inr a"] that by simp
    moreover have "always (context_availability tools w timeout timeout ?min) Q' (h @ ?first)"
    proof (rule context_always)
      fix r l assume l: "silent l" "probe_result r" "r = Inr AVAILABLE \<Longrightarrow> capacity_known tools w ?min l"
      have "capacity_known tools w ?min (?first @ l)" if "capacity_known tools w ?min l"
        using that answered_with_append [of tools w _ _ l ?first "[]"] unfolding capacity_known_def append_Nil2 by blast
      then show "Q' r ((h @ ?first) @ l)" using post [of "?first @ l" r] l by simp
    qed
    ultimately show ?case by (auto split: json.split option.split)
  qed
  then show ?thesis unfolding worker_availability_def wp_try_except Q'_def by simp
qed

subsection \<open>Errors that say nothing about the server\<close>

fun local_error :: "exn \<Rightarrow> bool" where
  "local_error TypeError = True"
| "local_error DecimalOverflow = True"
| "local_error (InvalidWorkerOutput _) = True"
| "local_error e = is_value_error e"

lemma local_shaped: "raises local_error (shaped v)"
  by (cases v) (simp_all add: shaped_def)

lemma local_keywords:
  "raises local_error (properties_of node)" "raises local_error (required_of node)" "raises local_error (any_of node)"
  by (auto simp: properties_of_def required_of_def any_of_def local_shaped split: option.split json.split)

lemma local_order_loop: "raises local_error (decoder_order_loop vs)"
proof (induction vs rule: decoder_order_loop.induct)
  case (2 v pending)
  show ?case
  proof (cases v)
    case (JObj node)
    then show ?thesis using 2 by (auto intro!: raises_bind local_keywords)
  qed simp_all
qed simp

lemma local_uses_order: "raises local_error (uses_decoder_field_order schema name)"
  unfolding uses_decoder_field_order_def by (intro raises_if local_order_loop) simp_all

lemma local_arrange: "raises local_error (arrange p node key v)"
  by (cases v) (auto simp: arrange_def intro!: raises_bind local_keywords)

lemma local_ordered: "raises local_error (ordered p v)"
proof (induction p v rule: ordered.induct)
  case (1 p vs)
  then show ?case by (auto intro!: raises_bind raises_map_res)
next
  case (2 p ob)
  have member: "raises local_error (bind_res (ordered (position_under p (fst kv)) (snd kv)) (arrange p ob (fst kv)))"
    if "p \<noteq> Branches" "p \<noteq> Field_Map" "kv \<in> set (key_order True ob)" for kv
    by (rule raises_bind [OF "2.IH"(2) [OF that] local_arrange])
  have field: "raises local_error (bind_res (ordered Node (snd kv)) (\<lambda>w. Inr (fst kv, w)))"
    if "p \<noteq> Branches" "p = Field_Map" "kv \<in> set ob" for kv
    by (rule raises_bind [OF "2.IH"(1) [OF that]]) simp
  show ?case
    unfolding ordered.simps
    by (intro raises_if raises_bind raises_map_res member field) simp_all
qed simp_all

lemma local_payload: "raises local_error (payload w request)"
  unfolding payload_def decoder_schema_def
  by (intro raises_bind raises_if local_uses_order local_ordered) simp_all

lemma local_value: "value_fault e \<Longrightarrow> local_error e"
  by (cases e) (simp_all add: value_fault_def)

lemma local_encode: "raises local_error (encode_json_bytes sorted_keys v)"
  by (rule raises_mono [OF refusing_encode_bytes]) (rule local_value)

lemma local_validated: "raises local_error (validated_result tools request document)"
proof -
  have bad: "raises local_error (bad_output why)" for why by (simp add: bad_output_def)
  have "raises local_error (completion_message document)"
    by (auto simp: completion_message_def bad split: json.split list.split)
  moreover have "raises local_error (finished_normally v)" for v
    by (cases v) (simp_all add: finished_normally_def check_def)
  moreover have "raises local_error (generated_text message)" for message
    by (auto simp: generated_text_def Let_def bad split: json.split)
  moreover have "raises local_error (worker_loads nesting why b)" for nesting why b
    by (rule raises_mono [OF loads_error]) auto
  moreover have "raises local_error (as_object why v)" for why v
    by (cases v) (simp_all add: as_object_def bad)
  ultimately show ?thesis
    unfolding validated_result_def
    by (auto intro!: raises_bind simp: bad check_def split: sum.split prod.split)
qed

subsection \<open>One inference\<close>

text \<open>Results that do not depend on what became of a submitted request.\<close>

definition before_submission :: "'a result \<Rightarrow> bool" where
  "before_submission r = (\<exists>e. r = Inl e \<and> (local_error e \<or> (\<exists>why. e = WorkerUnavailable why)))"

text \<open>
  How an inference by \<open>w\<close> may end: nothing was submitted; or the last call submitted the request,
  once the capacity was known, and the result is in keeping with the reply.
\<close>

definition submitted_result :: "worker_tools \<Rightarrow> inference_request \<Rightarrow> worker_reply \<Rightarrow> worker_result result \<Rightarrow> bool" where
  "submitted_result tools request reply r =
    (case r of
       Inl e \<Rightarrow> local_error e \<or> (\<exists>why. e = WorkerOutcomeAmbiguous why) \<or> (\<exists>why. e = WorkerUnavailable why) \<and> turned_away reply
     | Inr result \<Rightarrow> (\<exists>response document. reply = Served (Inr response) \<and> reply_status response < 400 \<and>
         bounded_json (tool_nesting tools) response = Inr document \<and> validated_result tools request document = Inr result))"

definition inference_log :: "worker_tools \<Rightarrow> http_worker \<Rightarrow> inference_request \<Rightarrow> worker_result result \<Rightarrow> history \<Rightarrow> bool" where
  "inference_log tools w request r l =
    (silent l \<and> before_submission r \<or>
     (\<exists>l' call reply. l = l' @ [(Call_Server call, reply)] \<and> silent l' \<and> submits (Call_Server call) \<and>
       call_base call = base_url w \<and>
       capacity_known tools w (required_context_tokens (Some (task_of request))) l' \<and>
       submitted_result tools request reply r))"

lemma dispatch_before:
  "answer_error e \<or> e = ConnectFailure \<or> local_error e \<or> (\<exists>why. e = WorkerUnavailable why) \<Longrightarrow>
    before_submission (Inl (dispatch_exception False e))"
  by (cases e) (auto simp: before_submission_def dispatch_exception_def)

lemma dispatch_after:
  "answer_error e \<or> (e = ConnectFailure \<or> (\<exists>why. e = WorkerUnavailable why)) \<and> turned_away reply \<Longrightarrow>
    submitted_result tools request reply (Inl (dispatch_exception True e))"
  by (cases e) (auto simp: submitted_result_def dispatch_exception_def)

lemma establish_always:
  assumes "\<And>r l. silent l \<Longrightarrow> (\<forall>e. r = Inl e \<longrightarrow> answer_error e \<or> e = ConnectFailure \<or> (\<exists>why. e = WorkerUnavailable why)) \<Longrightarrow>
      (\<forall>t. r = Inr t \<longrightarrow> capacity_known tools w (required_context_tokens (Some (task_of request))) l) \<Longrightarrow> Q r (h @ l)"
  shows "always (establish_capacity tools w request timeout deadline) Q h"
proof -
  let ?min = "required_context_tokens (Some (task_of request))"
  have rest: "always (bind_p (context_availability tools w timeout limit ?min) (\<lambda>capacity.
      if capacity \<noteq> AVAILABLE then throw (WorkerUnavailable ''worker task context capacity is not established'')
      else give limit)) Q (h @ l0)" if "silent l0" for limit l0
    unfolding wp_bind
  proof (rule context_always)
    fix r l assume l: "silent l" "probe_result r" "r = Inr AVAILABLE \<Longrightarrow> capacity_known tools w ?min l"
    have cap: "capacity_known tools w ?min (l0 @ l)" if "capacity_known tools w ?min l"
      using that answered_with_append [of tools w _ _ l l0 "[]"] unfolding capacity_known_def append_Nil2 by blast
    show "case r of Inl e \<Rightarrow> Q (Inl e) ((h @ l0) @ l) | Inr x \<Rightarrow>
        always (if x \<noteq> AVAILABLE then throw (WorkerUnavailable ''worker task context capacity is not established'') else give limit)
          Q ((h @ l0) @ l)"
      using assms [of "l0 @ l"] l cap \<open>silent l0\<close> by (cases r) (auto simp: probe_result_def)
  qed
  show ?thesis
  proof (cases deadline)
    case None
    then show ?thesis using rest [of "[]"] by (simp add: establish_capacity_def dispatch_timeout_def on_result_simps)
  next
    case (Some d)
    have "Q (Inl out_of_time) (h @ [(Read_Monotonic, Monotonic t)])" for t
      by (rule assms) (simp_all add: out_of_time_def)
    then show ?thesis
      using rest [of "[(Read_Monotonic, Monotonic t)]" for t] Some
      unfolding establish_capacity_def dispatch_timeout_def
      by (auto simp: wp_bind intro!: always_clock)
  qed
qed

lemma submit_always:
  assumes quiet: "\<And>e. local_error e \<Longrightarrow> Q (Inl e) h"
    and sent: "\<And>r call reply. submits (Call_Server call) \<Longrightarrow> call_base call = base_url w \<Longrightarrow>
      (\<forall>e. r = Inl e \<longrightarrow> answer_error e \<or> (e = ConnectFailure \<or> (\<exists>why. e = WorkerUnavailable why)) \<and> turned_away reply) \<Longrightarrow>
      (\<forall>ob. r = Inr ob \<longrightarrow> (\<exists>response. reply = Served (Inr response) \<and> reply_status response < 400 \<and>
         bounded_json (tool_nesting tools) response = Inr ob)) \<Longrightarrow>
      Q r (h @ [(Call_Server call, reply)])"
  shows "always (submit tools w request document timeout limit) Q h"
proof -
  have call: "always (bind_p (call_server (completion_call w timeout limit body)) (\<lambda>response.
    if reply_status response \<in> {404, 429} \<or> 500 \<le> reply_status response \<and> reply_status response \<le> 599
    then throw (WorkerUnavailable ''worker rejected admission while unavailable'')
    else if 400 \<le> reply_status response
    then throw (InvalidWorkerOutput ''worker rejected the gateway request'')
    else Finish (bounded_json (tool_nesting tools) response))) Q h" for body
  proof (intro always_bind always_call, goal_cases)
    case (1 e)
    then show ?case
      using sent [of "completion_call w timeout limit body" "Inl e" "Served (Inl e)"]
      by (auto simp: turned_away_def completion_call_def)
  next
    case (2 response)
    have err: "answer_error e" if "bounded_json (tool_nesting tools) response = Inl e" for e
      using bounded_json_error [OF 2, of "tool_nesting tools"] that by (simp add: raises_def)
    show ?case
      using sent [of "completion_call w timeout limit body" _ "Served (Inr response)"] err
      by (auto simp: turned_away_def completion_call_def)
  qed
  show ?thesis
    unfolding submit_def
    using quiet local_uses_order [of "response_schema (generation request)" "task_of request"] local_encode call
    by (auto simp: wp_bind raises_def split: sum.split)
qed

lemma worker_infer_always:
  assumes "\<And>r l. inference_log tools w request r l \<Longrightarrow> Q r (h @ l)"
  shows "always (worker_infer tools w request timeout deadline) Q h"
proof -
  have quiet: "Q (Inl e) (h @ l)" if "silent l" "local_error e" for e l
    by (rule assms) (use that in \<open>simp add: inference_log_def before_submission_def\<close>)
  have stopped: "Q (Inl (dispatch_exception False e)) (h @ l)"
    if "silent l" "answer_error e \<or> e = ConnectFailure \<or> local_error e \<or> (\<exists>why. e = WorkerUnavailable why)" for e l
    by (rule assms) (unfold inference_log_def, intro disjI1 conjI that dispatch_before)
  define checked where "checked = (\<lambda>r h'. case r of Inl e \<Rightarrow> Q (Inl e) h'
    | Inr answer \<Rightarrow> Q (validated_result tools request answer) h')"
  define caught where "caught = (\<lambda>r h'. case r of Inl e \<Rightarrow> checked (Inl (dispatch_exception True e)) h'
    | Inr answer \<Rightarrow> checked (Inr answer) h')"
  have submitted: "always (submit tools w request document timeout limit) caught (h @ l)"
    if l: "silent l" "capacity_known tools w (required_context_tokens (Some (task_of request))) l" for document limit l
  proof (rule submit_always)
    fix e assume e: "local_error e"
    then have "local_error (dispatch_exception True e)" by (cases e) (simp_all add: dispatch_exception_def)
    then show "caught (Inl e) (h @ l)" using quiet l by (simp add: caught_def checked_def)
  next
    fix r call reply
    assume call: "submits (Call_Server call)" "call_base call = base_url w"
      and err: "\<forall>e. r = Inl e \<longrightarrow> answer_error e \<or> (e = ConnectFailure \<or> (\<exists>why. e = WorkerUnavailable why)) \<and> turned_away reply"
      and ans: "\<forall>ob. r = Inr ob \<longrightarrow> (\<exists>response. reply = Served (Inr response) \<and> reply_status response < 400 \<and>
         bounded_json (tool_nesting tools) response = Inr ob)"
    let ?l = "l @ [(Call_Server call, reply)]"
    have log: "Q r' (h @ ?l)" if "submitted_result tools request reply r'" for r'
      by (rule assms) (use that l call in \<open>auto simp: inference_log_def\<close>)
    show "caught r ((h @ l) @ [(Call_Server call, reply)])"
    proof (cases r)
      case (Inl e)
      have "submitted_result tools request reply (Inl (dispatch_exception True e))"
        by (rule dispatch_after) (use err Inl in blast)
      then show ?thesis using log Inl by (simp add: caught_def checked_def)
    next
      case (Inr document)
      then have "submitted_result tools request reply (validated_result tools request document)"
        using ans local_validated [of tools request document]
        by (cases "validated_result tools request document") (auto simp: submitted_result_def)
      then show ?thesis using log Inr by (simp add: caught_def checked_def)
    qed
  qed
  have run: "always (try_except (establish_capacity tools w request timeout deadline)
      (\<lambda>e. throw (dispatch_exception False e)))
      (\<lambda>r h'. case r of Inl e \<Rightarrow> Q (Inl e) h' | Inr limit \<Rightarrow> always (submit tools w request document timeout limit) caught h') h"
    for document
    unfolding wp_try_except
  proof (rule establish_always, goal_cases)
    case (1 r l)
    then show ?case using stopped submitted by (cases r) auto
  qed
  have finish: "always (bind_p (try_except (submit tools w request document timeout limit) (\<lambda>e. throw (dispatch_exception True e)))
      (\<lambda>answer. Finish (validated_result tools request answer))) Q h' =
      always (submit tools w request document timeout limit) caught h'" for document limit h'
    unfolding wp_bind wp_try_except caught_def checked_def
    by (intro arg_cong [where f = "\<lambda>P. always _ P h'"] ext) (simp split: sum.split)
  have body: "always (bind_p (try_except (establish_capacity tools w request timeout deadline)
      (\<lambda>e. throw (dispatch_exception False e))) (\<lambda>limit.
    bind_p (try_except (submit tools w request document timeout limit)
      (\<lambda>e. throw (dispatch_exception True e))) (\<lambda>answer.
    Finish (validated_result tools request answer)))) Q h" for document
    by (rule always_bind, unfold finish, rule run)
  show ?thesis
  proof (cases "payload w request")
    case (Inl e)
    then show ?thesis using quiet [of "[]" e] local_payload [of w request]
      by (simp add: worker_infer_def on_result_simps)
  next
    case (Inr document)
    show ?thesis unfolding worker_infer_def Inr on_result_simps by (rule body)
  qed
qed

subsection \<open>Routing\<close>

lemma silent_appended: "silent l0 \<Longrightarrow> inference_log tools w request r l \<Longrightarrow> inference_log tools w request r (l0 @ l)"
proof -
  assume l0: "silent l0" and log: "inference_log tools w request r l"
  have "capacity_known tools w n (l0 @ l')" if "capacity_known tools w n l'" for n l'
    using that answered_with_append [of tools w _ _ l' l0 "[]"] unfolding capacity_known_def append_Nil2 by blast
  with l0 log show ?thesis unfolding inference_log_def by (metis append.assoc silent_simps(3))
qed

lemma remaining_always:
  assumes "\<And>r t. (\<forall>e. r = Inl e \<longrightarrow> e = out_of_time) \<Longrightarrow> Q r (h @ [(Read_Monotonic, Monotonic t)])"
  shows "always (remaining_time deadline) Q h"
  unfolding remaining_time_def using assms
  by (auto simp: wp_bind intro!: always_clock)

text \<open>The fallback may take over: the task is eligible and the primary has no model loaded.\<close>

definition primary_idle :: "worker_tools \<Rightarrow> fallback_worker \<Rightarrow> pystr \<times> int \<Rightarrow> history \<Rightarrow> bool" where
  "primary_idle tools fw name l = (name \<in> eligible_tasks fw \<and>
    (\<exists>resident. answered_with tools (primary fw) ''/api/ps'' resident l \<and> jget resident ''models'' = JList []))"

lemma capacity_always:
  assumes "\<And>r l. silent l \<Longrightarrow> (\<forall>e. r = Inl e \<longrightarrow> e = DecimalOverflow) \<Longrightarrow>
      (r = Inr True \<Longrightarrow> \<exists>resident. answered_with tools w ''/api/ps'' resident l \<and> jget resident ''models'' = JList []) \<Longrightarrow> Q r (h @ l)"
  shows "always (fallback_capacity_available tools w timeout) Q h"
proof (cases "worker_kind w")
  case (LM_Studio token ttl)
  then show ?thesis using assms [of "[]" "Inr False"] by (simp add: fallback_capacity_available_def)
next
  case Ollama
  let ?call = "server_get w timeout timeout ''/api/ps''"
  have not: "Q (Inr False) (h @ l)" "Q (Inl DecimalOverflow) (h @ l)" if "silent l" for l
    by (rule assms; use that in simp)+
  show ?thesis
    unfolding fallback_capacity_available_def Ollama worker_kind.case wp_try_except
  proof (rule with_answer_always, goal_cases)
    case (1 e r)
    then show ?case using not [of "[(Call_Server ?call, r)]"] by (cases e) auto
  next
    case (2 r)
    then show ?case using not [of "[(Call_Server ?call, r)]"] by simp
  next
    case (3 response document)
    let ?l = "[(Call_Server ?call, Served (Inr response))]"
    have "answered_with tools w ''/api/ps'' document ?l"
      using answered_withI [of ?call response ?l w _ tools document] 3 by simp
    then have "Q (Inr (jget document ''models'' = JList [])) (h @ ?l)"
      by (intro assms) auto
    then show ?case by simp
  qed
qed

lemma health_always:
  assumes "\<And>r l. silent l \<Longrightarrow> (\<forall>e. r = Inl e \<longrightarrow> e = DecimalOverflow) \<Longrightarrow> Q r (h @ l)"
  shows "always (worker_health tools w name timeout) Q h"
  unfolding worker_health_def wp_bind
proof (rule availability_always, goal_cases)
  case (1 r l)
  then show ?case using assms [of l] by (cases r) auto
qed

lemma ready_always:
  assumes "\<And>r l. silent l \<Longrightarrow> (\<forall>e. r = Inl e \<longrightarrow> e = DecimalOverflow \<or> e = out_of_time) \<Longrightarrow>
      (r = Inr True \<Longrightarrow> primary_idle tools fw name l) \<Longrightarrow> Q r (h @ l)"
  shows "always (fallback_ready tools fw (Some name) deadline) Q h"
proof (cases "name \<in> eligible_tasks fw")
  case False
  then show ?thesis using assms [of "[]" "Inr False"] by (simp add: fallback_ready_def)
next
  case True
  let ?tick = "\<lambda>t. (Read_Monotonic, Monotonic t) :: worker_question \<times> worker_reply"
  have over: "Q (Inl e) (h @ l)" if "silent l" "e = DecimalOverflow \<or> e = out_of_time" for e l
    by (rule assms) (use that in auto)
  have "always (bind_p (remaining_time deadline) (worker_health tools (fallback fw) (Some name))) Q (h @ l)"
    if l: "silent l" "\<exists>resident. answered_with tools (primary fw) ''/api/ps'' resident l \<and> jget resident ''models'' = JList []" for l
    unfolding wp_bind
  proof (rule remaining_always, goal_cases)
    case (1 r t)
    have idle: "primary_idle tools fw name (l @ ?tick t # l')" for l'
      using l(2) answered_with_append [of tools "primary fw" _ _ l "[]"] True by (fastforce simp: primary_idle_def)
    have "always (worker_health tools (fallback fw) (Some name) left) Q (h @ l @ [?tick t])" for left
    proof (rule health_always, goal_cases)
      case (1 r l')
      then show ?case using assms [of "l @ ?tick t # l'" r] l(1) idle by simp
    qed
    then show ?case using 1 over [of "l @ [?tick t]"] l(1) by (cases r) auto
  qed
  note health = this
  have capacity: "always (bind_p (fallback_capacity_available tools (primary fw) left) (\<lambda>free.
      if \<not> free then give False else bind_p (remaining_time deadline) (worker_health tools (fallback fw) (Some name)))) Q
      (h @ [?tick t])" for left t
    unfolding wp_bind
  proof (rule capacity_always, goal_cases)
    case (1 r l)
    have later: "answered_with tools w path ob l \<Longrightarrow> answered_with tools w path ob (?tick t # l)" for w path ob
      using answered_with_append [of tools w path ob l "[?tick t]" "[]"] by simp
    show ?case
    proof (cases r)
      case (Inl e)
      then show ?thesis using 1 over [of "?tick t # l" e] by simp
    next
      case (Inr free)
      then show ?thesis
        using 1 health [of "?tick t # l"] later assms [of "?tick t # l" "Inr False"]
        by (cases free) (auto simp flip: wp_bind)
    qed
  qed
  have "always (bind_p (remaining_time deadline) (\<lambda>left. bind_p (fallback_capacity_available tools (primary fw) left) (\<lambda>free.
      if \<not> free then give False else bind_p (remaining_time deadline) (worker_health tools (fallback fw) (Some name))))) Q h"
  proof (rule always_bind, rule remaining_always, goal_cases)
    case (1 r t)
    show ?case
    proof (cases r)
      case (Inl e)
      then show ?thesis using 1 over [of "[?tick t]" e] by simp
    next
      case (Inr left)
      show ?thesis unfolding Inr sum.case by (rule capacity)
    qed
  qed
  then show ?thesis using True by (simp add: fallback_ready_def)
qed

text \<open>Who may submit, and what was established before.\<close>

definition routed_log :: "worker_tools \<Rightarrow> inference_worker \<Rightarrow> inference_request \<Rightarrow> worker_result result \<Rightarrow> history \<Rightarrow> bool" where
  "routed_log tools iw request r l =
    (case iw of
       Single w \<Rightarrow> inference_log tools w request r l
     | Routed fw \<Rightarrow> inference_log tools (primary fw) request r l \<or>
         (\<exists>l0 l1. l = l0 @ l1 \<and> silent l0 \<and> primary_idle tools fw (task_of request) l0 \<and>
           inference_log tools (fallback fw) request r l1))"

lemma silent_log: "silent l \<Longrightarrow> before_submission r \<Longrightarrow> routed_log tools iw request r l"
  by (simp add: routed_log_def inference_log_def split: inference_worker.split)

lemma routed_always:
  assumes "\<And>r l. routed_log tools (Routed fw) request r l \<Longrightarrow> Q r (h @ l)"
  shows "always (routed_infer tools fw request timeout deadline) Q h"
proof -
  let ?tick = "\<lambda>t. (Read_Monotonic, Monotonic t) :: worker_question \<times> worker_reply"
  let ?name = "task_of request"
  have stop: "Q (Inl e) (h @ l)" if "silent l" "e = DecimalOverflow \<or> (\<exists>why. e = WorkerUnavailable why)" for e l
    by (intro assms silent_log) (use that in \<open>auto simp: before_submission_def\<close>)
  have main: "always (bind_p (remaining_time limit) (\<lambda>left. worker_infer tools (primary fw) request left (Some limit))) Q (h @ l)"
    if l: "silent l" for limit l
  proof (rule always_bind, rule remaining_always, goal_cases)
    case (1 r t)
    show ?case
    proof (cases r)
      case (Inl e)
      then show ?thesis using 1 stop [of "l @ [?tick t]" e] l by (simp add: out_of_time_def)
    next
      case (Inr left)
      show ?thesis unfolding Inr sum.case
      proof (rule worker_infer_always)
        fix r l1 assume "inference_log tools (primary fw) request r l1"
        then have "inference_log tools (primary fw) request r ((l @ [?tick t]) @ l1)"
          by (intro silent_appended) (use l in simp)
        then show "Q r (((h @ l) @ [?tick t]) @ l1)"
          using assms [of r "(l @ [?tick t]) @ l1"] by (simp add: routed_log_def)
      qed
    qed
  qed
  have other: "always (bind_p (remaining_time limit) (\<lambda>left. worker_infer tools (fallback fw) request left (Some limit))) Q (h @ l)"
    if l: "silent l" "primary_idle tools fw ?name l" for limit l
  proof (rule always_bind, rule remaining_always, goal_cases)
    case (1 r t)
    show ?case
    proof (cases r)
      case (Inl e)
      then show ?thesis using 1 stop [of "l @ [?tick t]" e] l by (simp add: out_of_time_def)
    next
      case (Inr left)
      show ?thesis unfolding Inr sum.case
      proof (rule worker_infer_always)
        fix r l1 assume log: "inference_log tools (fallback fw) request r l1"
        have "primary_idle tools fw ?name (l @ [?tick t])"
          using l(2) answered_with_append [of tools "primary fw" _ _ l "[]"] by (fastforce simp: primary_idle_def)
        then have "routed_log tools (Routed fw) request r ((l @ [?tick t]) @ l1)"
          unfolding routed_log_def inference_worker.case using l(1) log
          by (intro disjI2 exI [of _ "l @ [?tick t]"] exI [of _ l1]) simp
        then show "Q r (((h @ l) @ [?tick t]) @ l1)"
          using assms [of r "(l @ [?tick t]) @ l1"] by simp
      qed
    qed
  qed
  have route: "always (bind_p (if a = UNAVAILABLE then fallback_ready tools fw (Some ?name) limit else give False) (\<lambda>ready.
         if \<not> ready then throw (WorkerUnavailable ''no worker is safely available before dispatch'')
         else bind_p (remaining_time limit) (\<lambda>left. worker_infer tools (fallback fw) request left (Some limit)))) Q (h @ l)"
    if l: "silent l" for a limit l
  proof (cases "a = UNAVAILABLE")
    case False
    then show ?thesis using stop [OF l] by (simp add: on_result_simps)
  next
    case True
    have "always (bind_p (fallback_ready tools fw (Some ?name) limit) (\<lambda>ready.
         if \<not> ready then throw (WorkerUnavailable ''no worker is safely available before dispatch'')
         else bind_p (remaining_time limit) (\<lambda>left. worker_infer tools (fallback fw) request left (Some limit)))) Q (h @ l)"
    proof (rule always_bind, rule ready_always, goal_cases)
      case (1 r l')
      show ?case
      proof (cases r)
        case (Inl e)
        then show ?thesis using 1 stop [of "l @ l'" e] l by (auto simp: out_of_time_def)
      next
        case (Inr ready)
        have idle: "primary_idle tools fw ?name (l @ l')" if ready
          using 1 Inr that answered_with_append [of tools "primary fw" _ _ l' l "[]"] by (auto simp: primary_idle_def)
        show ?thesis
        proof (cases ready)
          case True
          have "silent (l @ l')" using 1 l by simp
          from other [OF this idle [OF True], of limit] show ?thesis
            unfolding Inr sum.case if_not_P [OF notI] using True by (simp only: append.assoc not_True_eq_False if_False simp_thms)
        qed (use stop [of "l @ l'"] 1 l Inr in simp)
      qed
    qed
    then show ?thesis using True by simp
  qed
  have after: "always (bind_p (worker_availability tools (primary fw) (Some ?name) left) (\<lambda>a.
       if a = AVAILABLE
       then bind_p (remaining_time limit) (\<lambda>left. worker_infer tools (primary fw) request left (Some limit))
       else bind_p (if a = UNAVAILABLE then fallback_ready tools fw (Some ?name) limit else give False) (\<lambda>ready.
         if \<not> ready then throw (WorkerUnavailable ''no worker is safely available before dispatch'')
         else bind_p (remaining_time limit) (\<lambda>left. worker_infer tools (fallback fw) request left (Some limit))))) Q (h @ l)"
    if l: "silent l" for left limit l
  proof (rule always_bind, rule availability_always, goal_cases)
    case (1 r l')
    show ?case
    proof (cases r)
      case (Inl e)
      then show ?thesis using 1 stop [of "l @ l'" e] l by simp
    next
      case (Inr a)
      have s: "silent (l @ l')" using 1 l by simp
      show ?thesis
        unfolding Inr sum.case append.assoc
        using main [OF s] route [OF s] by (rule_tac if_split [THEN iffD2]) blast
    qed
  qed
  have first: "always (bind_p (remaining_time limit) (\<lambda>left.
      bind_p (worker_availability tools (primary fw) (Some ?name) left) (\<lambda>a.
       if a = AVAILABLE
       then bind_p (remaining_time limit) (\<lambda>left. worker_infer tools (primary fw) request left (Some limit))
       else bind_p (if a = UNAVAILABLE then fallback_ready tools fw (Some ?name) limit else give False) (\<lambda>ready.
         if \<not> ready then throw (WorkerUnavailable ''no worker is safely available before dispatch'')
         else bind_p (remaining_time limit) (\<lambda>left. worker_infer tools (fallback fw) request left (Some limit)))))) Q (h @ l)"
    if l: "silent l" for limit l
  proof (rule always_bind, rule remaining_always, goal_cases)
    case (1 r t)
    have s: "silent (l @ [?tick t])" using l by simp
    show ?case
    proof (cases r)
      case (Inl e)
      then show ?thesis using 1 stop [OF s, of e] by (simp add: out_of_time_def)
    next
      case (Inr left)
      show ?thesis unfolding Inr sum.case append.assoc by (rule after [OF s])
    qed
  qed
  show ?thesis
    unfolding routed_infer_def Let_def
    by (rule always_bind, rule always_clock, unfold sum.case, rule first) simp
qed

lemma start_always: "always (start_infer tools iw request timeout) (routed_log tools iw request) []"
proof (cases iw)
  case (Single w)
  have "always (worker_infer tools w request timeout None) (routed_log tools iw request) []"
    by (rule worker_infer_always) (simp add: routed_log_def Single)
  then show ?thesis by (simp add: start_infer_def Single)
next
  case (Routed fw)
  have "always (routed_infer tools fw request timeout None) (routed_log tools iw request) []"
    by (rule routed_always) (simp add: Routed)
  then show ?thesis by (simp add: start_infer_def Routed)
qed

end
