(* ===== verification/Worker_Properties.thy ===== *)
theory Worker_Properties
  imports Worker_Runs Store_Properties
begin

text \<open>
  The properties of the workers in worker.py, over the runs of the program the service starts for
  a dispatched request.
\<close>

subsection \<open>The runs of the started program\<close>

text \<open>A worker that may be sent the request after the history \<open>l\<close>.\<close>

definition worker_for :: "worker_tools \<Rightarrow> inference_worker \<Rightarrow> pystr \<times> int \<Rightarrow> http_worker \<Rightarrow> history \<Rightarrow> bool" where
  "worker_for tools iw name w l =
    (case iw of
       Single v \<Rightarrow> w = v
     | Routed fw \<Rightarrow> w = primary fw \<or> w = fallback fw \<and> primary_idle tools fw name l)"

lemma routed_cases:
  assumes "routed_log tools iw request r l"
  obtains (unsent) "silent l" "before_submission r"
  | (sent) w l' call reply where "l = l' @ [(Call_Server call, reply)]" "silent l'" "submits (Call_Server call)"
      "worker_for tools iw (task_of request) w l'" "call_base call = base_url w"
      "capacity_known tools w (required_context_tokens (Some (task_of request))) l'" "submitted_result tools request reply r"
proof -
  have one: thesis if log: "inference_log tools w request r l1" and l: "l = l0 @ l1" "silent l0"
      and w: "\<And>l'. worker_for tools iw (task_of request) w (l0 @ l')" for w l0 l1
  proof -
    have l1: "inference_log tools w request r l"
      using silent_appended [OF l(2) log] l(1) by simp
    show thesis
    proof (cases "silent l \<and> before_submission r")
      case False
      then obtain l' call reply where split: "l1 = l' @ [(Call_Server call, reply)]" "silent l'"
          "submits (Call_Server call)" "call_base call = base_url w"
          "capacity_known tools w (required_context_tokens (Some (task_of request))) l'" "submitted_result tools request reply r"
        using log l by (auto simp: inference_log_def)
      have "capacity_known tools w (required_context_tokens (Some (task_of request))) (l0 @ l')"
        using split(5) answered_with_append [of tools w _ _ l' l0 "[]"] unfolding capacity_known_def append_Nil2 by blast
      then show thesis
        using sent [of "l0 @ l'" call reply w] split l w by simp
    qed (use unsent in blast)
  qed
  show thesis
  proof (cases iw)
    case (Single w)
    then show thesis using assms one [of w l "[]"] by (simp add: routed_log_def worker_for_def)
  next
    case (Routed fw)
    from assms consider "inference_log tools (primary fw) request r l"
      | l0 l1 where "l = l0 @ l1" "silent l0" "primary_idle tools fw (task_of request) l0" "inference_log tools (fallback fw) request r l1"
      by (auto simp: routed_log_def Routed)
    then show thesis
    proof cases
      case 1
      then show thesis using one [of "primary fw" l "[]"] by (simp add: worker_for_def Routed)
    next
      case 2
      have "primary_idle tools fw (task_of request) (l0 @ l')" for l'
        using 2(3) answered_with_append [of tools "primary fw" _ _ l0 "[]" l'] by (fastforce simp: primary_idle_def)
      then show thesis using 2 one [of "fallback fw" l1 l0] by (simp add: worker_for_def Routed)
    qed
  qed
qed

lemma started_run:
  assumes "play (start_infer tools iw request timeout) rs s = (qs, s', Some x)" "list_all2 plausible qs (take (length qs) rs)"
  shows "routed_log tools iw request x (zip qs rs)" "map fst (zip qs rs) = qs"
  using logged_play [OF start_always assms] list_all2_lengthD [OF assms(2)]
  by (simp_all add: map_fst_zip_take)

lemma sent_once:
  assumes "map fst (zip qs rs) = qs" "zip qs rs = l' @ [(Call_Server call, reply)]" "silent l'" "submits (Call_Server call)"
  shows "length (filter submits qs) = 1" "(q, reply') \<in> set (zip qs rs) \<Longrightarrow> submits q \<Longrightarrow> reply' = reply"
    "zip qs rs = before @ (q, reply') # after \<Longrightarrow> submits q \<Longrightarrow> before = l' \<and> q = Call_Server call \<and> reply' = reply"
proof -
  have none: "\<not> submits q" if "(q, r) \<in> set l'" for q r
    using assms(3) that by (auto simp: silent_def list_all_iff)
  have "qs = map fst l' @ [Call_Server call]" using assms(1) unfolding assms(2) by simp
  moreover have "filter submits (map fst l') = []" using none by (auto simp: filter_empty_conv)
  ultimately show "length (filter submits qs) = 1" using assms(4) by simp
  show "(q, reply') \<in> set (zip qs rs) \<Longrightarrow> submits q \<Longrightarrow> reply' = reply"
    using none unfolding assms(2) by auto
  show "before = l' \<and> q = Call_Server call \<and> reply' = reply"
    if "zip qs rs = before @ (q, reply') # after" "submits q"
  proof (cases after rule: rev_cases)
    case Nil
    then show ?thesis using that assms(2) by simp
  next
    case (snoc after' z)
    then have "l' = before @ (q, reply') # after'" using that(1) assms(2) by simp
    then show ?thesis using none [of q reply'] that(2) by simp
  qed
qed

lemma validated_output:
  assumes "validated_result tools request document = Inr result"
  shows "media_type result = py ''application/json'' \<and>
    (\<exists>encoded ob. utf8_encode (content result) = Inr encoded \<and> length encoded \<le> MAX_OUTPUT_CONTENT_BYTES \<and>
      json_loads exact_hooks (tool_nesting tools) encoded = Inr (JObj ob) \<and> exact_json (JObj ob) \<and>
      tool_conforms tools (normalize_json_numbers (JObj (response_schema (generation request)))) (JObj ob))"
proof -
  from assms obtain choice message where "completion_message document = Inr (choice, message)"
    by (auto simp: validated_result_def bind_res_eq_Inr)
  note unfolded = assms [unfolded validated_result_def this bind_res_simps prod.case]
  obtain generated encoded v ob where
    utf8: "(case utf8_encode generated of Inl e \<Rightarrow> bad_output ''worker content is not valid UTF-8'' | Inr b \<Rightarrow> Inr b) = Inr encoded"
    and size: "length encoded \<le> MAX_OUTPUT_CONTENT_BYTES"
    and loads: "worker_loads (tool_nesting tools) ''worker content is not valid JSON'' encoded = Inr v"
    and obj: "as_object ''worker content must be a JSON object'' v = Inr ob"
    and conforms: "tool_conforms tools (normalize_json_numbers (JObj (response_schema (generation request)))) (JObj ob)"
    and result: "result = \<lparr>media_type = py ''application/json'', content = generated\<rparr>"
    using unfolded by (auto simp only: bind_res_eq_Inr check_eq_Inr sum.inject)
  from utf8 have "utf8_encode generated = Inr encoded" by (cases "utf8_encode generated") (simp_all add: bad_output_def)
  moreover from loads have json: "json_loads exact_hooks (tool_nesting tools) encoded = Inr v"
    by (cases "json_loads exact_hooks (tool_nesting tools) encoded") (simp_all add: worker_loads_def)
  moreover from obj have "v = JObj ob" by (cases v) (simp_all add: as_object_def bad_output_def)
  ultimately show ?thesis using size conforms exact_loads [OF json] result by auto
qed

subsection \<open>Samples\<close>

definition sample_worker :: http_worker where
  "sample_worker = \<lparr>worker_kind = Ollama, base_url = py ''http://127.0.0.1:11434'', worker_model = py ''model''\<rparr>"

definition sample_tools :: worker_tools where
  "sample_tools = \<lparr>tool_nesting = 900, tool_conforms = (\<lambda>_ _. True)\<rparr>"

text \<open>The body \<open>{"choices":[{"message":{"content":"{}"}}]}\<close>.\<close>

definition sample_answer :: server_reply where
  "sample_answer = \<lparr>reply_status = 200, reply_headers = [],
     reply_chunks = [[123, 34, 99, 104, 111, 105, 99, 101, 115, 34, 58, 91, 123, 34, 109, 101, 115, 115, 97, 103,
       101, 34, 58, 123, 34, 99, 111, 110, 116, 101, 110, 116, 34, 58, 34, 123, 125, 34, 125, 125, 93, 125]],
     reply_interrupted = None\<rparr>"

lemma sample_answer_json: "json_loads exact_hooks 900 (concat (reply_chunks sample_answer)) =
    Inr (JObj [(py ''choices'', JList [JObj [(py ''message'', JObj [(py ''content'', JStr (py ''{}''))])]])])"
  by code_simp

lemma sample_payload: "case payload sample_worker sample_request of Inl e \<Rightarrow> False
    | Inr document \<Rightarrow> (case encode_json_bytes False document of Inl e \<Rightarrow> False | Inr b \<Rightarrow> True)"
  by code_simp


lemma sample_ordering: "uses_decoder_field_order (response_schema (generation sample_request)) (task_of sample_request) = Inr True"
  by code_simp

lemma sample_context: "required_context_tokens (Some (task_of sample_request)) = 0"
  by code_simp

lemma sample_document: "bounded_json 900 sample_answer =
    Inr [(py ''choices'', JList [JObj [(py ''message'', JObj [(py ''content'', JStr (py ''{}''))])]])]"
proof -
  have "read_chunks (reply_interrupted sample_answer) [] (reply_chunks sample_answer) = Inr (concat (reply_chunks sample_answer))"
    by (simp add: sample_answer_def MAX_WORKER_RESPONSE_BYTES_def)
  moreover have "reply_headers sample_answer = []" by (simp add: sample_answer_def)
  moreover have "casefold (strip (py ''identity'')) = py ''identity''"
    by (simp add: strip_def casefold_def casefold_char_def is_space_def py_def)
  ultimately show ?thesis
    using sample_answer_json by (simp add: bounded_json_def worker_loads_def as_object_def Let_def check_def)
qed

lemma sample_generated:
  "utf8_encode (py ''{}'') = Inr [123, 125]"
  "json_loads exact_hooks 900 [123, 125] = Inr (JObj [])"
  by code_simp+

lemma sample_text: "generated_text [(py ''content'', JStr (py ''{}''))] = Inr (py ''{}'')"
proof -
  have "strip (py ''{}'') = py ''{}''" by (simp add: strip_def is_space_def py_def)
  then show ?thesis by (simp add: generated_text_def has_text_def or_else_def truthy_def jget_def)
qed

lemma sample_accepted: "validated_result sample_tools sample_request
    [(py ''choices'', JList [JObj [(py ''message'', JObj [(py ''content'', JStr (py ''{}''))])]])] =
    Inr \<lparr>media_type = py ''application/json'', content = py ''{}''\<rparr>"
  using sample_generated sample_text
  by (simp add: validated_result_def completion_message_def finished_normally_def jget_def check_def
    MAX_OUTPUT_CONTENT_BYTES_def worker_loads_def as_object_def sample_tools_def)

lemma sample_play:
  obtains body where
    "play (start_infer sample_tools (Single sample_worker) sample_request 300) [Served (Inr sample_answer)] () =
      ([Call_Server (completion_call sample_worker 300 300 body)], (),
       Some (Inr \<lparr>media_type = py ''application/json'', content = py ''{}''\<rparr>))"
    "list_all2 plausible [Call_Server (completion_call sample_worker 300 300 body)]
      (take (length [Call_Server (completion_call sample_worker 300 300 body)]) [Served (Inr sample_answer)])"
proof -
  obtain document where document: "payload sample_worker sample_request = Inr document"
    using sample_payload by (cases "payload sample_worker sample_request") simp_all
  then obtain body where body: "encode_json_bytes False document = Inr body"
    using sample_payload by (cases "encode_json_bytes False document") simp_all
  have kind: "worker_kind sample_worker = Ollama" "tool_nesting sample_tools = 900" "reply_status sample_answer = 200"
      "reply_interrupted sample_answer = None"
    by (simp_all add: sample_worker_def sample_tools_def sample_answer_def)
  show thesis
    by (rule that [of body])
      (simp_all add: start_infer_def worker_infer_def document establish_capacity_def dispatch_timeout_def
        context_availability_def ollama_context_def kind sample_context submit_def sample_ordering body call_server_def
        sample_document sample_accepted plausible_def
        bind_p_def try_except_def)
qed

subsection \<open>Properties\<close>

text \<open>
  C17: An inference submits the request at most once, whatever the network and the servers do.  A
  result and an ambiguous outcome mean that it was submitted, and an unavailable worker means
  that no request was submitted, or that the one submitted was turned away: by a connection that
  was never made or by status 404, 429 or 5xx.
\<close>

theorem submission_accounted:
  assumes "play (start_infer tools iw request timeout) rs s = (qs, s', Some x)"
    and "list_all2 plausible qs (take (length qs) rs)"
  shows "length (filter submits qs) \<le> 1 \<and>
    (\<forall>result. x = Inr result \<longrightarrow> length (filter submits qs) = 1) \<and>
    (\<forall>why. x = Inl (WorkerOutcomeAmbiguous why) \<longrightarrow> length (filter submits qs) = 1) \<and>
    (\<forall>why. x = Inl (WorkerUnavailable why) \<longrightarrow> (\<forall>(q, reply) \<in> set (zip qs rs). submits q \<longrightarrow> turned_away reply))"
  using started_run(1) [OF assms]
proof (cases rule: routed_cases)
  case unsent
  have "\<forall>(q, reply) \<in> set (zip qs rs). \<not> submits q"
    using unsent(1) by (simp add: silent_def list_all_iff)
  moreover from this have "filter submits (map fst (zip qs rs)) = []" by (auto simp: filter_empty_conv)
  ultimately show ?thesis
    using unsent(2) unfolding started_run(2) [OF assms] by (auto simp: before_submission_def)
next
  case (sent w l' call reply)
  note once = sent_once [OF started_run(2) [OF assms] sent(1,2,3)]
  have "turned_away reply" if "x = Inl (WorkerUnavailable why)" for why
    using sent(7) that by (simp add: submitted_result_def)
  then show ?thesis using once by auto
qed

lemma submission_accounted_witness:
  "\<exists>body. length (filter submits [Call_Server (completion_call sample_worker 300 300 body)]) = 1"
  by (rule sample_play, drule (1) submission_accounted) blast

text \<open>
  C18: A request is only sent to a worker whose context capacity for the task is known from its
  own answers before the request, and to the fallback only when the primary has answered that it
  has no model resident.
\<close>

theorem capacity_before_submission:
  assumes "play (start_infer tools iw request timeout) rs s = (qs, s', Some x)"
    and "list_all2 plausible qs (take (length qs) rs)"
    and "zip qs rs = before @ (Call_Server call, reply) # after" and "submits (Call_Server call)"
  shows "\<exists>w. call_base call = base_url w \<and> worker_for tools iw (task_of request) w before \<and>
    capacity_known tools w (required_context_tokens (Some (task_of request))) before"
  using started_run(1) [OF assms(1,2)]
proof (cases rule: routed_cases)
  case unsent
  then have "silent (before @ (Call_Server call, reply) # after)" using assms(3) by simp
  then show ?thesis using assms(4) by simp
next
  case (sent w l' call' reply')
  then show ?thesis
    using sent_once(3) [OF started_run(2) [OF assms(1,2)] sent(1,2,3) assms(3,4)] by auto
qed

lemma capacity_before_submission_witness:
  "\<exists>body w. base_url sample_worker = base_url w \<and>
    worker_for sample_tools (Single sample_worker) (task_of sample_request) w [] \<and>
    capacity_known sample_tools w (required_context_tokens (Some (task_of sample_request))) []"
  by (rule sample_play, drule (1) capacity_before_submission [where before = "[]" and after = "[]"])
    (auto simp: completion_call_def)

text \<open>
  C19: A result of an inference is text of at most 750000 bytes that an answer of the server
  carries and that reads as one JSON object with exact numbers, which conforms to the schema of
  the request.
\<close>

theorem accepted_output:
  assumes "play (start_infer tools iw request timeout) rs s = (qs, s', Some (Inr result))"
    and "list_all2 plausible qs (take (length qs) rs)"
  shows "media_type result = py ''application/json'' \<and>
    (\<exists>encoded ob. utf8_encode (content result) = Inr encoded \<and> length encoded \<le> MAX_OUTPUT_CONTENT_BYTES \<and>
      json_loads exact_hooks (tool_nesting tools) encoded = Inr (JObj ob) \<and> exact_json (JObj ob) \<and>
      tool_conforms tools (normalize_json_numbers (JObj (response_schema (generation request)))) (JObj ob))"
  using started_run(1) [OF assms]
proof (cases rule: routed_cases)
  case unsent
  then show ?thesis by (simp add: before_submission_def)
next
  case (sent w l' call reply)
  then obtain document where "validated_result tools request document = Inr result"
    by (auto simp: submitted_result_def)
  from validated_output [OF this] show ?thesis .
qed

lemma accepted_output_witness:
  "\<exists>encoded ob. utf8_encode (py ''{}'') = Inr encoded \<and> length encoded \<le> MAX_OUTPUT_CONTENT_BYTES \<and>
    json_loads exact_hooks (tool_nesting sample_tools) encoded = Inr (JObj ob)"
  by (rule sample_play, drule (1) accepted_output) auto

end
