(* ===== verification/Gateway_Deployment.thy ===== *)
theory Gateway_Deployment
  imports Service_Properties Worker_Properties
begin

text \<open>
  The gateway as a whole: the threads of the service in app.py, with every call of the worker
  carried out by a program that talks to the inference servers while the other threads go on.
  A worker keeps no state between calls; a restart cuts off the programs that run.
\<close>

subsection \<open>The system with its workers\<close>

type_synonym worker_run = "worker_result worker_program \<times> history"

record deployment =
  site :: system
  runs :: "nat \<Rightarrow> worker_run option"
  taken :: "pystr \<Rightarrow> nat"

text \<open>
  A submission the server did not turn away; one whose reply is still out may be taken as well.
\<close>

definition accepting :: "worker_question \<times> worker_reply \<Rightarrow> bool" where
  "accepting qr = (submits (fst qr) \<and> \<not> turned_away (snd qr))"

fun maybe_taken :: "worker_run \<Rightarrow> nat" where
  "maybe_taken (p, l) = length (filter accepting l) +
    (case p of Ask q _ \<Rightarrow> if submits q then 1 else 0 | _ \<Rightarrow> 0)"

definition taken_by_runs :: "deployment \<Rightarrow> pystr \<Rightarrow> nat" where
  "taken_by_runs d rid = (\<Sum>i<length (threads (site d)).
     if in_flight_for rid (threads (site d) ! i) then (case runs d i of None \<Rightarrow> 0 | Some run \<Rightarrow> maybe_taken run) else 0)"

text \<open>
  The steps: the service does anything but answer a call of the worker or touch a thread whose
  call runs; a call starts its program; the program gets a plausible reply, or moves on by itself;
  it ends and its result answers the call; the process restarts.
\<close>

inductive deployed_step ::
    "service \<Rightarrow> (inference_request \<Rightarrow> rat \<Rightarrow> worker_result worker_program) \<Rightarrow> deployment \<Rightarrow> deployment \<Rightarrow> bool"
  for srv work where
  elsewhere: "system_step srv (site d) s \<Longrightarrow> answered s = answered (site d) \<Longrightarrow>
    (\<And>i. runs d i \<noteq> None \<Longrightarrow> i < length (threads s) \<and> threads s ! i = threads (site d) ! i) \<Longrightarrow>
    deployed_step srv work d (d\<lparr>site := s\<rparr>)"
| dispatch: "i < length (threads (site d)) \<Longrightarrow> threads (site d) ! i = Ask (Call_Worker request timeout) k \<Longrightarrow>
    runs d i = None \<Longrightarrow> deployed_step srv work d (d\<lparr>runs := (runs d)(i \<mapsto> (work request timeout, []))\<rparr>)"
| exchange: "runs d i = Some (Ask q k, l) \<Longrightarrow> plausible q r \<Longrightarrow>
    deployed_step srv work d (d\<lparr>runs := (runs d)(i \<mapsto> (k r, l @ [(q, r)]))\<rparr>)"
| internal: "runs d i = Some (Change u k, l) \<Longrightarrow> deployed_step srv work d (d\<lparr>runs := (runs d)(i \<mapsto> (k (), l))\<rparr>)"
| return: "runs d i = Some (Finish x, l) \<Longrightarrow> threads (site d) ! i = Ask (Call_Worker request timeout) k \<Longrightarrow>
    deployed_step srv work d (d\<lparr>
      site := count_answer (Call_Worker request timeout) (Answer x) ((site d)\<lparr>threads := (threads (site d))[i := k (Answer x)]\<rparr>),
      runs := (runs d)(i := None),
      taken := (taken d)(request_id request := taken d (request_id request) + maybe_taken (Finish x, l))\<rparr>)"
| crash: "clock_ok (the_store srv) now \<Longrightarrow>
    deployed_step srv work d (d\<lparr>site := restarted srv now (site d), runs := (\<lambda>_. None),
      taken := (\<lambda>rid. taken d rid + taken_by_runs d rid)\<rparr>)"

definition first_deployment :: "request_table \<Rightarrow> deployment" where
  "first_deployment t = \<lparr>site = first_system t, runs = (\<lambda>_. None), taken = (\<lambda>_. 0)\<rparr>"

definition deployed :: "service \<Rightarrow> (inference_request \<Rightarrow> rat \<Rightarrow> worker_result worker_program) \<Rightarrow> deployment \<Rightarrow> bool" where
  "deployed srv work d = (\<exists>t. table_ok t \<and> (deployed_step srv work)\<^sup>*\<^sup>* (first_deployment t) d)"

subsection \<open>What the service relies on\<close>

text \<open>
  The promise behind the protocol \<open>InferenceWorker\<close>: one call submits at most once, and
  \<open>WorkerUnavailable\<close> means that nothing was taken.
\<close>

definition accounted :: "worker_result result \<Rightarrow> history \<Rightarrow> bool" where
  "accounted x l = (length (filter (submits \<circ> fst) l) \<le> 1 \<and>
     (\<forall>why. x = Inl (WorkerUnavailable why) \<longrightarrow> filter accepting l = []))"

lemma accepting_le: "length (filter accepting l) \<le> length (filter (submits \<circ> fst) l)"
  by (rule length_filter_mono) (simp add: accepting_def)

text \<open>Every run can be completed, whatever was asked before.\<close>

lemma completion:
  assumes "always p Q l"
  shows "\<exists>x m. Q x (l @ m) \<and> (\<forall>q k. p = Ask q k \<longrightarrow> (\<exists>r m'. m = (q, r) # m'))"
  using assms
proof (induction p arbitrary: l)
  case (Finish x)
  then have "Q x (l @ [])" by simp
  then show ?case by blast
next
  case (Ask q k)
  obtain r where r: "plausible q r"
  proof (cases q)
    case (Call_Server call)
    then show thesis using that [of "Served (Inl TimeoutError)"] by (simp add: plausible_def)
  next
    case Read_Monotonic
    then show thesis using that [of "Monotonic 0"] by (simp add: plausible_def)
  qed
  then have "always (k r) Q (l @ [(q, r)])" using Ask.prems by simp
  from Ask.IH [OF _ this] obtain x m where "Q x ((l @ [(q, r)]) @ m)" by blast
  then show ?case by (intro exI [of _ x] exI [of _ "(q, r) # m"]) simp
next
  case (Change u k)
  then have "always (k ()) Q l" by simp
  from Change.IH [OF _ this] obtain x m where "Q x (l @ m)" by blast
  then show ?case by blast
qed

lemma maybe_taken_le: "always p accounted l \<Longrightarrow> maybe_taken (p, l) \<le> 1"
proof -
  assume "always p accounted l"
  from completion [OF this] obtain x m where
    acc: "accounted x (l @ m)" and asked: "\<forall>q k. p = Ask q k \<longrightarrow> (\<exists>r m'. m = (q, r) # m')" by blast
  have one: "length (filter (submits \<circ> fst) l) + length (filter (submits \<circ> fst) m) \<le> 1"
    using acc by (simp add: accounted_def)
  have "(case p of Ask q _ \<Rightarrow> if submits q then 1 else 0 | _ \<Rightarrow> 0) \<le> length (filter (submits \<circ> fst) m)"
    using asked by (cases p) auto
  then show ?thesis using one accepting_le [of l] by simp
qed

subsection \<open>Steps of the service\<close>

lemma refused_unchanged:
  "system_step srv s s' \<Longrightarrow> answered s' = answered s \<Longrightarrow> refused s' = refused s"
proof (induction rule: system_step.induct)
  case (ask i s q k r)
  then show ?case by (auto simp: count_answer_def bump_def fun_eq_iff split: service_question.splits if_splits)
qed (auto simp: count_admission_def restarted_def count_interrupted_def)

lemma taken_by_runs_le:
  assumes "\<And>i p l. runs d i = Some (p, l) \<Longrightarrow> maybe_taken (p, l) \<le> 1"
  shows "taken_by_runs d rid \<le> length (filter (in_flight_for rid) (threads (site d)))"
proof -
  have "taken_by_runs d rid \<le> (\<Sum>i<length (threads (site d)). if in_flight_for rid (threads (site d) ! i) then 1 else 0)"
    unfolding taken_by_runs_def using assms by (intro sum_mono) (auto split: option.split)
  also have "\<dots> = length (filter (in_flight_for rid) (threads (site d)))"
    by (simp add: length_filter_conv_card sum.If_cases lessThan_def Int_def)
  finally show ?thesis .
qed

text \<open>The programs that run belong to threads that wait for them, and keep the contract.\<close>

definition run_ok :: "deployment \<Rightarrow> nat \<Rightarrow> worker_run \<Rightarrow> bool" where
  "run_ok d i run = (i < length (threads (site d)) \<and>
     (\<exists>request timeout k. threads (site d) ! i = Ask (Call_Worker request timeout) k) \<and>
     always (fst run) accounted (snd run))"

definition deployment_ok :: "deployment \<Rightarrow> bool" where
  "deployment_ok d = ((\<forall>i run. runs d i = Some run \<longrightarrow> run_ok d i run) \<and>
     (\<forall>rid. taken d rid + refused (site d) rid \<le> answered (site d) rid))"

locale inference_worker_protocol =
  fixes work :: "inference_request \<Rightarrow> rat \<Rightarrow> worker_result worker_program"
  assumes work_accounted: "always (work request timeout) accounted []"
begin

lemma step_ok:
  assumes "deployed_step srv work d d'" "deployment_ok d"
  shows "deployment_ok d'"
  using assms
proof (induction rule: deployed_step.induct)
  case (elsewhere d s)
  then show ?case using refused_unchanged [OF elsewhere(1,2)]
    by (auto simp: deployment_ok_def run_ok_def)
next
  case (dispatch i d request timeout k)
  then show ?case using work_accounted by (auto simp: deployment_ok_def run_ok_def)
next
  case (exchange d i q k l r)
  then have ok: "run_ok d i (Ask q k, l)" by (auto simp: deployment_ok_def)
  then have "always (k r) accounted (l @ [(q, r)])" using exchange(2) by (simp add: run_ok_def)
  then show ?case using exchange ok by (auto simp: deployment_ok_def run_ok_def)
next
  case (internal d i u k l)
  then have ok: "run_ok d i (Change u k, l)" by (auto simp: deployment_ok_def)
  then have "always (k ()) accounted l" by (simp add: run_ok_def)
  then show ?case using internal ok by (auto simp: deployment_ok_def run_ok_def)
next
  case (return d i x l request timeout k)
  then have ok: "run_ok d i (Finish x, l)" by (auto simp: deployment_ok_def)
  then have acc: "accounted x l" by (simp add: run_ok_def)
  have one: "maybe_taken (Finish x, l) \<le> 1" by (rule maybe_taken_le) (use acc in simp)
  have none: "maybe_taken (Finish x, l) = 0" if "is_refusal (Answer x)"
    using that acc by (auto simp: is_refusal_def accounted_def split: sum.splits exn.splits)
  have "taken d rid + refused (site d) rid \<le> answered (site d) rid" for rid
    using return by (simp add: deployment_ok_def)
  note bound = this
  have "taken d (request_id request) + maybe_taken (Finish x, l) + refused (site d) (request_id request) +
      (if is_refusal (Answer x) then 1 else 0) \<le> Suc (answered (site d) (request_id request))"
    using bound [of "request_id request"] one none by auto
  then show ?case
    using return(3) bound by (auto simp: deployment_ok_def run_ok_def count_answer_def bump_def)
next
  case (crash now d)
  have "maybe_taken (p, l) \<le> 1" if "runs d i = Some (p, l)" for i p l
    using that crash by (intro maybe_taken_le) (auto simp: deployment_ok_def run_ok_def)
  then have runs: "taken_by_runs d rid \<le> length (filter (in_flight_for rid) (threads (site d)))" for rid
    by (rule taken_by_runs_le)
  have made: "taken d rid + refused (site d) rid \<le> answered (site d) rid" for rid
    using crash by (simp add: deployment_ok_def)
  have "taken d rid + taken_by_runs d rid + refused (site d) rid \<le>
      answered (site d) rid + length (filter (in_flight_for rid) (threads (site d)))" for rid
    using runs [of rid] made [of rid] by linarith
  then show ?case
    by (auto simp: deployment_ok_def restarted_def count_admission_def count_interrupted_def)
qed

lemma deployed_ok: "deployed srv work d \<Longrightarrow> deployment_ok d"
proof -
  assume "deployed srv work d"
  then obtain t where "(deployed_step srv work)\<^sup>*\<^sup>* (first_deployment t) d" by (auto simp: deployed_def)
  then show ?thesis
  proof (induction rule: rtranclp_induct)
    case base
    then show ?case by (simp add: deployment_ok_def first_deployment_def first_system_def)
  next
    case (step d d')
    then show ?case using step_ok by blast
  qed
qed

lemma step_reachable:
  assumes "deployed_step srv work d d'" "deployment_ok d" "reachable srv (site d)"
  shows "reachable srv (site d')"
  using assms
proof (induction rule: deployed_step.induct)
  case (elsewhere d s)
  then show ?case using reachable_step by simp
next
  case (return d i x l request timeout k)
  then have "i < length (threads (site d))" by (auto simp: deployment_ok_def run_ok_def)
  then have "system_step srv (site d) (count_answer (Call_Worker request timeout) (Answer x)
      ((site d)\<lparr>threads := (threads (site d))[i := k (Answer x)]\<rparr>))"
    by (rule system_step.ask) (use return in \<open>simp_all add: reply_ok_def kind_ok_def\<close>)
  then show ?case using return reachable_step by simp
next
  case (crash now d)
  then show ?case using reachable_step [OF _ system_step.restart] by simp
qed simp_all

lemma deployed_reachable: "deployed srv work d \<Longrightarrow> reachable srv (site d)"
proof -
  assume "deployed srv work d"
  then obtain t where t: "table_ok t" "(deployed_step srv work)\<^sup>*\<^sup>* (first_deployment t) d"
    by (auto simp: deployed_def)
  from t(2) show ?thesis
  proof (induction rule: rtranclp_induct)
    case base
    then show ?case using t(1) by (auto simp: first_deployment_def reachable_def)
  next
    case (step d d')
    then have "deployed srv work d" using t(1) by (auto simp: deployed_def)
    then show ?case using step step_reachable deployed_ok by blast
  qed
qed

lemma taken_once:
  assumes "deployed srv work d"
  shows "taken d rid + taken_by_runs d rid \<le> admitted (site d) rid"
proof -
  have ok: "deployment_ok d" using assms by (rule deployed_ok)
  have "maybe_taken (p, l) \<le> 1" if "runs d i = Some (p, l)" for i p l
    using that ok by (intro maybe_taken_le) (auto simp: deployment_ok_def run_ok_def)
  then have "taken_by_runs d rid \<le> length (filter (in_flight_for rid) (threads (site d)))"
    by (rule taken_by_runs_le)
  moreover have "taken d rid + refused (site d) rid \<le> answered (site d) rid"
    using ok by (simp add: deployment_ok_def)
  moreover have "answered (site d) rid + length (filter (in_flight_for rid) (threads (site d))) \<le>
      admitted (site d) rid + refused (site d) rid"
    using calls_accounted [OF deployed_reachable [OF assms]] .
  ultimately show ?thesis by linarith
qed

end

subsection \<open>The workers keep the contract\<close>

lemma start_accounted: "always (start_infer tools iw request timeout) accounted []"
proof (rule wp_mono [OF _ start_always])
  fix x l assume "routed_log tools iw request x l"
  then show "accounted x l"
  proof (cases rule: routed_cases)
    case unsent
    then have "list_all (\<lambda>qr. \<not> submits (fst qr)) l" by (simp add: silent_def case_prod_unfold)
    then show ?thesis by (auto simp: accounted_def accepting_def list_all_iff filter_empty_conv)
  next
    case (sent w l' call reply)
    then have "list_all (\<lambda>qr. \<not> submits (fst qr)) l'" by (simp add: silent_def case_prod_unfold)
    then have "filter (submits \<circ> fst) l' = []" "filter accepting l' = []"
      by (auto simp: list_all_iff filter_empty_conv accepting_def)
    then show ?thesis using sent(1,7) by (auto simp: accounted_def accepting_def submitted_result_def)
  qed
qed

interpretation gateway_worker: inference_worker_protocol "start_infer tools iw" for tools iw
  by unfold_locales (rule start_accounted)

subsection \<open>Properties\<close>

text \<open>
  C1: At-most-once execution, end to end.  However requests, duplicates, threads, maintenance,
  restarts and the network interleave, and whatever the inference servers answer, the submissions
  of a request id that a server took, or may have taken when a restart cut the call off or while it
  still runs, are at most the times the id was reserved.
\<close>

theorem at_most_once_execution:
  assumes "deployed srv (start_infer tools iw) d"
  shows "taken d rid + taken_by_runs d rid \<le> admitted (site d) rid"
  using assms by (rule gateway_worker.taken_once)

lemma answered_mono: "system_step srv s s' \<Longrightarrow> answered s rid \<le> answered s' rid"
  by (induction rule: system_step.induct)
    (auto simp: count_answer_def bump_def count_admission_def restarted_def count_interrupted_def split: service_question.split)

text \<open>A system in which no call of the worker has ended is a deployment without runs.\<close>

lemma calm_deployment:
  assumes "reachable srv s" "answered s = (\<lambda>_. 0)"
  shows "deployed srv work \<lparr>site = s, runs = (\<lambda>_. None), taken = (\<lambda>_. 0)\<rparr>"
proof -
  obtain t where t: "table_ok t" "(system_step srv)\<^sup>*\<^sup>* (first_system t) s"
    using assms(1) by (auto simp: reachable_def)
  let ?d = "\<lambda>s. \<lparr>site = s, runs = (\<lambda>_. None), taken = (\<lambda>_. 0)\<rparr>"
  from t(2) assms(2) have "(deployed_step srv work)\<^sup>*\<^sup>* (first_deployment t) (?d s)"
  proof (induction rule: rtranclp_induct)
    case base
    then show ?case by (simp add: first_deployment_def)
  next
    case (step u v)
    have calm: "answered u = (\<lambda>_. 0)"
      using answered_mono [OF step.hyps(2)] step.prems by (auto simp: fun_eq_iff)
    have "deployed_step srv work (?d u) ((?d u)\<lparr>site := v\<rparr>)"
      by (rule deployed_step.elsewhere) (use step.hyps(2) step.prems calm in simp_all)
    then show ?case using step.IH [OF calm] by simp
  qed
  then show ?thesis using t(1) by (auto simp: deployed_def)
qed

text \<open>A run of a worker on a script is a run of it within a deployment.\<close>

lemma play_deployed:
  assumes "play p rs () = (qs, (), Some x)" "list_all2 plausible qs (take (length qs) rs)" "runs d i = Some (p, l)"
  shows "(deployed_step srv work)\<^sup>*\<^sup>* d (d\<lparr>runs := (runs d)(i \<mapsto> (Finish x, l @ zip qs rs))\<rparr>)"
  using assms
proof (induction p arbitrary: rs qs d l)
  case (Finish y)
  then have "d\<lparr>runs := (runs d)(i \<mapsto> (Finish x, l @ zip qs rs))\<rparr> = d" by (simp add: fun_upd_idem)
  then show ?case by (simp only: rtranclp.rtrancl_refl)
next
  case (Ask q k)
  from Ask.prems(1) obtain r rs' qs' where run: "rs = r # rs'" "qs = q # qs'" "play (k r) rs' () = (qs', (), Some x)"
    by (auto split: list.splits prod.splits)
  let ?d = "d\<lparr>runs := (runs d)(i \<mapsto> (k r, l @ [(q, r)]))\<rparr>"
  have "deployed_step srv work d ?d"
    by (rule deployed_step.exchange) (use Ask.prems(2,3) run in auto)
  moreover have "(deployed_step srv work)\<^sup>*\<^sup>* ?d (?d\<lparr>runs := (runs ?d)(i \<mapsto> (Finish x, (l @ [(q, r)]) @ zip qs' rs'))\<rparr>)"
    by (rule Ask.IH [OF _ run(3)]) (use Ask.prems(2) run in auto)
  moreover have "?d\<lparr>runs := (runs ?d)(i \<mapsto> (Finish x, (l @ [(q, r)]) @ zip qs' rs'))\<rparr> =
      d\<lparr>runs := (runs d)(i \<mapsto> (Finish x, l @ zip qs rs))\<rparr>"
    unfolding run by simp
  ultimately show ?case by (metis converse_rtranclp_into_rtranclp)
next
  case (Change u k)
  let ?d = "d\<lparr>runs := (runs d)(i \<mapsto> (k (), l))\<rparr>"
  have "deployed_step srv work d ?d" by (rule deployed_step.internal) (rule Change.prems(3))
  moreover have "(deployed_step srv work)\<^sup>*\<^sup>* ?d (?d\<lparr>runs := (runs ?d)(i \<mapsto> (Finish x, l @ zip qs rs))\<rparr>)"
    by (rule Change.IH) (use Change.prems in auto)
  moreover have "?d\<lparr>runs := (runs ?d)(i \<mapsto> (Finish x, l @ zip qs rs))\<rparr> =
      d\<lparr>runs := (runs d)(i \<mapsto> (Finish x, l @ zip qs rs))\<rparr>"
    by simp
  ultimately show ?case by (metis converse_rtranclp_into_rtranclp)
qed

theorem at_most_once_execution_witness:
  "\<exists>d. taken_by_runs d sample_id = 1 \<and> taken d sample_id + taken_by_runs d sample_id \<le> admitted (site d) sample_id"
proof -
  let ?work = "start_infer sample_tools (Single sample_worker)"
  obtain s k where s: "reachable sample_service s" "threads s = [Ask (Call_Worker sample_request 300) k]"
      "answered s = (\<lambda>_. 0)"
    using dispatched_system by blast
  let ?d0 = "\<lparr>site = s, runs = (\<lambda>_. None), taken = (\<lambda>_. 0)\<rparr>" and ?rs = "[Served (Inr sample_answer)]"
  obtain q x where play: "play (?work sample_request 300) ?rs () = ([q], (), Some x)"
      "list_all2 plausible [q] (take (length [q]) ?rs)" "submits q"
    by (rule sample_play) auto
  let ?d1 = "?d0\<lparr>runs := (runs ?d0)(0 \<mapsto> (?work sample_request 300, []))\<rparr>"
  let ?d2 = "?d1\<lparr>runs := (runs ?d1)(0 \<mapsto> (Finish x, [] @ zip [q] ?rs))\<rparr>"
  have "deployed sample_service ?work ?d0" by (rule calm_deployment [OF s(1,3)])
  moreover have "deployed_step sample_service ?work ?d0 ?d1"
    by (rule deployed_step.dispatch [of 0 _ sample_request 300 k]) (simp_all add: s(2))
  moreover have "(deployed_step sample_service ?work)\<^sup>*\<^sup>* ?d1 ?d2" by (rule play_deployed [OF play(1,2)]) simp
  ultimately have d2: "deployed sample_service ?work ?d2"
    unfolding deployed_def by (meson rtranclp.rtrancl_into_rtrancl rtranclp_trans)
  have "\<not> turned_away (Served (Inr sample_answer))" by (simp add: turned_away_def sample_answer_def)
  then have "taken_by_runs ?d2 sample_id = 1"
    using play(3) s(2) sample_timely by (simp add: taken_by_runs_def in_flight_for_def accepting_def)
  with at_most_once_execution [OF d2, of sample_id] show ?thesis by blast
qed

end
