(* ===== verification/Private_Files.thy ===== *)
theory Private_Files
  imports Gateway_Config Json_Parse Result_Cipher
begin

unbundle bit_operations_syntax

text \<open>
  config.py and store.py: the files the gateway reads when it starts, over a host that opens
  them.  Opening follows no symbolic link (\<open>O_NOFOLLOW\<close>), so the file that is checked by
  \<open>fstat\<close> is the file that is read.
\<close>

lemma map_sum_eq_Inr: "map_sum f g m = Inr y \<longleftrightarrow> (\<exists>x. m = Inr x \<and> y = g x)"
  by (cases m) auto

subsection \<open>The host\<close>

text \<open>What \<open>fstat\<close> says of an open descriptor, and all that a read to the end would return.\<close>

record opened_file =
  regular_file :: bool
  file_mode :: nat
  file_size :: int
  file_bytes :: "nat list result"

text \<open>
  \<open>posix\<close> is \<open>os.name == "posix"\<close>; \<open>host_float\<close> is \<open>float\<close> on the text of a JSON number or
  constant, of which the readers only see that it is a float.
\<close>

record host =
  posix :: bool
  open_file :: "pystr \<Rightarrow> opened_file result"
  host_nesting :: nat
  host_float :: "pystr \<Rightarrow> decimal"

definition read_upto :: "nat \<Rightarrow> opened_file \<Rightarrow> nat list result" where
  "read_upto n f = map_sum id (take n) (file_bytes f)"

text \<open>\<open>os.name == "posix" and stat.S_IMODE(mode) & mask\<close>\<close>

definition mode_forbids :: "host \<Rightarrow> nat \<Rightarrow> opened_file \<Rightarrow> bool" where
  "mode_forbids host bits f = (posix host \<and> file_mode f AND bits \<noteq> 0)"

definition GROUP_OTHER_ALL :: nat where "GROUP_OTHER_ALL = 63"
definition GROUP_OTHER_WRITE :: nat where "GROUP_OTHER_WRITE = 18"

definition sized_within :: "int \<Rightarrow> opened_file \<Rightarrow> bool" where
  "sized_within limit f = (regular_file f \<and> 0 < file_size f \<and> file_size f \<le> limit)"

fun is_configuration_error :: "exn \<Rightarrow> bool" where
  "is_configuration_error (ConfigurationError _) = True"
| "is_configuration_error _ = False"

subsection \<open>config.py: JSON files\<close>

definition MAX_CONFIG_BYTES :: nat where "MAX_CONFIG_BYTES = 131072"
definition MAX_TLS_FILE_BYTES :: int where "MAX_TLS_FILE_BYTES = 1048576"
definition MAX_PRIVATE_TOKEN_BYTES :: nat where "MAX_PRIVATE_TOKEN_BYTES = 16384"

text \<open>\<open>json.loads\<close> without hooks: a repeated key keeps its place and takes the later value.\<close>

definition dict_insert :: "pystr \<times> json \<Rightarrow> jobj \<Rightarrow> jobj" where
  "dict_insert kv ob =
    (if map_of ob (fst kv) = None then ob @ [kv] else map (\<lambda>(k, v). if k = fst kv then kv else (k, v)) ob)"

definition plain_integer :: "pystr \<Rightarrow> json result" where
  "plain_integer value =
    (case read_sign value of (neg, t) \<Rightarrow>
      if t = [] \<or> \<not> list_all is_digit t \<or> MAX_INT_DIGITS < length t
      then Inl (ValueError ''invalid literal for int()'')
      else let n = int (from_digits (text_digits t)) in Inr (JInt (if neg then - n else n)))"

definition plain_hooks :: "host \<Rightarrow> json_hooks" where
  "plain_hooks host =
    \<lparr>parse_float = (\<lambda>t. Inr (JFloat (host_float host t))),
     parse_int = plain_integer,
     parse_constant = (\<lambda>w. Inr (JFloat (host_float host (py w)))),
     object_pairs_hook = (\<lambda>ps. Inr (fold dict_insert ps []))\<rparr>"

definition config_fault :: "string \<Rightarrow> string \<Rightarrow> exn" where
  "config_fault label message = ConfigurationError (label @ message)"

definition private_document :: "host \<Rightarrow> pystr \<Rightarrow> string \<Rightarrow> json result" where
  "private_document host path label =
    bind_res (open_file host path) (\<lambda>f.
    bind_res (check (sized_within (int MAX_CONFIG_BYTES) f) (config_fault label '' file is invalid'')) (\<lambda>_.
    bind_res (check (\<not> mode_forbids host GROUP_OTHER_ALL f) (config_fault label '' file must be owner-private'')) (\<lambda>_.
    bind_res (read_upto (MAX_CONFIG_BYTES + 1) f) (\<lambda>encoded.
    bind_res (check (encoded \<noteq> [] \<and> length encoded \<le> MAX_CONFIG_BYTES) (config_fault label '' file is invalid'')) (\<lambda>_.
    json_loads (plain_hooks host) (host_nesting host) encoded)))))"

definition read_private_json :: "host \<Rightarrow> pystr \<Rightarrow> string \<Rightarrow> jobj result" where
  "read_private_json host path label =
    bind_res (map_sum (\<lambda>e.
        if e = OSError \<or> is_value_error e \<or> e = RecursionError
        then config_fault label '' file is unavailable or invalid'' else e) id (private_document host path label)) (\<lambda>document.
    case document of
      JObj ob \<Rightarrow> Inr ob
    | _ \<Rightarrow> Inl (config_fault label '' file must contain a JSON object''))"

definition credentials_from_file :: "host \<Rightarrow> (nat list \<Rightarrow> pystr) \<Rightarrow> pystr \<Rightarrow> credential list result" where
  "credentials_from_file host sha256_hex path =
    bind_res (read_private_json host path ''credential'') (credentials_of_document sha256_hex)"

subsection \<open>config.py: token and TLS files\<close>

definition token_bytes :: "host \<Rightarrow> pystr \<Rightarrow> string \<Rightarrow> nat list result" where
  "token_bytes host path label =
    bind_res (open_file host path) (\<lambda>f.
    bind_res (check (sized_within (int MAX_PRIVATE_TOKEN_BYTES) f \<and> \<not> mode_forbids host GROUP_OTHER_ALL f)
      (config_fault label '' token file must be owner-private'')) (\<lambda>_.
    read_upto (MAX_PRIVATE_TOKEN_BYTES + 1) f))"

definition read_private_token :: "host \<Rightarrow> pystr \<Rightarrow> string \<Rightarrow> pystr result" where
  "read_private_token host path label =
    bind_res (map_sum (\<lambda>e. if e = OSError then config_fault label '' token file is unavailable'' else e) id
      (token_bytes host path label)) (\<lambda>encoded.
    bind_res (check (is_ascii_text encoded) (config_fault label '' token is invalid'')) (\<lambda>_.
    bind_res (check (token_ok (strip encoded)) (config_fault label '' token is invalid'')) (\<lambda>_.
    Inr (strip encoded))))"

definition validate_tls_file :: "host \<Rightarrow> pystr \<Rightarrow> string \<Rightarrow> bool \<Rightarrow> unit result" where
  "validate_tls_file host path label owner_private =
    map_sum (\<lambda>e. if e = OSError then config_fault label '' file is unavailable or invalid'' else e) id
      (bind_res (open_file host path) (\<lambda>f.
       bind_res (check (sized_within MAX_TLS_FILE_BYTES f) (config_fault label '' file is invalid'')) (\<lambda>_.
       check (\<not> (owner_private \<and> mode_forbids host GROUP_OTHER_ALL f \<or>
                 \<not> owner_private \<and> mode_forbids host GROUP_OTHER_WRITE f))
         (config_fault label (if owner_private then '' file must be owner-private''
            else '' file must be not group/world-writable'')))))"

subsection \<open>store.py: the key file\<close>

text \<open>\<open>bytes.strip\<close> drops the six ASCII white space bytes.\<close>

definition is_byte_space :: "nat \<Rightarrow> bool" where
  "is_byte_space c = (c \<in> set [9, 10, 11, 12, 13, 32])"

definition strip_bytes :: "nat list \<Rightarrow> nat list" where
  "strip_bytes s = rev (dropWhile is_byte_space (rev (dropWhile is_byte_space s)))"

text \<open>
  \<open>base64.b64decode(encoded, altchars=b"-_", validate=True)\<close>: both alphabets, then the padding
  that completes the last quad; after a complete quad any padding passes.
\<close>

definition base64_digit :: "nat \<Rightarrow> nat option" where
  "base64_digit c =
    (if 65 \<le> c \<and> c \<le> 90 then Some (c - 65)
     else if 97 \<le> c \<and> c \<le> 122 then Some (c - 71)
     else if 48 \<le> c \<and> c \<le> 57 then Some (c + 4)
     else if c = 43 \<or> c = 45 then Some 62
     else if c = 47 \<or> c = 95 then Some 63
     else None)"

fun base64_groups :: "nat list \<Rightarrow> nat list" where
  "base64_groups (a # b # c # d # ds) =
    [a * 4 + b div 16, b mod 16 * 16 + c div 4, c mod 4 * 64 + d] @ base64_groups ds"
| "base64_groups [a, b, c] = [a * 4 + b div 16, b mod 16 * 16 + c div 4]"
| "base64_groups [a, b] = [a * 4 + b div 16]"
| "base64_groups _ = []"

definition base64_decode :: "nat list \<Rightarrow> nat list option" where
  "base64_decode encoded =
    (let digits = takeWhile (\<lambda>c. base64_digit c \<noteq> None) encoded; padding = drop (length digits) encoded
     in if list_all (\<lambda>c. c = 61) padding \<and>
           (if length digits mod 4 = 0 then digits \<noteq> [] \<or> padding = []
            else length digits mod 4 \<noteq> 1 \<and> length padding = 4 - length digits mod 4)
        then Some (base64_groups (List.map_filter base64_digit digits)) else None)"

definition key_bytes :: "host \<Rightarrow> pystr \<Rightarrow> nat list result" where
  "key_bytes host path =
    bind_res (open_file host path) (\<lambda>f.
    bind_res (check (sized_within 128 f) (StoreFault ''encryption key file is invalid'')) (\<lambda>_.
    bind_res (check (\<not> mode_forbids host GROUP_OTHER_ALL f) (StoreFault ''encryption key file must be owner-private'')) (\<lambda>_.
    bind_res (read_upto 129 f) (\<lambda>encoded. Inr (strip_bytes encoded)))))"

definition key_from_file :: "host \<Rightarrow> pystr \<Rightarrow> nat list result" where
  "key_from_file host path =
    bind_res (map_sum (\<lambda>e. if e = OSError then StoreFault ''encryption key file is unavailable'' else e) id
      (key_bytes host path)) (\<lambda>encoded.
    bind_res (case base64_decode encoded of
        None \<Rightarrow> Inl (StoreFault ''encryption key file is invalid'') | Some key \<Rightarrow> Inr key) (\<lambda>key.
    bind_res (check_key key) (\<lambda>_. Inr key)))"

end
