(* ===== verification/Py_Url.thy ===== *)
theory Py_Url
  imports Py_Lines Json_Parse
begin

text \<open>
  The parts of Python's \<open>ipaddress\<close> and \<open>urllib.parse\<close> that the settings use, as of Python
  3.12.  Later releases refuse some more malformed brackets and count IPv4-mapped loopback
  addresses as loopback.
\<close>

subsection \<open>Text\<close>

fun split_on :: "nat \<Rightarrow> pystr \<Rightarrow> pystr list" where
  "split_on c [] = [[]]"
| "split_on c (x # xs) = (if x = c then [] # split_on c xs else (x # hd (split_on c xs)) # tl (split_on c xs))"

fun join_with :: "nat \<Rightarrow> pystr list \<Rightarrow> pystr" where
  "join_with c [] = []"
| "join_with c [p] = p"
| "join_with c (p # ps) = p @ [c] @ join_with c ps"

text \<open>\<open>s.partition(c)\<close> without the separator.\<close>

definition before :: "nat \<Rightarrow> pystr \<Rightarrow> pystr" where
  "before c s = takeWhile (\<lambda>x. x \<noteq> c) s"

definition after :: "nat \<Rightarrow> pystr \<Rightarrow> pystr" where
  "after c s = drop (Suc (length (before c s))) s"

text \<open>What follows the last \<open>c\<close>, or all of it.\<close>

definition after_last :: "nat \<Rightarrow> pystr \<Rightarrow> pystr" where
  "after_last c s = rev (before c (rev s))"

definition ascii_lower :: "nat \<Rightarrow> nat" where
  "ascii_lower c = (if 65 \<le> c \<and> c \<le> 90 then c + 32 else c)"

subsection \<open>Addresses\<close>

datatype ip_address = V4 nat | V6 nat "pystr option"

definition parse_octet :: "pystr \<Rightarrow> nat option" where
  "parse_octet s =
    (if ascii_digits s \<and> length s \<le> 3 \<and> (s = [48] \<or> hd s \<noteq> 48)
     then let n = from_digits (text_digits s) in if n \<le> 255 then Some n else None
     else None)"

definition ipv4_value :: "pystr \<Rightarrow> nat option" where
  "ipv4_value s =
    (case map parse_octet (split_on 46 s) of
       [Some a, Some b, Some c, Some d] \<Rightarrow> Some (((a * 256 + b) * 256 + c) * 256 + d)
     | _ \<Rightarrow> None)"

fun hex_digits :: "pystr \<Rightarrow> nat option" where
  "hex_digits s = (if s = [] then None else map_option (foldl (\<lambda>a d. a * 16 + d) 0) (those (map hex_digit s)))"

definition parse_hextet :: "pystr \<Rightarrow> nat option" where
  "parse_hextet s = (if length s \<le> 4 then hex_digits s else None)"

fun hex_text :: "nat \<Rightarrow> pystr" where
  "hex_text n = (if n < 16 then [hex_char n] else hex_text (n div 16) @ [hex_char (n mod 16)])"

declare hex_text.simps [simp del]

text \<open>An IPv4 suffix counts as two parts.\<close>

definition ipv6_parts :: "pystr \<Rightarrow> pystr list option" where
  "ipv6_parts s =
    (let parts = split_on 58 s
     in if length parts < 3 then None
        else if 46 \<notin> set (last parts) then Some parts
        else map_option (\<lambda>v. butlast parts @ [hex_text (v div 65536), hex_text (v mod 65536)]) (ipv4_value (last parts)))"

definition hextets_of_parts :: "pystr list \<Rightarrow> nat list option" where
  "hextets_of_parts parts =
    (let n = length parts
     in if 9 < n then None
        else case filter (\<lambda>i. parts ! i = []) [1..<n - 1] of
          [] \<Rightarrow> if n \<noteq> 8 then None else those (map parse_hextet parts)
        | [skip] \<Rightarrow>
            let hi = (if hd parts = [] then skip - 1 else skip);
                lo = (if last parts = [] then n - skip - 2 else n - skip - 1)
            in if hd parts = [] \<and> hi \<noteq> 0 \<or> last parts = [] \<and> lo \<noteq> 0 \<or> 7 < hi + lo then None
               else (case (those (map parse_hextet (take hi parts)), those (map parse_hextet (drop (n - lo) parts))) of
                   (Some a, Some b) \<Rightarrow> Some (a @ replicate (8 - (hi + lo)) 0 @ b)
                 | _ \<Rightarrow> None)
        | _ \<Rightarrow> None)"

definition ipv6_of :: "pystr \<Rightarrow> ip_address option" where
  "ipv6_of s =
    (let scope = after 37 s
     in if 47 \<in> set s \<or> 37 \<in> set s \<and> (scope = [] \<or> 37 \<in> set scope) then None
        else case ipv6_parts (before 37 s) of
          None \<Rightarrow> None
        | Some parts \<Rightarrow> map_option
            (\<lambda>hs. V6 (foldl (\<lambda>a h. a * 65536 + h) 0 hs) (if 37 \<in> set s then Some scope else None))
            (hextets_of_parts parts))"

definition ip_address_of :: "pystr \<Rightarrow> ip_address option" where
  "ip_address_of s = (case ipv4_value s of Some v \<Rightarrow> Some (V4 v) | None \<Rightarrow> ipv6_of s)"

subsection \<open>Networks\<close>

datatype ip_network = Net4 nat nat | Net6 nat nat

fun in_network :: "ip_address \<Rightarrow> ip_network \<Rightarrow> bool" where
  "in_network (V4 v) (Net4 base len) = (v div 2 ^ (32 - len) = base div 2 ^ (32 - len))"
| "in_network (V6 v _) (Net6 base len) = (v div 2 ^ (128 - len) = base div 2 ^ (128 - len))"
| "in_network _ _ = False"

text \<open>The first 16 bits of an IPv6 prefix, and the octets of an IPv4 prefix.\<close>

definition prefix6 :: "nat \<Rightarrow> nat \<Rightarrow> ip_network" where
  "prefix6 hextet len = Net6 (hextet * 2 ^ 112) len"

definition prefix4 :: "nat \<Rightarrow> nat \<Rightarrow> nat \<Rightarrow> ip_network" where
  "prefix4 a b len = Net4 ((a * 256 + b) * 65536) len"

fun is_loopback :: "ip_address \<Rightarrow> bool" where
  "is_loopback (V4 v) = in_network (V4 v) (prefix4 127 0 8)"
| "is_loopback (V6 v _) = (v = 1)"

fun is_unspecified :: "ip_address \<Rightarrow> bool" where
  "is_unspecified (V4 v) = (v = 0)"
| "is_unspecified (V6 v _) = (v = 0)"

definition is_multicast :: "ip_address \<Rightarrow> bool" where
  "is_multicast a = list_ex (in_network a) [prefix4 224 0 4, prefix6 0xff00 8]"

definition is_link_local :: "ip_address \<Rightarrow> bool" where
  "is_link_local a = list_ex (in_network a) [prefix4 169 254 16, prefix6 0xfe80 10]"

definition is_reserved :: "ip_address \<Rightarrow> bool" where
  "is_reserved a = list_ex (in_network a)
    [prefix4 240 0 4, prefix6 0 8, prefix6 0x100 8, prefix6 0x200 7, prefix6 0x400 6, prefix6 0x800 5,
     prefix6 0x1000 4, prefix6 0x4000 3, prefix6 0x6000 3, prefix6 0x8000 3, prefix6 0xa000 3,
     prefix6 0xc000 3, prefix6 0xe000 4, prefix6 0xf000 5, prefix6 0xf800 6, prefix6 0xfe00 9]"

subsection \<open>The text of an address\<close>

definition octets :: "nat \<Rightarrow> nat list" where
  "octets v = [v div 16777216, v div 65536 mod 256, v div 256 mod 256, v mod 256]"

definition ipv4_text :: "nat \<Rightarrow> pystr" where
  "ipv4_text v = join_with 46 (map (\<lambda>n. int_text (int n)) (octets v))"

definition hextets :: "nat \<Rightarrow> nat list" where
  "hextets v = map (\<lambda>i. v div 65536 ^ (7 - i) mod 65536) [0..<8]"

text \<open>The loop that looks for the longest run of zeros: the best run and the current one.\<close>

fun zero_run :: "nat \<Rightarrow> nat list \<Rightarrow> nat \<times> nat \<Rightarrow> nat \<times> nat \<Rightarrow> nat \<times> nat" where
  "zero_run i [] best run = best"
| "zero_run i (h # hs) (best, best_len) (start, len) =
    (if h = 0 then
       let run = (if len = 0 then i else start, len + 1)
       in zero_run (i + 1) hs (if best_len < len + 1 then run else (best, best_len)) run
     else zero_run (i + 1) hs (best, best_len) (0, 0))"

definition compress_hextets :: "nat list \<Rightarrow> pystr list" where
  "compress_hextets hs =
    (let parts = map hex_text hs
     in case zero_run 0 hs (0, 0) (0, 0) of (start, len) \<Rightarrow>
        if len \<le> 1 then parts
        else (if start = 0 then [[]] else []) @ take start parts @ [[]] @ drop (start + len) parts @
          (if start + len = length hs then [[]] else []))"

definition ip_text :: "ip_address \<Rightarrow> pystr" where
  "ip_text a =
    (case a of
       V4 v \<Rightarrow> ipv4_text v
     | V6 v scope \<Rightarrow> join_with 58 (compress_hextets (hextets v)) @
         (case scope of None \<Rightarrow> [] | Some s \<Rightarrow> 37 # s))"

subsection \<open>URLs\<close>

record split_url =
  url_scheme :: pystr
  netloc :: pystr
  url_path :: pystr
  url_query :: pystr
  url_fragment :: pystr

definition is_letter :: "nat \<Rightarrow> bool" where
  "is_letter c = (65 \<le> c \<and> c \<le> 90 \<or> 97 \<le> c \<and> c \<le> 122)"

definition scheme_char :: "nat \<Rightarrow> bool" where
  "scheme_char c = (is_letter c \<or> is_digit c \<or> c \<in> set (py ''+-.''))"

definition split_scheme :: "pystr \<Rightarrow> pystr \<times> pystr" where
  "split_scheme url =
    (let name = before 58 url
     in if 58 \<in> set url \<and> name \<noteq> [] \<and> is_letter (hd name) \<and> list_all scheme_char name
        then (map ascii_lower name, after 58 url) else ([], url))"

definition split_netloc :: "pystr \<Rightarrow> pystr \<times> pystr" where
  "split_netloc url =
    (if take 2 url = py ''//''
     then let n = takeWhile (\<lambda>c. c \<notin> set (py ''/?#'')) (drop 2 url) in (n, drop (2 + length n) url)
     else ([], url))"

text \<open>\<open>_check_bracketed_host\<close>: a future address or an IPv6 address.\<close>

definition bracketed_host_ok :: "pystr \<Rightarrow> bool" where
  "bracketed_host_ok host =
    (if take 1 host = py ''v''
     then let version = takeWhile (\<lambda>c. hex_digit c \<noteq> None) (drop 1 host); rest = drop (1 + length version) host
          in version \<noteq> [] \<and> 2 \<le> length rest \<and> hd rest = 46 \<and> 10 \<notin> set rest
     else (case ip_address_of host of Some (V6 _ _) \<Rightarrow> True | _ \<Rightarrow> False))"

definition netloc_ok :: "(pystr \<Rightarrow> bool) \<Rightarrow> pystr \<Rightarrow> bool" where
  "netloc_ok unsafe_nfkc n =
    ((91 \<in> set n \<longleftrightarrow> 93 \<in> set n) \<and>
     (91 \<in> set n \<longrightarrow> bracketed_host_ok (before 93 (after 91 n))) \<and>
     (is_ascii_text n \<or> \<not> unsafe_nfkc n))"

text \<open>
  \<open>urlsplit\<close>.  Whether a part that is not ASCII grows a delimiter under NFKC is a parameter, a
  table of the Unicode database.
\<close>

definition urlsplit :: "(pystr \<Rightarrow> bool) \<Rightarrow> pystr \<Rightarrow> split_url option" where
  "urlsplit unsafe_nfkc text =
    (case split_scheme (filter (\<lambda>c. c \<notin> {9, 10, 13}) (dropWhile (\<lambda>c. c \<le> 32) text)) of (scheme, url) \<Rightarrow>
     case split_netloc url of (n, rest) \<Rightarrow>
       if \<not> netloc_ok unsafe_nfkc n then None
       else Some \<lparr>url_scheme = scheme, netloc = n, url_path = before 63 (before 35 rest),
              url_query = after 63 (before 35 rest), url_fragment = after 35 rest\<rparr>)"

definition host_and_port :: "split_url \<Rightarrow> pystr \<times> pystr" where
  "host_and_port parsed =
    (let hostinfo = after_last 64 (netloc parsed)
     in if 91 \<in> set hostinfo
        then (before 93 (after 91 hostinfo), after 58 (after 93 (after 91 hostinfo)))
        else (before 58 hostinfo, after 58 hostinfo))"

definition hostname :: "split_url \<Rightarrow> pystr" where
  "hostname parsed = (let host = fst (host_and_port parsed)
     in map ascii_lower (before 37 host) @ drop (length (before 37 host)) host)"

text \<open>\<open>parsed.port\<close>: no port, a port, or an error.\<close>

definition port_of :: "split_url \<Rightarrow> int option option" where
  "port_of parsed =
    (let port = snd (host_and_port parsed)
     in if port = [] then Some None
        else if \<not> ascii_digits port then None
        else (case py_int port of Some n \<Rightarrow> if n \<le> 65535 then Some (Some n) else None | None \<Rightarrow> None))"

definition has_userinfo :: "split_url \<Rightarrow> bool" where
  "has_userinfo parsed = (64 \<in> set (netloc parsed))"

end
