(* ===== verification/Config_Settings.thy ===== *)
theory Config_Settings
  imports Private_Files Py_Url Worker_Core
begin

text \<open>
  config.py: the checks of \<open>LMStudioFallbackSettings\<close> and \<open>Settings\<close>, and the settings the
  environment describes.  A path is its text.
\<close>

subsection \<open>Worker URLs\<close>

definition authority :: "ip_address \<Rightarrow> pystr" where
  "authority a = (case a of V6 _ _ \<Rightarrow> [91] @ ip_text a @ [93] | V4 _ \<Rightarrow> ip_text a)"

definition worker_url :: "ip_address \<Rightarrow> int \<Rightarrow> pystr" where
  "worker_url a port = py ''http://'' @ authority a @ [58] @ int_text port"

definition loopback_worker_url :: "(pystr \<Rightarrow> bool) \<Rightarrow> pystr \<Rightarrow> string \<Rightarrow> pystr result" where
  "loopback_worker_url unsafe_nfkc text label =
    (case urlsplit unsafe_nfkc text of
       None \<Rightarrow> Inl (config_fault label '' URL is invalid'')
     | Some parsed \<Rightarrow>
         (case (ip_address_of (hostname parsed), port_of parsed) of
            (Some address, Some port) \<Rightarrow>
              if url_scheme parsed \<noteq> py ''http'' \<or> \<not> is_loopback address \<or> port = None \<or> has_userinfo parsed \<or>
                 url_path parsed \<notin> {[], py ''/''} \<or> url_query parsed \<noteq> [] \<or> url_fragment parsed \<noteq> []
              then Inl (config_fault label '' must use an explicit loopback HTTP authority'')
              else Inr (worker_url address (the port))
          | _ \<Rightarrow> Inl (config_fault label '' URL is invalid'')))"

subsection \<open>The fallback\<close>

definition check_fallback :: "host \<Rightarrow> (pystr \<Rightarrow> bool) \<Rightarrow> lm_studio_settings \<Rightarrow> lm_studio_settings result" where
  "check_fallback host unsafe_nfkc s =
    bind_res (loopback_worker_url unsafe_nfkc (fallback_base_url s) ''LM Studio'') (\<lambda>url.
    bind_res (check (fallback_model s \<noteq> [] \<and> fallback_model s = strip (fallback_model s) \<and>
        length (fallback_model s) \<le> 512 \<and> \<not> has_space (fallback_model s))
      (ConfigurationError ''LM Studio model identifier is invalid'')) (\<lambda>_.
    bind_res (check (1 \<le> fallback_idle_ttl_seconds s \<and> fallback_idle_ttl_seconds s \<le> 3600)
      (ConfigurationError ''LM Studio idle TTL is invalid'')) (\<lambda>_.
    bind_res (read_private_token host (fallback_token_path s) ''LM Studio'') (\<lambda>_.
    Inr (s\<lparr>fallback_base_url := url\<rparr>)))))"

subsection \<open>The settings\<close>

definition MAX_REQUEST_BYTES :: int where "MAX_REQUEST_BYTES = 1000000"

definition PRIVATE_BIND_NETWORKS :: "ip_network list" where
  "PRIVATE_BIND_NETWORKS = [prefix4 10 0 8, prefix4 172 16 12, prefix4 192 168 16, prefix6 0xfc00 7]"

definition concrete_private :: "ip_address \<Rightarrow> bool" where
  "concrete_private a = (list_ex (in_network a) PRIVATE_BIND_NETWORKS \<and>
     \<not> (is_unspecified a \<or> is_multicast a \<or> is_link_local a \<or> is_reserved a))"

text \<open>A Python float; the interval is compared with the binary64 number nearest to 0.01.\<close>

datatype py_float = Finite rat | Infinite bool | Not_A_Number

definition SHORTEST_INTERVAL :: rat where
  "SHORTEST_INTERVAL = 5764607523034235 / 576460752303423488"

definition interval_ok :: "py_float \<Rightarrow> bool" where
  "interval_ok x = (case x of Finite q \<Rightarrow> SHORTEST_INTERVAL \<le> q \<and> q \<le> 3600 | _ \<Rightarrow> False)"

definition check_bind :: "host \<Rightarrow> settings \<Rightarrow> unit result" where
  "check_bind host s =
    (case ip_address_of (bind_host s) of
       None \<Rightarrow> configuration ''bind host must be an IP address''
     | Some address \<Rightarrow>
         bind_res (check ((tls_certificate_path s = None) = (tls_key_path s = None))
           (ConfigurationError ''TLS certificate and key must be configured together'')) (\<lambda>_.
         bind_res (check (is_loopback address \<or> concrete_private address)
           (ConfigurationError ''non-loopback bind host must be a concrete private address'')) (\<lambda>_.
         bind_res (check (is_loopback address \<or> tls_certificate_path s \<noteq> None)
           (ConfigurationError ''non-loopback bind requires TLS'')) (\<lambda>_.
         case (tls_certificate_path s, tls_key_path s) of
           (Some certificate, Some key) \<Rightarrow>
             bind_res (validate_tls_file host certificate ''TLS certificate'' False) (\<lambda>_.
             validate_tls_file host key ''TLS key'' True)
         | _ \<Rightarrow> Inr ()))))"

definition check_bounds :: "settings \<Rightarrow> py_float \<Rightarrow> unit result" where
  "check_bounds s interval =
    bind_res (check (1 \<le> bind_port s \<and> bind_port s \<le> 65535) (ConfigurationError ''bind port is invalid'')) (\<lambda>_.
    bind_res (check (1 \<le> request_max_bytes s \<and> request_max_bytes s \<le> MAX_REQUEST_BYTES)
      (ConfigurationError ''request byte limit is invalid'')) (\<lambda>_.
    bind_res (check (1 \<le> request_max_lifetime_seconds s \<and> request_max_lifetime_seconds s \<le> 86400)
      (ConfigurationError ''request lifetime is invalid'')) (\<lambda>_.
    bind_res (check (1 \<le> worker_timeout_seconds s \<and> worker_timeout_seconds s \<le> 3600)
      (ConfigurationError ''worker timeout is invalid'')) (\<lambda>_.
    bind_res (check (1 \<le> retry_after_seconds s \<and> retry_after_seconds s \<le> 86400)
      (ConfigurationError ''retry interval is invalid'')) (\<lambda>_.
    bind_res (check (1 \<le> open_per_credential_limit s \<and> open_per_credential_limit s \<le> open_total_limit s \<and>
        open_total_limit s \<le> 10000) (ConfigurationError ''admission limits are invalid'')) (\<lambda>_.
    bind_res (check (1 \<le> tombstone_seconds s \<and> tombstone_seconds s \<le> 31536000)
      (ConfigurationError ''tombstone retention is invalid'')) (\<lambda>_.
    check (interval_ok interval) (ConfigurationError ''maintenance interval is invalid''))))))))"

text \<open>\<open>__post_init__\<close>; the interval of \<open>s\<close> is the one given as a float.\<close>

definition check_settings :: "host \<Rightarrow> (pystr \<Rightarrow> bool) \<Rightarrow> settings \<Rightarrow> py_float \<Rightarrow> settings result" where
  "check_settings host unsafe_nfkc s interval =
    bind_res (loopback_worker_url unsafe_nfkc (ollama_base_url s) ''Ollama'') (\<lambda>url.
    bind_res (check (strip (ollama_model s) \<noteq> [] \<and> length (ollama_model s) \<le> 256)
      (ConfigurationError ''Ollama model identifier is invalid'')) (\<lambda>_.
    bind_res (check (deployment_id s \<noteq> [] \<and> length (deployment_id s) \<le> 128)
      (ConfigurationError ''deployment id is invalid'')) (\<lambda>_.
    bind_res (check_bind host s) (\<lambda>_.
    bind_res (check_bounds s interval) (\<lambda>_.
    Inr (s\<lparr>ollama_base_url := url,
      maintenance_interval_seconds := (case interval of Finite q \<Rightarrow> q | _ \<Rightarrow> 0)\<rparr>))))))"

subsection \<open>Numbers in the environment\<close>

text \<open>
  \<open>float(text)\<close>: digits of any script, single underscores between digits, the words for the
  special values.  The rounding to binary64 is a parameter; \<open>None\<close> is an overflow.
\<close>

fun drop_underscores :: "bool \<Rightarrow> pystr \<Rightarrow> pystr option" where
  "drop_underscores digit [] = Some []"
| "drop_underscores digit (c # cs) =
    (if c = 95 then (if digit \<and> cs \<noteq> [] \<and> is_digit (hd cs) then drop_underscores False cs else None)
     else map_option (\<lambda>t. c # t) (drop_underscores (is_digit c) cs))"

definition ascii_decimals :: "pystr \<Rightarrow> pystr" where
  "ascii_decimals s = map (\<lambda>c. case udigit c of Some d \<Rightarrow> 48 + d | None \<Rightarrow> c) s"

definition py_float_of :: "(decimal \<Rightarrow> rat option) \<Rightarrow> pystr \<Rightarrow> py_float option" where
  "py_float_of round_float text =
    (case drop_underscores False (ascii_decimals (strip_number text)) of
       None \<Rightarrow> None
     | Some t \<Rightarrow>
         (case read_sign (map ascii_lower t) of (neg, word) \<Rightarrow>
            if word \<in> {py ''inf'', py ''infinity''} then Some (Infinite neg)
            else if word = py ''nan'' then Some Not_A_Number
            else map_option (\<lambda>d. case round_float d of Some q \<Rightarrow> Finite q | None \<Rightarrow> Infinite (dec_neg d))
              (scan_decimal t)))"

record environment =
  variable_of :: "string \<Rightarrow> pystr option"
  round_float :: "decimal \<Rightarrow> rat option"
  unsafe_nfkc :: "pystr \<Rightarrow> bool"

definition environment_int :: "environment \<Rightarrow> string \<Rightarrow> int \<Rightarrow> int result" where
  "environment_int env name absent =
    (case variable_of env name of
       None \<Rightarrow> Inr absent
     | Some raw \<Rightarrow> (case py_int raw of None \<Rightarrow> configuration (name @ '' must be an integer'') | Some n \<Rightarrow> Inr n))"

definition environment_float :: "environment \<Rightarrow> string \<Rightarrow> py_float \<Rightarrow> py_float result" where
  "environment_float env name absent =
    (case variable_of env name of
       None \<Rightarrow> Inr absent
     | Some raw \<Rightarrow>
         (case py_float_of (round_float env) raw of
            None \<Rightarrow> configuration (name @ '' must be a number'') | Some x \<Rightarrow> Inr x))"

subsection \<open>The settings of the environment\<close>

definition required_variable :: "environment \<Rightarrow> string \<Rightarrow> pystr result" where
  "required_variable env name =
    (case variable_of env name of Some (c # cs) \<Rightarrow> Inr (c # cs) | _ \<Rightarrow> configuration (name @ '' is required''))"

definition optional_path :: "environment \<Rightarrow> string \<Rightarrow> pystr option" where
  "optional_path env name = (case variable_of env name of Some (c # cs) \<Rightarrow> Some (c # cs) | _ \<Rightarrow> None)"

definition fallback_from_env :: "host \<Rightarrow> environment \<Rightarrow> lm_studio_settings option result" where
  "fallback_from_env host env =
    (let variables = map (variable_of env) [''GATEWAY_LM_STUDIO_URL'', ''GATEWAY_LM_STUDIO_MODEL'', ''GATEWAY_LM_STUDIO_TOKEN_FILE'']
     in if list_all (\<lambda>v. v = None) variables \<and> variable_of env ''GATEWAY_LM_STUDIO_IDLE_TTL_SECONDS'' = None then Inr None
        else (case variables of
            [Some url, Some model, Some token] \<Rightarrow>
              if url = [] \<or> model = [] \<or> token = [] then configuration ''LM Studio fallback configuration must be complete''
              else bind_res (environment_int env ''GATEWAY_LM_STUDIO_IDLE_TTL_SECONDS'' 300) (\<lambda>ttl.
                map_sum id Some (check_fallback host (unsafe_nfkc env)
                  \<lparr>fallback_base_url = url, fallback_model = model, fallback_token_path = token,
                   fallback_idle_ttl_seconds = ttl\<rparr>))
          | _ \<Rightarrow> configuration ''LM Studio fallback configuration must be complete''))"

definition settings_from_env :: "host \<Rightarrow> environment \<Rightarrow> settings result" where
  "settings_from_env host env =
    bind_res (required_variable env ''GATEWAY_DATABASE_FILE'') (\<lambda>database.
    bind_res (required_variable env ''GATEWAY_CREDENTIALS_FILE'') (\<lambda>credentials.
    bind_res (required_variable env ''GATEWAY_ENCRYPTION_KEY_FILE'') (\<lambda>key_file.
    bind_res (required_variable env ''GATEWAY_OLLAMA_URL'') (\<lambda>url.
    bind_res (required_variable env ''GATEWAY_OLLAMA_MODEL'') (\<lambda>model.
    bind_res (required_variable env ''GATEWAY_DEPLOYMENT_ID'') (\<lambda>deployment.
    bind_res (environment_int env ''GATEWAY_BIND_PORT'' 8787) (\<lambda>port.
    bind_res (environment_float env ''GATEWAY_MAINTENANCE_INTERVAL_SECONDS'' (Finite 30)) (\<lambda>interval.
    bind_res (fallback_from_env host env) (\<lambda>other.
    check_settings host (unsafe_nfkc env)
      \<lparr>database_path = database, credentials_path = credentials, encryption_key_path = key_file,
       ollama_base_url = url, ollama_model = model, deployment_id = deployment, lm_studio_fallback = other,
       bind_host = (case variable_of env ''GATEWAY_BIND_HOST'' of None \<Rightarrow> py ''127.0.0.1'' | Some h \<Rightarrow> h),
       bind_port = port,
       tls_certificate_path = optional_path env ''GATEWAY_TLS_CERTIFICATE_FILE'',
       tls_key_path = optional_path env ''GATEWAY_TLS_KEY_FILE'',
       request_max_bytes = MAX_REQUEST_BYTES, request_max_lifetime_seconds = 900, worker_timeout_seconds = 300,
       retry_after_seconds = 15, open_total_limit = 16, open_per_credential_limit = 4,
       tombstone_seconds = 86400, maintenance_interval_seconds = 30\<rparr> interval)))))))))"

end
