(* ===== verification/Gateway_Startup.thy ===== *)
theory Gateway_Startup
  imports Config_Settings Store_Initialize Http_Application
begin

text \<open>
  app.py and __main__.py: what \<open>create_app\<close> builds from the environment, the files and the
  database, and what \<open>main\<close> hands to the server.
\<close>

definition store_config_of :: "settings \<Rightarrow> store_config" where
  "store_config_of s = \<lparr>max_open_total = nat (open_total_limit s),
     max_open_per_credential = nat (open_per_credential_limit s), tombstone_retention_seconds = tombstone_seconds s\<rparr>"

text \<open>The libraries: SHA-256 in hexadecimal, AES-GCM under a key, binary64, the schema check.\<close>

record libraries =
  lib_sha256 :: "nat list \<Rightarrow> pystr"
  lib_aesgcm :: "nat list \<Rightarrow> aead"
  lib_to_float :: "decimal \<Rightarrow> decimal"
  lib_check_schema :: "json \<Rightarrow> bool"

record gateway_app =
  built_application :: application
  built_worker :: inference_worker

definition worker_token :: "host \<Rightarrow> settings \<Rightarrow> pystr result" where
  "worker_token host s =
    (case lm_studio_fallback s of None \<Rightarrow> Inr [] | Some f \<Rightarrow> read_private_token host (fallback_token_path f) ''LM Studio'')"

text \<open>
  What the operating system and SQLite make of the I/O around the transaction of \<open>initialize\<close>:
  the directory, the connection and \<open>BEGIN\<close> before it, the journal mode and the file mode after
  its \<open>COMMIT\<close>; and the files as they are by then.
\<close>

record disk =
  opened :: "unit result"
  settled :: "unit result"
  later_host :: host

definition initialize_store :: "store_config \<Rightarrow> datetime \<Rightarrow> disk \<Rightarrow> database \<Rightarrow> unit result \<times> database" where
  "initialize_store cfg now disk db =
    (case opened disk of
       Inl e \<Rightarrow> (Inl e, db)
     | Inr _ \<Rightarrow>
         (case initialize cfg now db of
            (Inl e, db') \<Rightarrow> (Inl e, db')
          | (Inr _, db') \<Rightarrow> (settled disk, db')))"

text \<open>The token of the fallback is read once for the settings and again after the store is ready.\<close>

definition create_app ::
    "libraries \<Rightarrow> host \<Rightarrow> disk \<Rightarrow> environment \<Rightarrow> datetime \<Rightarrow> database \<Rightarrow> gateway_app result \<times> database" where
  "create_app lib host disk env now db =
    (case bind_res (settings_from_env host env) (\<lambda>s.
          bind_res (credentials_from_file host (lib_sha256 lib) (credentials_path s)) (\<lambda>credentials.
          bind_res (key_from_file host (encryption_key_path s)) (\<lambda>key. Inr (s, credentials, key)))) of
       Inl e \<Rightarrow> (Inl e, db)
     | Inr (s, credentials, key) \<Rightarrow>
         (case initialize_store (store_config_of s) now disk db of
            (Inl e, db') \<Rightarrow> (Inl e, db')
          | (Inr _, db') \<Rightarrow>
              (bind_res (worker_token (later_host disk) s) (\<lambda>token.
               Inr \<lparr>built_application = \<lparr>
                   app_service = \<lparr>the_settings = s, the_store = store_config_of s, the_cipher = lib_aesgcm lib key,
                     sha256_hex = lib_sha256 lib\<rparr>,
                   app_credentials = credentials, app_nesting = host_nesting host,
                   app_to_float = lib_to_float lib, app_check_schema = lib_check_schema lib\<rparr>,
                 built_worker = choose_worker s token\<rparr>), db')))"

text \<open>The arguments of \<open>uvicorn.run\<close>.\<close>

record server_arguments =
  server_host :: pystr
  server_port :: int
  access_log :: bool
  proxy_headers :: bool
  server_workers :: nat
  ssl_certfile :: "pystr option"
  ssl_keyfile :: "pystr option"

definition arguments_of :: "settings \<Rightarrow> server_arguments" where
  "arguments_of s = \<lparr>server_host = bind_host s, server_port = bind_port s, access_log = True,
     proxy_headers = False, server_workers = 1, ssl_certfile = tls_certificate_path s, ssl_keyfile = tls_key_path s\<rparr>"

text \<open>\<open>main\<close> reads the settings and passes them to \<open>create_app\<close>.\<close>

definition main_program ::
    "libraries \<Rightarrow> host \<Rightarrow> disk \<Rightarrow> environment \<Rightarrow> datetime \<Rightarrow> database \<Rightarrow> (gateway_app \<times> server_arguments) result \<times> database" where
  "main_program lib host disk env now db =
    (case create_app lib host disk env now db of
       (Inl e, db') \<Rightarrow> (Inl e, db')
     | (Inr app, db') \<Rightarrow> (Inr (app, arguments_of (the_settings (app_service (built_application app)))), db'))"

end
