(* ===== verification/Worker_Traffic.thy ===== *)
theory Worker_Traffic
  imports Gateway_Startup
begin

text \<open>
  Where the calls of a worker go: every call of a program satisfies a predicate, whatever the
  replies.
\<close>

named_theorems asks_intros \<open>where the questions of a program go\<close>

abbreviation asks_only :: "('q \<Rightarrow> bool) \<Rightarrow> ('s, 'q, 'r, 'a) program \<Rightarrow> bool" where
  "asks_only \<equiv> asks_among UNIV"

declare among_bind [asks_intros] among_except [asks_intros]

lemma asks_finish [asks_intros]: "asks_only P (Finish x)"
  by simp

lemma asks_if [asks_intros]: "(c \<Longrightarrow> asks_only P p) \<Longrightarrow> (\<not> c \<Longrightarrow> asks_only P q) \<Longrightarrow> asks_only P (if c then p else q)"
  by simp

lemma asks_option [asks_intros]:
  "asks_only P p \<Longrightarrow> (\<And>x. asks_only P (f x)) \<Longrightarrow> asks_only P (case v of None \<Rightarrow> p | Some x \<Rightarrow> f x)"
  by (cases v) simp_all

lemma asks_asked: "asks_only P p \<Longrightarrow> q \<in> set (fst (play p rs s)) \<Longrightarrow> P q"
  using among_play [OF _ subset_UNIV] by (metis prod.collapse)

lemma asks_mono: "asks_only P p \<Longrightarrow> (\<And>q. P q \<Longrightarrow> P' q) \<Longrightarrow> asks_only P' p"
  by (induction p) auto

subsection \<open>The calls of one worker\<close>

text \<open>A call to the worker's own server, with its own headers first.\<close>

definition goes_to :: "http_worker \<Rightarrow> worker_question \<Rightarrow> bool" where
  "goes_to w q = (case q of Read_Monotonic \<Rightarrow> True | Call_Server call \<Rightarrow> call_base call = base_url w \<and>
     (\<exists>extra. call_headers call = client_headers w @ extra \<and> py ''Authorization'' \<notin> fst ` set extra))"

lemma goes_to_calls [asks_intros]:
  "goes_to w (Call_Server (server_get w timeout limit path))"
  "goes_to w (Call_Server (completion_call w timeout limit body))"
  "goes_to w (Call_Server (server_post w timeout limit path [] document))"
  by (simp_all add: goes_to_def server_get_def server_post_def completion_call_def)

lemma asks_call [asks_intros]: "P (Call_Server call) \<Longrightarrow> asks_only P (call_server call)"
  by (simp add: call_server_def split: worker_reply.split)

lemma asks_clock [asks_intros]: "asks_only (goes_to w) read_monotonic"
  by (simp add: read_monotonic_def goes_to_def split: worker_reply.split)

lemma asks_answer [asks_intros]:
  "P (Call_Server call) \<Longrightarrow> (\<And>ob. asks_only P (act ob)) \<Longrightarrow> asks_only P (with_answer tools call otherwise act)"
  unfolding with_answer_def by (intro asks_intros)

lemma asks_context [asks_intros]: "asks_only (goes_to w) (context_availability tools w timeout limit minimum)"
proof -
  have "asks_only (goes_to w) (ollama_context tools w timeout limit minimum)"
    unfolding ollama_context_def
    by (intro asks_intros) (auto split: json.split option.split intro!: asks_intros)
  then show ?thesis by (cases "worker_kind w") (simp_all add: context_availability_def)
qed

lemma asks_availability [asks_intros]: "asks_only (goes_to w) (worker_availability tools w name timeout)"
  unfolding worker_availability_def raw_availability_def
  by (intro asks_intros) (auto split: json.split option.split intro!: asks_intros)

lemma asks_health [asks_intros]: "asks_only (goes_to w) (worker_health tools w name timeout)"
  unfolding worker_health_def by (intro asks_intros)

lemma asks_capacity [asks_intros]: "asks_only (goes_to w) (fallback_capacity_available tools w timeout)"
  unfolding fallback_capacity_available_def
  by (auto split: worker_kind.split intro!: asks_intros)

lemma asks_infer [asks_intros]: "asks_only (goes_to w) (worker_infer tools w request timeout deadline)"
  unfolding worker_infer_def establish_capacity_def dispatch_timeout_def submit_def
  by (intro asks_intros)

subsection \<open>The calls of the built worker\<close>

definition workers_of :: "inference_worker \<Rightarrow> http_worker set" where
  "workers_of iw = (case iw of Single w \<Rightarrow> {w} | Routed fw \<Rightarrow> {primary fw, fallback fw})"

abbreviation within_workers :: "inference_worker \<Rightarrow> worker_question \<Rightarrow> bool" where
  "within_workers iw q \<equiv> \<exists>w \<in> workers_of iw. goes_to w q"

definition start_health :: "worker_tools \<Rightarrow> inference_worker \<Rightarrow> (pystr \<times> int) option \<Rightarrow> rat \<Rightarrow> bool worker_program" where
  "start_health tools iw name timeout =
    (case iw of Single w \<Rightarrow> worker_health tools w name timeout | Routed fw \<Rightarrow> routed_health tools fw name timeout)"

lemma asks_either:
  "asks_only (goes_to w) p \<Longrightarrow> w \<in> workers_of iw \<Longrightarrow> asks_only (within_workers iw) p"
  by (erule asks_mono) blast

lemma asks_remaining: "asks_only (within_workers iw) (remaining_time deadline)" "asks_only (within_workers iw) read_monotonic"
proof -
  obtain w where "w \<in> workers_of iw" by (cases iw) (auto simp: workers_of_def)
  moreover have "asks_only (goes_to w) (remaining_time deadline)" for w
    unfolding remaining_time_def by (intro asks_intros)
  ultimately show "asks_only (within_workers iw) (remaining_time deadline)" "asks_only (within_workers iw) read_monotonic"
    using asks_either asks_clock by blast+
qed

lemma asks_routed:
  "asks_only (within_workers (Routed fw)) (worker_availability tools (primary fw) name timeout)"
  "asks_only (within_workers (Routed fw)) (worker_health tools (fallback fw) name timeout)"
  "asks_only (within_workers (Routed fw)) (fallback_capacity_available tools (primary fw) timeout)"
  "asks_only (within_workers (Routed fw)) (worker_infer tools (primary fw) request timeout deadline)"
  "asks_only (within_workers (Routed fw)) (worker_infer tools (fallback fw) request timeout deadline)"
  by (rule asks_either, rule asks_intros, simp add: workers_of_def)+

lemma asks_ready: "asks_only (within_workers (Routed fw)) (fallback_ready tools fw name deadline)"
  unfolding fallback_ready_def by (intro asks_intros asks_remaining asks_routed)

lemma start_infer_asks: "asks_only (within_workers iw) (start_infer tools iw request timeout)"
proof (cases iw)
  case (Single w)
  then show ?thesis using asks_either [OF asks_infer, of w iw] by (simp add: start_infer_def workers_of_def)
next
  case (Routed fw)
  have "asks_only (within_workers (Routed fw)) (routed_infer tools fw request timeout deadline)" for deadline
    unfolding routed_infer_def Let_def by (intro asks_intros asks_remaining asks_routed asks_ready)
  then show ?thesis by (simp add: start_infer_def Routed)
qed

lemma start_health_asks: "asks_only (within_workers iw) (start_health tools iw name timeout)"
proof (cases iw)
  case (Single w)
  then show ?thesis using asks_either [OF asks_health, of w iw] by (simp add: start_health_def workers_of_def)
next
  case (Routed fw)
  have "asks_only (within_workers (Routed fw)) (routed_health tools fw name timeout)"
    unfolding routed_health_def
    by (intro asks_intros asks_remaining asks_routed asks_ready) (auto split: exn.split)
  then show ?thesis by (simp add: start_health_def Routed)
qed

end
