(* ===== verification/Url_Text.thy ===== *)
theory Url_Text
  imports Config_Settings Contracts_Digest
begin

text \<open>
  The text of a worker URL reads back: an IPv4 address from its octets, a URL from its authority.
\<close>

subsection \<open>Splitting and joining\<close>

lemma split_on_none: "c \<notin> set p \<Longrightarrow> split_on c p = [p]"
  by (induction p) auto

lemma split_on_sep: "c \<notin> set p \<Longrightarrow> split_on c (p @ c # s) = p # split_on c s"
  by (induction p) auto

lemma split_join:
  "ps \<noteq> [] \<Longrightarrow> (\<And>p. p \<in> set ps \<Longrightarrow> c \<notin> set p) \<Longrightarrow> split_on c (join_with c ps) = ps"
  by (induction c ps rule: join_with.induct) (auto simp: split_on_none split_on_sep)

lemma before_none: "c \<notin> set s \<Longrightarrow> before c s = s"
  by (auto simp: before_def takeWhile_eq_all_conv)

lemma before_sep: "c \<notin> set p \<Longrightarrow> before c (p @ c # s) = p"
  by (induction p) (auto simp: before_def)

lemma after_none: "c \<notin> set s \<Longrightarrow> after c s = []"
  by (simp add: after_def before_none)

lemma after_sep: "c \<notin> set p \<Longrightarrow> after c (p @ c # s) = s"
  by (simp add: after_def before_sep)

lemma after_last_none: "c \<notin> set s \<Longrightarrow> after_last c s = s"
  by (simp add: after_last_def before_none)

subsection \<open>Numbers\<close>

lemma int_text_nat: "int_text (int n) = digit_text (digits10 n)"
  by (simp add: int_text_def)

lemma digit_text_ascii: "all_digits ds \<Longrightarrow> ds \<noteq> [] \<Longrightarrow> ascii_digits (digit_text ds)"
  using digit_text_digits [of ds] by (auto simp: ascii_digits_def list_all_iff digit_text_def)

lemma digits10_ascii [simp]: "ascii_digits (digit_text (digits10 n))"
  by (rule digit_text_ascii) simp_all

lemma digit_text_not: "all_digits ds \<Longrightarrow> c \<in> set (digit_text ds) \<Longrightarrow> 48 \<le> c \<and> c \<le> 57"
  using digit_text_digits [of ds] by (auto simp: is_digit_def)

lemma octet_text: "n < 256 \<Longrightarrow> parse_octet (digit_text (digits10 n)) = Some n"
proof -
  assume n: "n < 256"
  have "length (digits10 n) \<le> 3" using length_digits10_le [of 3 n] n by simp
  moreover have "digit_text (digits10 n) = [48] \<or> hd (digit_text (digits10 n)) \<noteq> 48"
  proof (cases "n = 0")
    case True
    then show ?thesis by (simp add: digits10.simps digit_text_def)
  next
    case False
    then have "hd (digits10 n) \<noteq> 0" by (simp add: hd_digits10)
    then show ?thesis by (simp add: digit_text_def hd_map)
  qed
  ultimately show ?thesis using n by (simp add: parse_octet_def digit_text_def [of "digits10 n"])
     (simp add: flip: digit_text_def)
qed

lemma port_text: "0 \<le> n \<Longrightarrow> n \<le> 65535 \<Longrightarrow> py_int (int_text n) = Some n"
proof -
  assume n: "0 \<le> n" "n \<le> 65535"
  have "length (digits10 (nat n)) \<le> 5" using length_digits10_le [of 5 "nat n"] n by simp
  then have "length (digit_text (digits10 (nat n))) \<le> MAX_INT_DIGITS" by (simp add: digit_text_def MAX_INT_DIGITS_def)
  from py_int_digits [OF digits10_ascii this] show ?thesis using n by (simp add: int_text_def)
qed

subsection \<open>Addresses\<close>

lemma octets_value:
  "((v div 16777216 * 256 + v div 65536 mod 256) * 256 + v div 256 mod 256) * 256 + v mod 256 = v" for v :: nat
proof -
  have "v div 16777216 = v div 256 div 256 div 256" "v div 65536 = v div 256 div 256"
    by (simp_all flip: div_mult2_eq)
  then show ?thesis by (simp only: div_mult_mod_eq)
qed

lemma ipv4_round: "v < 2 ^ 32 \<Longrightarrow> ipv4_value (ipv4_text v) = Some v"
proof -
  assume v: "v < 2 ^ 32"
  have "46 \<notin> set (digit_text (digits10 n))" for n using digit_text_not [OF all_digits10] by fastforce
  then have "split_on 46 (ipv4_text v) = map (\<lambda>n. digit_text (digits10 n)) (octets v)"
    unfolding ipv4_text_def int_text_nat by (subst split_join) (auto simp: octets_def)
  moreover have "v div 16777216 < 256" using v by simp
  ultimately show ?thesis
    using octets_value [of v] by (simp add: ipv4_value_def octets_def octet_text)
qed


subsection \<open>URLs\<close>

lemma split_http: "split_scheme (py ''http://'' @ rest) = (py ''http'', py ''//'' @ rest)"
  by (simp add: split_scheme_def before_def after_def py_def scheme_char_def is_letter_def ascii_lower_def)

lemma split_url_netloc: "(\<forall>c \<in> set (py ''/?#''). c \<notin> set n) \<Longrightarrow> split_netloc (py ''//'' @ n) = (n, [])"
proof -
  assume "\<forall>c \<in> set (py ''/?#''). c \<notin> set n"
  then have "takeWhile (\<lambda>c. c \<notin> set (py ''/?#'')) n = n" by (auto simp: takeWhile_eq_all_conv)
  moreover have "take 2 (py ''//'' @ n) = py ''//''" "drop 2 (py ''//'' @ n) = n" by (simp_all add: py_def)
  ultimately show ?thesis by (simp only: split_netloc_def if_True Let_def) simp
qed

lemma urlsplit_http:
  assumes "\<forall>c \<in> set n. 32 < c" "\<forall>c \<in> set (py ''/?#''). c \<notin> set n" "netloc_ok unsafe n"
  shows "urlsplit unsafe (py ''http://'' @ n) =
    Some \<lparr>url_scheme = py ''http'', netloc = n, url_path = [], url_query = [], url_fragment = []\<rparr>"
proof -
  have "dropWhile (\<lambda>c. c \<le> 32) (py ''http://'' @ n) = py ''http://'' @ n" by (simp add: py_def)
  moreover have "filter (\<lambda>c. c \<notin> {9, 10, 13}) (py ''http://'' @ n) = py ''http://'' @ n"
    using assms(1) by (intro filter_True) (auto simp: py_def)
  ultimately show ?thesis
    unfolding urlsplit_def using assms(2,3)
    by (simp add: split_http split_url_netloc before_def after_def)
qed


text \<open>The addresses whose URL reads back: no scope identifier, which may hold any text.\<close>

fun plain_address :: "ip_address \<Rightarrow> bool" where
  "plain_address (V4 v) = (v < 2 ^ 32)"
| "plain_address (V6 v scope) = (scope = None)"

lemma loopback_cases:
  assumes "is_loopback a" "plain_address a"
  obtains v where "a = V4 v" "v < 2 ^ 32" | "a = V6 1 None"
  using assms by (cases a) auto

lemma ipv4_chars: "c \<in> set (ipv4_text v) \<Longrightarrow> c = 46 \<or> 48 \<le> c \<and> c \<le> 57"
  unfolding ipv4_text_def octets_def int_text_nat using digit_text_not [OF all_digits10] by auto

lemma port_chars: "0 \<le> n \<Longrightarrow> c \<in> set (int_text n) \<Longrightarrow> 48 \<le> c \<and> c \<le> 57"
  using digit_text_not [OF all_digits10] by (auto simp: int_text_def)

lemma loopback6_text: "ip_text (V6 1 None) = py ''::1''" "ip_address_of (py ''::1'') = Some (V6 1 None)"
proof -
  have "hextets 1 = [0, 0, 0, 0, 0, 0, 0, 1]" by (simp add: hextets_def upt_rec)
  then have "compress_hextets (hextets 1) = [[], [], [49]]"
    by (simp add: compress_hextets_def hex_text.simps hex_char_def)
  then show "ip_text (V6 1 None) = py ''::1''" by (simp add: ip_text_def py_def)
  have parts: "split_on 46 (py ''::1'') = [py ''::1'']" "split_on 58 (py ''::1'') = [[], [], [49]]"
    by (simp_all add: py_def)
  have "ipv4_value (py ''::1'') = None" unfolding ipv4_value_def parts by (simp split: option.split)
  moreover have "ipv6_parts (py ''::1'') = Some [[], [], [49]]" unfolding ipv6_parts_def parts by simp
  moreover have "hextets_of_parts [[], [], [49]] = Some [0, 0, 0, 0, 0, 0, 0, 1]"
    by (simp add: hextets_of_parts_def upt_rec parse_hextet_def hex_digit_def numeral_eq_Suc)
  ultimately show "ip_address_of (py ''::1'') = Some (V6 1 None)"
    by (simp add: ip_address_of_def ipv6_of_def before_none after_none) (simp add: py_def before_def)
qed

lemma worker_url_reads_back:
  assumes a: "is_loopback a" "plain_address a" and port: "0 \<le> port" "port \<le> 65535"
  shows "\<exists>parsed. urlsplit unsafe (worker_url a port) = Some parsed \<and> url_scheme parsed = py ''http'' \<and>
    ip_address_of (hostname parsed) = Some a \<and> port_of parsed = Some (Some port) \<and> \<not> has_userinfo parsed \<and>
    url_path parsed = [] \<and> url_query parsed = [] \<and> url_fragment parsed = []"
proof -
  let ?n = "authority a @ [58] @ int_text port"
  have digits: "c \<notin> set (int_text port)" if "c < 48 \<or> 57 < c" for c using port_chars [OF port(1)] that by fastforce
  have port_ok: "(if int_text port = [] then Some None else if \<not> ascii_digits (int_text port) then None
      else (case py_int (int_text port) of Some n \<Rightarrow> if n \<le> 65535 then Some (Some n) else None | None \<Rightarrow> None)) = Some (Some port)"
  proof -
    have "ascii_digits (int_text port)" using port(1) by (simp add: int_text_def)
    then show ?thesis using port_text [OF port] port by (auto simp: ascii_digits_def)
  qed
  from a show ?thesis
  proof (cases rule: loopback_cases)
    case (1 v)
    have none: "c \<notin> set (ipv4_text v)" if "c \<noteq> 46" "c < 48 \<or> 57 < c" for c using ipv4_chars that by fastforce
    have auth: "authority a = ipv4_text v" using 1 by (simp add: authority_def ip_text_def)
    have n: "c \<notin> set ?n" if "c \<noteq> 46" "c \<noteq> 58" "c < 48 \<or> 57 < c" for c
      using none [OF that(1,3)] digits [OF that(3)] that by (simp add: auth)
    have "is_ascii_text ?n"
      using ipv4_chars [of _ v] port_chars [OF port(1)] by (fastforce simp: auth is_ascii_text_def list_all_iff)
    then have "netloc_ok unsafe ?n" using n by (simp add: netloc_ok_def)
    moreover have "\<forall>c \<in> set ?n. 32 < c" using ipv4_chars [of _ v] port_chars [OF port(1)] by (fastforce simp: auth)
    moreover have "\<forall>c \<in> set (py ''/?#''). c \<notin> set ?n" using n by (simp add: py_def)
    ultimately have split: "urlsplit unsafe (worker_url a port) =
        Some \<lparr>url_scheme = py ''http'', netloc = ?n, url_path = [], url_query = [], url_fragment = []\<rparr>"
      unfolding worker_url_def by (intro urlsplit_http)
    let ?parsed = "\<lparr>url_scheme = py ''http'', netloc = ?n, url_path = [], url_query = [], url_fragment = []\<rparr>"
    have parts: "host_and_port ?parsed = (ipv4_text v, int_text port)"
      using n none [of 58] by (simp add: host_and_port_def after_last_none auth before_sep after_sep)
    have "map ascii_lower (ipv4_text v) = ipv4_text v"
      using ipv4_chars [of _ v] by (intro map_idI) (fastforce simp: ascii_lower_def)
    then have "hostname ?parsed = ipv4_text v" using none [of 37] unfolding hostname_def parts by (simp add: before_none)
    then have "ip_address_of (hostname ?parsed) = Some a" using ipv4_round [OF 1(2)] 1(1) by (simp add: ip_address_of_def)
    moreover have "port_of ?parsed = Some (Some port)" unfolding port_of_def parts by (simp only: snd_conv Let_def port_ok)
    ultimately show ?thesis using split n [of 64] by (simp add: has_userinfo_def)
  next
    case 2
    have auth: "authority a = [91] @ py ''::1'' @ [93]" using 2 loopback6_text(1) by (simp add: authority_def)
    have n: "c \<notin> set ?n" if "c \<notin> {91, 58, 49, 93}" "c < 48 \<or> 57 < c" for c
      using digits [OF that(2)] that by (simp add: auth py_def)
    have "is_ascii_text ?n" using port_chars [OF port(1)] by (fastforce simp: auth is_ascii_text_def list_all_iff py_def)
    moreover have inner: "after 91 ?n = py ''::1'' @ 93 # 58 # int_text port" using after_sep [of 91 "[]"] by (simp add: auth)
    moreover have host: "before 93 (py ''::1'' @ 93 # s) = py ''::1''" for s by (rule before_sep) (simp add: py_def)
    moreover have "bracketed_host_ok (py ''::1'')" using loopback6_text(2) by (simp add: bracketed_host_ok_def py_def)
    ultimately have "netloc_ok unsafe ?n" by (simp add: netloc_ok_def auth)
    moreover have "\<forall>c \<in> set ?n. 32 < c" using port_chars [OF port(1)] by (fastforce simp: auth py_def)
    moreover have "\<forall>c \<in> set (py ''/?#''). c \<notin> set ?n" using n by (simp add: py_def)
    ultimately have split: "urlsplit unsafe (worker_url a port) =
        Some \<lparr>url_scheme = py ''http'', netloc = ?n, url_path = [], url_query = [], url_fragment = []\<rparr>"
      unfolding worker_url_def by (intro urlsplit_http)
    let ?parsed = "\<lparr>url_scheme = py ''http'', netloc = ?n, url_path = [], url_query = [], url_fragment = []\<rparr>"
    have "after 93 (py ''::1'' @ 93 # 58 # int_text port) = 58 # int_text port" by (rule after_sep) (simp add: py_def)
    moreover have "after 58 (58 # int_text port) = int_text port" using after_sep [of 58 "[]"] by simp
    moreover have "after_last 64 ?n = ?n" by (rule after_last_none) (rule n; simp)
    ultimately have parts: "host_and_port ?parsed = (py ''::1'', int_text port)"
      using inner host by (simp add: host_and_port_def auth)
    have "hostname ?parsed = py ''::1''"
      unfolding hostname_def parts by (simp add: before_none py_def ascii_lower_def)
    moreover have "port_of ?parsed = Some (Some port)" unfolding port_of_def parts by (simp only: snd_conv Let_def port_ok)
    ultimately show ?thesis using split n [of 64] loopback6_text(2) 2 by (simp add: has_userinfo_def)
  qed
qed

end
