(* ===== verification/Startup_Checks.thy ===== *)
theory Startup_Checks
  imports Worker_Traffic Url_Text
begin

text \<open>
  What the checks of the settings and of the files establish.
\<close>

subsection \<open>Worker URLs\<close>

definition loopback_url :: "pystr \<Rightarrow> bool" where
  "loopback_url u = (\<exists>a port. u = worker_url a port \<and> is_loopback a \<and> 0 \<le> port \<and> port \<le> 65535)"

lemma port_of_range: "port_of parsed = Some (Some n) \<Longrightarrow> 0 \<le> n \<and> n \<le> 65535"
proof -
  assume p: "port_of parsed = Some (Some n)"
  let ?t = "snd (host_and_port parsed)"
  from p have t: "ascii_digits ?t" "py_int ?t = Some n" "n \<le> 65535"
    by (auto simp: port_of_def Let_def split: if_splits option.splits)
  have "read_sign ?t = (False, ?t)"
    using t(1) by (cases ?t) (auto simp: ascii_digits_def read_sign_def is_digit_def)
  moreover have "strip_number ?t = ?t"
    by (rule strip_number_id)
      (use t(1) in \<open>auto simp: ascii_digits_def has_space_def list_ex_iff list_all_iff is_digit_def is_space_def\<close>)
  ultimately have "0 \<le> n" using t(2) by (auto simp: py_int_def split: option.splits if_splits)
  then show ?thesis using t(3) by simp
qed

lemma loopback_worker_url_Inr:
  assumes "loopback_worker_url unsafe text label = Inr u"
  shows "loopback_url u"
proof -
  obtain parsed address port where "ip_address_of (hostname parsed) = Some address" "port_of parsed = Some (Some port)"
      "is_loopback address" "u = worker_url address port"
    using assms by (auto simp: loopback_worker_url_def split: option.splits if_splits)
  then show ?thesis using port_of_range by (auto simp: loopback_url_def)
qed

lemma ipv4_value_bound: "ipv4_value s = Some v \<Longrightarrow> v < 2 ^ 32"
proof -
  have octet: "parse_octet p = Some n \<Longrightarrow> n \<le> 255" for p n
    by (auto simp: parse_octet_def Let_def split: if_splits)
  assume "ipv4_value s = Some v"
  then obtain a b c d where v: "map parse_octet (split_on 46 s) = [Some a, Some b, Some c, Some d]"
      "v = ((a * 256 + b) * 256 + c) * 256 + d"
    unfolding ipv4_value_def by (auto split: list.splits option.splits)
  then have "\<exists>p. parse_octet p = Some n" if "n \<in> {a, b, c, d}" for n
    using that by (auto simp: map_eq_Cons_conv)
  then have "a \<le> 255" "b \<le> 255" "c \<le> 255" "d \<le> 255" using octet by blast+
  then show ?thesis using v(2) by simp
qed

subsection \<open>Settings\<close>

definition bounded_settings :: "settings \<Rightarrow> bool" where
  "bounded_settings s =
    (1 \<le> bind_port s \<and> bind_port s \<le> 65535 \<and>
     1 \<le> request_max_bytes s \<and> request_max_bytes s \<le> MAX_REQUEST_BYTES \<and>
     1 \<le> request_max_lifetime_seconds s \<and> request_max_lifetime_seconds s \<le> 86400 \<and>
     1 \<le> worker_timeout_seconds s \<and> worker_timeout_seconds s \<le> 3600 \<and>
     1 \<le> retry_after_seconds s \<and> retry_after_seconds s \<le> 86400 \<and>
     1 \<le> open_per_credential_limit s \<and> open_per_credential_limit s \<le> open_total_limit s \<and> open_total_limit s \<le> 10000 \<and>
     1 \<le> tombstone_seconds s \<and> tombstone_seconds s \<le> 31536000 \<and>
     SHORTEST_INTERVAL \<le> maintenance_interval_seconds s \<and> maintenance_interval_seconds s \<le> 3600 \<and>
     strip (ollama_model s) \<noteq> [] \<and> length (ollama_model s) \<le> 256 \<and>
     deployment_id s \<noteq> [] \<and> length (deployment_id s) \<le> 128)"

text \<open>
  The address the server binds: loopback, or an address of a private network behind TLS with a
  certificate nobody else can write and a key nobody else can read.
\<close>

definition tls_files_ok :: "host \<Rightarrow> pystr \<Rightarrow> pystr \<Rightarrow> bool" where
  "tls_files_ok host certificate key =
    (\<exists>c k. open_file host certificate = Inr c \<and> open_file host key = Inr k \<and>
       sized_within MAX_TLS_FILE_BYTES c \<and> sized_within MAX_TLS_FILE_BYTES k \<and>
       \<not> mode_forbids host GROUP_OTHER_WRITE c \<and> \<not> mode_forbids host GROUP_OTHER_ALL k)"

definition listens_safely :: "host \<Rightarrow> settings \<Rightarrow> bool" where
  "listens_safely host s = (\<exists>a. ip_address_of (bind_host s) = Some a \<and>
    (case (tls_certificate_path s, tls_key_path s) of
       (None, None) \<Rightarrow> is_loopback a
     | (Some certificate, Some key) \<Rightarrow> tls_files_ok host certificate key \<and>
         (is_loopback a \<or> list_ex (in_network a) PRIVATE_BIND_NETWORKS)
     | _ \<Rightarrow> False))"

lemma validate_tls_Inr:
  assumes "validate_tls_file host path label owner_private = Inr u"
  obtains f where "open_file host path = Inr f" "sized_within MAX_TLS_FILE_BYTES f"
    "\<not> mode_forbids host (if owner_private then GROUP_OTHER_ALL else GROUP_OTHER_WRITE) f"
  using assms that by (auto simp: validate_tls_file_def map_sum_eq_Inr bind_res_eq_Inr split: if_splits)

lemma check_bind_Inr:
  assumes "check_bind host s = Inr u"
  shows "listens_safely host s"
proof -
  obtain a where a: "ip_address_of (bind_host s) = Some a"
    using assms by (auto simp: check_bind_def configuration_def split: option.splits)
  note bind = assms [unfolded check_bind_def a option.case bind_res_eq_Inr check_eq_Inr]
  show ?thesis
  proof (cases "tls_certificate_path s")
    case None
    then show ?thesis using a bind by (auto simp: listens_safely_def split: option.splits)
  next
    case (Some certificate)
    then obtain key where key: "tls_key_path s = Some key" using bind by auto
    from bind Some key have tls: "validate_tls_file host certificate ''TLS certificate'' False = Inr ()"
        "validate_tls_file host key ''TLS key'' True = Inr ()" "is_loopback a \<or> concrete_private a"
      by (auto simp: bind_res_eq_Inr)
    have "tls_files_ok host certificate key"
      using validate_tls_Inr [OF tls(1)] validate_tls_Inr [OF tls(2)] unfolding tls_files_ok_def by (metis (full_types))
    then show ?thesis using a tls(3) Some key by (auto simp: listens_safely_def concrete_private_def)
  qed
qed

lemma check_settings_Inr:
  assumes "check_settings host unsafe s interval = Inr s'"
  shows "loopback_url (ollama_base_url s') \<and> bounded_settings s' \<and> listens_safely host s' \<and>
    lm_studio_fallback s' = lm_studio_fallback s"
proof -
  obtain u where u: "loopback_worker_url unsafe (ollama_base_url s) ''Ollama'' = Inr u"
      "strip (ollama_model s) \<noteq> [] \<and> length (ollama_model s) \<le> 256" "deployment_id s \<noteq> [] \<and> length (deployment_id s) \<le> 128"
      "check_bind host s = Inr ()" "check_bounds s interval = Inr ()"
      "s' = s\<lparr>ollama_base_url := u, maintenance_interval_seconds := (case interval of Finite q \<Rightarrow> q | _ \<Rightarrow> 0)\<rparr>"
    using assms unfolding check_settings_def by (auto simp: bind_res_eq_Inr)
  have "interval_ok interval" using u(5) by (auto simp: check_bounds_def bind_res_eq_Inr)
  then obtain q where q: "interval = Finite q" "SHORTEST_INTERVAL \<le> q" "q \<le> 3600"
    by (auto simp: interval_ok_def split: py_float.splits)
  have "bounded_settings s'"
    using u q unfolding check_bounds_def bounded_settings_def by (simp add: bind_res_eq_Inr)
  moreover have "listens_safely host s'"
    using check_bind_Inr [OF u(4)] u(6) by (simp add: listens_safely_def)
  ultimately show ?thesis using loopback_worker_url_Inr [OF u(1)] u(6) by simp
qed

text \<open>The fallback of checked settings.\<close>

definition fallback_ok :: "host \<Rightarrow> lm_studio_settings \<Rightarrow> bool" where
  "fallback_ok host f = (loopback_url (fallback_base_url f) \<and> fallback_model f \<noteq> [] \<and> \<not> has_space (fallback_model f) \<and>
     length (fallback_model f) \<le> 512 \<and> 1 \<le> fallback_idle_ttl_seconds f \<and> fallback_idle_ttl_seconds f \<le> 3600 \<and>
     (\<exists>token. read_private_token host (fallback_token_path f) ''LM Studio'' = Inr token))"

lemma check_fallback_Inr: "check_fallback host unsafe f = Inr f' \<Longrightarrow> fallback_ok host f'"
  using loopback_worker_url_Inr unfolding check_fallback_def fallback_ok_def by (auto simp: bind_res_eq_Inr)

lemma fallback_from_env_Inr: "fallback_from_env host env = Inr (Some f) \<Longrightarrow> fallback_ok host f"
  using check_fallback_Inr
  by (auto simp: fallback_from_env_def Let_def configuration_def bind_res_eq_Inr map_sum_eq_Inr
      split: if_splits option.splits)

definition safe_settings :: "host \<Rightarrow> settings \<Rightarrow> bool" where
  "safe_settings host s = (loopback_url (ollama_base_url s) \<and> bounded_settings s \<and> listens_safely host s \<and>
     (\<forall>f. lm_studio_fallback s = Some f \<longrightarrow> fallback_ok host f))"

lemma settings_from_env_Inr: "settings_from_env host env = Inr s \<Longrightarrow> safe_settings host s"
proof -
  assume "settings_from_env host env = Inr s"
  then obtain s0 interval other where
      "fallback_from_env host env = Inr other" "lm_studio_fallback s0 = other"
      "check_settings host (unsafe_nfkc env) s0 interval = Inr s"
    unfolding settings_from_env_def by (auto simp only: bind_res_eq_Inr) (metis settings.select_convs(7))
  then show ?thesis
    using check_settings_Inr fallback_from_env_Inr by (fastforce simp: safe_settings_def)
qed

text \<open>The environment leaves the lifetime and the retention at their defaults.\<close>

lemma check_settings_keeps:
  "check_settings host unsafe s interval = Inr s' \<Longrightarrow>
    request_max_lifetime_seconds s' = request_max_lifetime_seconds s \<and> tombstone_seconds s' = tombstone_seconds s"
  by (auto simp: check_settings_def bind_res_eq_Inr)

lemma settings_from_env_defaults:
  assumes "settings_from_env host env = Inr s"
  shows "request_max_lifetime_seconds s = 900 \<and> tombstone_seconds s = 86400"
proof -
  obtain s0 interval where "check_settings host (unsafe_nfkc env) s0 interval = Inr s"
      "request_max_lifetime_seconds s0 = 900" "tombstone_seconds s0 = 86400"
    using assms unfolding settings_from_env_def
    by (auto simp only: bind_res_eq_Inr) (metis settings.select_convs(13,18))
  then show ?thesis using check_settings_keeps by metis
qed

end
