(* ===== verification/Startup_Errors.thy ===== *)
theory Startup_Errors
  imports Startup_Checks
begin

text \<open>
  How reading the files may fail, and what a credential file that was accepted guarantees.
\<close>

subsection \<open>The errors of a host\<close>

text \<open>Opening and reading a file fail with \<open>OSError\<close> only.\<close>

definition os_host :: "host \<Rightarrow> bool" where
  "os_host host = (\<forall>path. raises (\<lambda>e. e = OSError) (open_file host path) \<and>
     (\<forall>f. open_file host path = Inr f \<longrightarrow> raises (\<lambda>e. e = OSError) (file_bytes f)))"

definition plain_reading :: "exn \<Rightarrow> bool" where
  "plain_reading e = (is_value_error e \<or> e = RecursionError)"

interpretation plain_reader: json_reader "plain_hooks host" plain_reading for host
proof
  show "hooks_raise plain_reading (plain_hooks host)"
    by (auto simp: hooks_raise_def plain_hooks_def plain_integer_def plain_reading_def Let_def split: prod.split)
qed (simp_all add: plain_reading_def)

lemma raises_sum: "raises E m \<Longrightarrow> (\<And>e. E e \<Longrightarrow> E' (h e)) \<Longrightarrow> raises E' (map_sum h id m)"
  by (cases m) simp_all

abbreviation configured :: "'a result \<Rightarrow> bool" where
  "configured m \<equiv> raises is_configuration_error m"

lemma configured_faults [simp]: "is_configuration_error (config_fault label message)" "configured (configuration message)"
  by (simp_all add: config_fault_def configuration_def)

lemma read_upto_error: "raises E (file_bytes f) \<Longrightarrow> raises E (read_upto n f)"
  by (cases "file_bytes f") (simp_all add: read_upto_def)

lemma private_json_configured:
  assumes "os_host host" shows "configured (read_private_json host path label)"
proof -
  let ?E = "\<lambda>e. is_configuration_error e \<or> e = OSError \<or> plain_reading e"
  have opened: "raises ?E (open_file host path)"
    using assms by (auto simp: os_host_def intro: raises_mono)
  have read: "raises ?E (read_upto n f)" if "open_file host path = Inr f" for n f
    using assms that by (intro read_upto_error) (auto simp: os_host_def intro: raises_mono)
  have loads: "raises ?E (json_loads (plain_hooks host) limit raw)" for limit raw
    by (rule raises_mono [OF plain_reader.quiet_loads]) simp
  have "raises ?E (private_document host path label)"
    unfolding private_document_def by (intro raises_intros opened read loads) simp_all
  then have "configured (map_sum (\<lambda>e. if e = OSError \<or> is_value_error e \<or> e = RecursionError
      then config_fault label '' file is unavailable or invalid'' else e) id (private_document host path label))"
    by (rule raises_sum) (auto simp: plain_reading_def)
  then show ?thesis unfolding read_private_json_def by (intro raises_intros) (auto split: json.split)
qed

lemma token_configured:
  assumes "os_host host" shows "configured (read_private_token host path label)"
proof -
  let ?E = "\<lambda>e. is_configuration_error e \<or> e = OSError"
  have opened: "raises ?E (open_file host path)"
    using assms by (auto simp: os_host_def intro: raises_mono)
  have read: "raises ?E (read_upto n f)" if "open_file host path = Inr f" for n f
    using assms that by (intro read_upto_error) (auto simp: os_host_def intro: raises_mono)
  have "raises ?E (token_bytes host path label)"
    unfolding token_bytes_def by (intro raises_intros opened read) simp_all
  then have "configured (map_sum (\<lambda>e. if e = OSError then config_fault label '' token file is unavailable'' else e) id
      (token_bytes host path label))"
    by (rule raises_sum) auto
  then show ?thesis unfolding read_private_token_def by (intro raises_intros) simp_all
qed

lemma tls_configured:
  assumes "os_host host" shows "configured (validate_tls_file host path label owner_private)"
proof -
  let ?E = "\<lambda>e. is_configuration_error e \<or> e = OSError"
  have opened: "raises ?E (open_file host path)"
    using assms by (auto simp: os_host_def intro: raises_mono)
  show ?thesis unfolding validate_tls_file_def
  proof (rule raises_sum [of ?E])
    show "raises ?E (bind_res (open_file host path) (\<lambda>f.
       bind_res (check (sized_within MAX_TLS_FILE_BYTES f) (config_fault label '' file is invalid'')) (\<lambda>_.
       check (\<not> (owner_private \<and> mode_forbids host GROUP_OTHER_ALL f \<or>
                 \<not> owner_private \<and> mode_forbids host GROUP_OTHER_WRITE f))
         (config_fault label (if owner_private then '' file must be owner-private''
            else '' file must be not group/world-writable'')))))"
      by (intro raises_intros opened) simp_all
  qed auto
qed

subsection \<open>Settings\<close>

lemma url_configured: "configured (loopback_worker_url unsafe text label)"
  by (auto simp: loopback_worker_url_def split: option.split)

lemma bind_configured: "os_host host \<Longrightarrow> configured (check_bind host s)"
  unfolding check_bind_def
  by (intro raises_intros) (auto intro!: raises_intros tls_configured split: option.split)

lemma bounds_configured: "configured (check_bounds s interval)"
  unfolding check_bounds_def by (intro raises_intros) simp_all

lemma fallback_configured: "os_host host \<Longrightarrow> configured (fallback_from_env host env)"
proof -
  assume os: "os_host host"
  have "configured (check_fallback host unsafe f)" for unsafe f
    unfolding check_fallback_def by (intro raises_intros url_configured token_configured os) simp_all
  then show ?thesis
    unfolding fallback_from_env_def Let_def environment_int_def
    by (auto intro!: raises_intros raises_map_sum split: option.split)
qed

lemma settings_configured:
  assumes os: "os_host host" shows "configured (settings_from_env host env)"
proof -
  have variables: "configured (required_variable env name)" "configured (environment_int env name n)"
      "configured (environment_float env name x)" for name n x
    by (auto simp: required_variable_def environment_int_def environment_float_def split: option.split list.split)
  have "configured (check_settings host unsafe s interval)" for unsafe s interval
    unfolding check_settings_def by (intro raises_intros url_configured bind_configured bounds_configured os) simp_all
  then show ?thesis unfolding settings_from_env_def by (intro raises_intros variables fallback_configured os)
qed

subsection \<open>Credentials\<close>

abbreviation credential_error :: "exn \<Rightarrow> bool" where
  "credential_error e \<equiv> is_configuration_error e \<or> e = UnicodeEncodeError"

lemma encode_error: "raises (\<lambda>e. e = UnicodeEncodeError) (utf8_encode s)"
proof (induction s)
  case (Cons c s)
  then show ?case by (cases "utf8_char c") (simp_all add: raises_bind)
qed simp

lemma tasks_configured: "configured (parse_tasks v)"
proof -
  have "configured (parse_task v)" for v
    by (cases v rule: parse_task.cases) (auto split: json.split)
  then have "configured (map_res parse_task vs)" for vs by (intro raises_map_res)
  then show ?thesis
    by (auto simp: parse_tasks_def simp del: map_res.simps intro!: raises_intros split: json.split list.split)
qed

lemma credential_configured: "raises credential_error (parse_credential sha raw)"
proof -
  have configuration: "raises credential_error (configuration message)" for message
    by (rule raises_mono [OF configured_faults(2)]) simp
  have tasks: "raises credential_error (parse_tasks v)" for v by (rule raises_mono [OF tasks_configured]) simp
  have encoded: "raises credential_error (utf8_encode s)" for s by (rule raises_mono [OF encode_error]) simp
  have text_field: "raises credential_error (case v of JStr s \<Rightarrow> if c s then Inr s else configuration m | _ \<Rightarrow> configuration m)"
    for v m and c :: "pystr \<Rightarrow> bool" by (cases v) (simp_all add: configuration)
  show ?thesis
  proof (cases raw)
    case (JObj ob)
    then show ?thesis
      by (simp only: parse_credential_def json.case)
        (intro raises_intros tasks encoded text_field; simp)
  qed (simp_all add: parse_credential_def configuration)
qed

lemma credentials_configured: "raises credential_error (parse_credentials sha ids digests raws)"
proof (induction raws arbitrary: ids digests)
  case (Cons raw raws)
  then show ?case by (auto intro!: raises_intros credential_configured)
qed simp

lemma document_configured: "raises credential_error (credentials_of_document sha document)"
proof -
  have "raises credential_error (configuration message)" for message
    by (rule raises_mono [OF configured_faults(2)]) simp
  then show ?thesis
    by (auto simp: credentials_of_document_def intro!: raises_intros credentials_configured split: json.split)
qed

lemma file_configured: "os_host host \<Longrightarrow> raises credential_error (credentials_from_file host sha path)"
  unfolding credentials_from_file_def
  by (intro raises_bind document_configured) (auto intro: raises_mono [OF private_json_configured])

text \<open>A file nobody but its owner can read, and tokens that name one credential each.\<close>

definition private_file :: "host \<Rightarrow> pystr \<Rightarrow> bool" where
  "private_file host path = (\<exists>f. open_file host path = Inr f \<and> sized_within (int MAX_CONFIG_BYTES) f \<and>
     \<not> mode_forbids host GROUP_OTHER_ALL f)"

definition credentials_ok :: "(nat list \<Rightarrow> pystr) \<Rightarrow> credential list \<Rightarrow> bool" where
  "credentials_ok sha cs = (cs \<noteq> [] \<and> length cs \<le> MAX_CREDENTIALS \<and> distinct (map identity_hash cs) \<and>
     (\<forall>c \<in> set cs. tasks c \<noteq> {} \<and> (\<forall>token. token_ok token \<and> sha token = token_digest c \<longrightarrow>
        authenticate sha cs token = Some c)))"

lemma read_private_json_Inr: "read_private_json host path label = Inr ob \<Longrightarrow> private_file host path"
  unfolding read_private_json_def private_document_def private_file_def
  by (auto simp: bind_res_eq_Inr map_sum_eq_Inr)

lemma document_ok:
  assumes "credentials_of_document sha document = Inr cs"
  shows "credentials_ok sha cs"
proof -
  obtain raws where raws: "1 \<le> length raws" "length raws \<le> MAX_CREDENTIALS" "parse_credentials sha {} {} raws = Inr cs"
    using assms by (auto simp: credentials_of_document_def bind_res_eq_Inr configuration_def split: json.splits if_splits)
  note cs = parse_credentials_Inr [OF raws(3)]
  have one: "authenticate sha cs token = Some c"
    if c: "c \<in> set cs" and token: "token_ok token" "sha token = token_digest c" for c token
  proof -
    have eq: "(\<lambda>y. sha token = token_digest y) = (\<lambda>y. token_digest y = sha token)" by auto
    have "find (\<lambda>y. sha token = token_digest y) (rev cs) = Some c"
      unfolding eq by (rule find_unique_key) (use cs c token in \<open>simp_all flip: rev_map\<close>)
    then show ?thesis using token(1) by (simp add: authenticate_def fold_last_match)
  qed
  then show ?thesis using cs raws by (auto simp: credentials_ok_def)
qed

lemma credentials_from_file_Inr:
  "credentials_from_file host sha path = Inr cs \<Longrightarrow> private_file host path \<and> credentials_ok sha cs"
  unfolding credentials_from_file_def bind_res_eq_Inr using read_private_json_Inr document_ok by blast

end
