(* ===== verification/Startup_Samples.thy ===== *)
theory Startup_Samples
  imports Startup_Errors Gateway_Deployment Http_Properties
begin

text \<open>
  A host, an environment and files with which the gateway starts: the inputs at which the
  properties of start-up are applied.
\<close>

subsection \<open>Worker URLs\<close>

lemma worker_url_again:
  assumes "is_loopback a" "plain_address a" "0 \<le> port" "port \<le> 65535"
  shows "loopback_worker_url unsafe (worker_url a port) label = Inr (worker_url a port)"
  using worker_url_reads_back [OF assms, of unsafe] assms(1) by (auto simp: loopback_worker_url_def)

lemma accepted_url:
  assumes "loopback_worker_url unsafe text label = Inr u"
  obtains a port where "u = worker_url a port" "is_loopback a" "0 \<le> port" "port \<le> 65535"
    "\<And>v. a = V4 v \<Longrightarrow> v < 2 ^ 32"
proof -
  obtain parsed address port where p: "ip_address_of (hostname parsed) = Some address" "port_of parsed = Some (Some port)"
      "is_loopback address" "u = worker_url address port"
    using assms by (auto simp: loopback_worker_url_def split: option.splits if_splits)
  have "v < 2 ^ 32" if "address = V4 v" for v
    using p(1) that ipv4_value_bound by (auto simp: ip_address_of_def ipv6_of_def Let_def split: option.splits if_splits)
  then show thesis using that p port_of_range by blast
qed

definition local_url :: pystr where
  "local_url = worker_url (V4 2130706433) 11434"

lemma local_url_text: "local_url = py ''http://127.0.0.1:11434''"
  by (simp add: local_url_def worker_url_def authority_def ip_text_def ipv4_text_def octets_def int_text_def
      digits10.simps digit_text_def py_def)

lemma local_url_ok: "loopback_worker_url unsafe local_url label = Inr local_url"
  unfolding local_url_def by (rule worker_url_again) (simp_all add: prefix4_def)

subsection \<open>Samples\<close>

definition quoted :: "string \<Rightarrow> pystr" where
  "quoted s = [34] @ py s @ [34]"

definition sample_credential_text :: pystr where
  "sample_credential_text = List.concat [[123], quoted ''version'', py '':1,'', quoted ''credentials'', py '':[{'',
     quoted ''id'', [58], quoted ''client'', [44], quoted ''token_sha256'', [58, 34], sample_digest_text, [34, 44],
     quoted ''tasks'', py '':[{'', quoted ''id'', [58], quoted ''email.analyze'', [44], quoted ''version'', py '':1}]}]}'']"

definition private_bytes :: "nat list \<Rightarrow> opened_file" where
  "private_bytes bytes = \<lparr>regular_file = True, file_mode = 384, file_size = int (length bytes), file_bytes = Inr bytes\<rparr>"

definition sample_host :: host where
  "sample_host = \<lparr>posix = True,
     open_file = (\<lambda>path.
       if path = py ''credentials.json'' then Inr (private_bytes sample_credential_text)
       else if path = py ''key'' then Inr (private_bytes (replicate 43 65 @ [61, 10]))
       else Inl OSError),
     host_nesting = 900, host_float = (\<lambda>_. Dec False 0 0)\<rparr>"

definition sample_env :: environment where
  "sample_env = \<lparr>variable_of = map_of
     [(''GATEWAY_DATABASE_FILE'', py ''gateway.db''), (''GATEWAY_CREDENTIALS_FILE'', py ''credentials.json''),
      (''GATEWAY_ENCRYPTION_KEY_FILE'', py ''key''), (''GATEWAY_OLLAMA_URL'', py ''http://127.0.0.1:11434''),
      (''GATEWAY_OLLAMA_MODEL'', py ''model''), (''GATEWAY_DEPLOYMENT_ID'', py ''deployment'')],
     round_float = (\<lambda>d. None), unsafe_nfkc = (\<lambda>_. False)\<rparr>"

lemma sample_credential_document:
  "json_loads (plain_hooks sample_host) 900 sample_credential_text = Inr (JObj sample_credentials)"
  by code_simp

lemma sample_os: "os_host sample_host"
  by (auto simp: os_host_def sample_host_def private_bytes_def)

lemma local_bind: "ip_address_of [49, 50, 55, 46, 48, 46, 48, 46, 49] = Some (V4 2130706433)"
proof -
  have "ipv4_text 2130706433 = [49, 50, 55, 46, 48, 46, 48, 46, 49]"
    by (simp add: ipv4_text_def octets_def int_text_def digits10.simps digit_text_def py_def)
  then show ?thesis using ipv4_round [of 2130706433] by (simp add: ip_address_of_def)
qed

lemma sample_checks:
  "check_bind sample_host sample_settings = Inr ()" "check_bounds sample_settings (Finite 30) = Inr ()"
  by (simp_all add: check_bind_def check_bounds_def sample_settings_def py_def local_bind prefix4_def check_def
      MAX_REQUEST_BYTES_def interval_ok_def SHORTEST_INTERVAL_def)

lemma sample_settings_checked:
  "check_settings sample_host (\<lambda>_. False) sample_settings (Finite 30) = Inr sample_settings"
  using local_url_ok [of "\<lambda>_. False" "''Ollama''", unfolded local_url_text] sample_checks
  by (simp add: check_settings_def sample_settings_def check_def py_def strip_no_space has_space_def is_space_def)

lemma sample_settings_read: "settings_from_env sample_host sample_env = Inr sample_settings"
  using sample_settings_checked
  by (simp add: settings_from_env_def required_variable_def sample_env_def py_def environment_int_def environment_float_def
     fallback_from_env_def optional_path_def sample_settings_def MAX_REQUEST_BYTES_def)

subsection \<open>A start\<close>

lemma sample_key: "key_from_file sample_host (py ''key'') = Inr (replicate 32 0)"
  by code_simp

lemma sample_credentials_read:
  "credentials_from_file sample_host (\<lambda>_. sample_digest_text) (py ''credentials.json'') = Inr (app_credentials sample_app)"
proof -
  let ?file = "private_bytes sample_credential_text"
  have sized: "sample_credential_text \<noteq> []" "length sample_credential_text \<le> 131072"
    by (simp_all add: sample_credential_text_def quoted_def py_def sample_digest_text_def)
  have "open_file sample_host (py ''credentials.json'') = Inr ?file" "host_nesting sample_host = 900"
    by (simp_all add: sample_host_def)
  moreover have "sized_within (int MAX_CONFIG_BYTES) ?file" "read_upto (MAX_CONFIG_BYTES + 1) ?file = Inr sample_credential_text"
    using sized by (simp_all add: sized_within_def private_bytes_def read_upto_def MAX_CONFIG_BYTES_def)
  moreover have "\<not> mode_forbids sample_host GROUP_OTHER_ALL ?file" by code_simp
  ultimately have "read_private_json sample_host (py ''credentials.json'') ''credential'' = Inr sample_credentials"
    using sized sample_credential_document
    by (simp add: read_private_json_def private_document_def MAX_CONFIG_BYTES_def check_def)
  then show ?thesis using sample_loaded by (simp add: credentials_from_file_def sample_app_def)
qed

definition sample_libraries :: libraries where
  "sample_libraries = \<lparr>lib_sha256 = (\<lambda>_. sample_digest_text), lib_aesgcm = (\<lambda>_. plain_cipher), lib_to_float = id,
     lib_check_schema = (\<lambda>_. True)\<rparr>"

definition empty_database :: database where
  "empty_database = \<lparr>db_tables = {}, db_columns = (\<lambda>_. {}), db_versions = [], db_rows = []\<rparr>"

definition started_app :: gateway_app where
  "started_app = \<lparr>built_application = \<lparr>
       app_service = \<lparr>the_settings = sample_settings, the_store = store_config_of sample_settings,
         the_cipher = plain_cipher, sha256_hex = (\<lambda>_. sample_digest_text)\<rparr>,
       app_credentials = app_credentials sample_app, app_nesting = 900, app_to_float = id,
       app_check_schema = (\<lambda>_. True)\<rparr>,
     built_worker = choose_worker sample_settings []\<rparr>"

definition sample_disk :: disk where
  "sample_disk = \<lparr>opened = Inr (), settled = Inr (), later_host = sample_host\<rparr>"

lemma sample_initialized:
  obtains db where "initialize (store_config_of sample_settings) now empty_database = (Inr (), db)"
  using initialize_fresh [of empty_database] by (auto simp: empty_database_def)

lemma sample_created:
  obtains db where "create_app sample_libraries sample_host sample_disk sample_env now empty_database = (Inr started_app, db)"
    "main_program sample_libraries sample_host sample_disk sample_env now empty_database =
      (Inr (started_app, arguments_of sample_settings), db)"
proof -
  obtain db where db: "initialize (store_config_of sample_settings) now empty_database = (Inr (), db)"
    by (rule sample_initialized)
  have paths: "credentials_path sample_settings = py ''credentials.json''" "encryption_key_path sample_settings = py ''key''"
      "lm_studio_fallback sample_settings = None"
    by (simp_all add: sample_settings_def)
  have "create_app sample_libraries sample_host sample_disk sample_env now empty_database = (Inr started_app, db)"
    using db by (simp add: create_app_def initialize_store_def sample_disk_def sample_settings_read paths sample_key sample_credentials_read sample_libraries_def
        worker_token_def started_app_def) (simp add: sample_host_def)
  then show thesis using that by (simp add: main_program_def started_app_def)
qed

end
