(* ===== verification/Startup_Properties.thy ===== *)
theory Startup_Properties
  imports Startup_Samples
begin

text \<open>
  The properties of start-up: what the settings, the files and the workers of a gateway that
  starts are known to be.
\<close>

subsection \<open>Worker URLs\<close>

text \<open>
  C31: The URL of a worker is normalised once and for all: what \<open>_loopback_worker_url\<close> returns is
  \<open>http://\<close>, a loopback address and a port, and unless the address has a scope identifier
  checking it again returns it unchanged.
\<close>

theorem worker_url_stable:
  assumes "loopback_worker_url unsafe text label = Inr u"
  shows "\<exists>a port. u = worker_url a port \<and> is_loopback a \<and> 0 \<le> port \<and> port \<le> 65535 \<and>
    ((\<forall>v scope. a \<noteq> V6 v (Some scope)) \<longrightarrow> loopback_worker_url unsafe' u label' = Inr u)"
proof (rule accepted_url [OF assms], intro exI conjI impI)
  fix a port
  assume a: "u = worker_url a port" "is_loopback a" "0 \<le> port" "port \<le> 65535" "\<And>v. a = V4 v \<Longrightarrow> v < 2 ^ 32"
    and unscoped: "\<forall>v scope. a \<noteq> V6 v (Some scope)"
  have "plain_address a"
  proof (cases a)
    case (V6 v scope)
    then show ?thesis using unscoped by (cases scope) auto
  qed (use a(5) in simp)
  then show "loopback_worker_url unsafe' u label' = Inr u" using worker_url_again a by blast
qed

theorem worker_url_stable_witness:
  "\<exists>a port. py ''http://127.0.0.1:11434'' = worker_url a port \<and> is_loopback a \<and> 0 \<le> port \<and> port \<le> 65535"
  using worker_url_stable [OF local_url_ok [of "\<lambda>_. False" "''Ollama''", unfolded local_url_text]] by blast

subsection \<open>A started gateway\<close>

lemma create_app_Inr:
  assumes "create_app lib host disk env now db = (Inr app, db')"
  obtains s credentials key token where
    "settings_from_env host env = Inr s" "credentials_from_file host (lib_sha256 lib) (credentials_path s) = Inr credentials"
    "key_from_file host (encryption_key_path s) = Inr key" "initialize (store_config_of s) now db = (Inr (), db')"
    "worker_token (later_host disk) s = Inr token" "the_settings (app_service (built_application app)) = s"
    "the_store (app_service (built_application app)) = store_config_of s"
    "app_credentials (built_application app) = credentials" "built_worker app = choose_worker s token"
  using assms that unfolding create_app_def initialize_store_def
  by (auto simp: bind_res_eq_Inr split: sum.splits prod.splits)

text \<open>
  C30: A gateway that starts runs on settings within their documented ranges, whatever the
  environment says: the port, the byte and time limits, the retry interval and the tombstone
  retention are positive and bounded, the store admits at least one open request per credential,
  no more per credential than in all, and at most 10000 in all, and it remembers a settled
  request for longer than any request may live.
\<close>

theorem started_settings_bounded:
  assumes "create_app lib host disk env now db = (Inr app, db')"
  shows "bounded_settings (the_settings (app_service (built_application app))) \<and>
    1 \<le> max_open_per_credential (the_store (app_service (built_application app))) \<and>
    max_open_per_credential (the_store (app_service (built_application app)))
      \<le> max_open_total (the_store (app_service (built_application app))) \<and>
    max_open_total (the_store (app_service (built_application app))) \<le> 10000 \<and>
    request_max_lifetime_seconds (the_settings (app_service (built_application app)))
      < tombstone_retention_seconds (the_store (app_service (built_application app)))"
proof (rule create_app_Inr [OF assms])
  fix s
  assume s: "settings_from_env host env = Inr s" "the_settings (app_service (built_application app)) = s"
    "the_store (app_service (built_application app)) = store_config_of s"
  have "bounded_settings s" using settings_from_env_Inr [OF s(1)] by (simp add: safe_settings_def)
  then show ?thesis using s(2,3) settings_from_env_defaults [OF s(1)] by (auto simp: store_config_of_def bounded_settings_def)
qed

theorem started_settings_bounded_witness:
  "bounded_settings (the_settings (app_service (built_application started_app)))"
  by (rule sample_created [of 0], drule started_settings_bounded) simp

text \<open>
  C26: The server never listens in the open: the address \<open>main\<close> hands to it is an IP address that
  is loopback, or one of a private network, served over TLS with a certificate no other user can
  write and a key no other user can read.
\<close>

theorem server_binds_safely:
  assumes "main_program lib host disk env now db = (Inr (app, args), db')"
  shows "\<exists>a. ip_address_of (server_host args) = Some a \<and> 1 \<le> server_port args \<and> server_port args \<le> 65535 \<and>
    (is_loopback a \<or> list_ex (in_network a) PRIVATE_BIND_NETWORKS \<and>
      (\<exists>certificate key. ssl_certfile args = Some certificate \<and> ssl_keyfile args = Some key \<and>
        tls_files_ok host certificate key))"
proof -
  have start: "create_app lib host disk env now db = (Inr app, db')"
    and args: "args = arguments_of (the_settings (app_service (built_application app)))"
    using assms by (auto simp: main_program_def split: sum.splits prod.splits)
  then obtain s where s: "safe_settings host s" "args = arguments_of s"
    using settings_from_env_Inr by (metis create_app_Inr)
  then show ?thesis
    by (auto simp: safe_settings_def listens_safely_def bounded_settings_def arguments_of_def split: option.splits)
qed

theorem server_binds_safely_witness:
  "\<exists>a. ip_address_of (bind_host sample_settings) = Some a \<and>
    (is_loopback a \<or> list_ex (in_network a) PRIVATE_BIND_NETWORKS)"
  by (rule sample_created [of 0], drule server_binds_safely) (auto simp: arguments_of_def)

text \<open>
  C25: The traffic of the workers stays on the machine: every call of a started gateway's worker,
  for an inference or a health check, goes to a loopback address over HTTP, and the token of the
  fallback is sent to the fallback's own URL and nowhere else.
\<close>

theorem traffic_stays_local:
  assumes "create_app lib host disk env now db = (Inr app, db')"
    "Call_Server call \<in> set (fst (play (start_infer tools (built_worker app) request timeout) rs u)) \<union>
       set (fst (play (start_health tools (built_worker app) name timeout') rs' u'))"
  shows "loopback_url (call_base call) \<and>
    (py ''Authorization'' \<in> fst ` set (call_headers call) \<longrightarrow>
      (\<exists>f. lm_studio_fallback (the_settings (app_service (built_application app))) = Some f \<and>
        call_base call = fallback_base_url f))"
proof (rule create_app_Inr [OF assms(1)])
  fix s token
  assume s: "settings_from_env host env = Inr s" "the_settings (app_service (built_application app)) = s"
    "built_worker app = choose_worker s token"
  have safe: "loopback_url (ollama_base_url s)" "lm_studio_fallback s = Some f \<Longrightarrow> loopback_url (fallback_base_url f)" for f
    using settings_from_env_Inr [OF s(1)] by (auto simp: safe_settings_def fallback_ok_def)
  have "within_workers (built_worker app) (Call_Server call)"
    using assms(2) asks_asked [OF start_infer_asks] asks_asked [OF start_health_asks] by blast
  then obtain w where w: "w \<in> workers_of (choose_worker s token)" "goes_to w (Call_Server call)" using s(3) by auto
  then have "(worker_kind w = Ollama \<and> base_url w = ollama_base_url s) \<or>
      (\<exists>f. lm_studio_fallback s = Some f \<and> base_url w = fallback_base_url f)"
    by (auto simp: workers_of_def choose_worker_def Let_def split: option.splits)
  then show ?thesis using w(2) safe s(2)
    by (auto simp: goes_to_def client_headers_def py_def split: worker_kind.splits)
qed

lemma start_health_call:
  "Call_Server (server_get w timeout timeout ''/v1/models'') \<in> set (fst (play (start_health tools (Single w) name timeout) [] ()))"
  by (simp add: start_health_def worker_health_def worker_availability_def raw_availability_def with_answer_def
      call_server_def bind_p_def try_except_def)

theorem traffic_stays_local_witness:
  "loopback_url (py ''http://127.0.0.1:11434'')"
proof -
  have w: "built_worker started_app = Single sample_worker"
    by (simp add: started_app_def choose_worker_def sample_settings_def sample_worker_def)
  obtain db where "create_app sample_libraries sample_host sample_disk sample_env 0 empty_database = (Inr started_app, db)"
    by (rule sample_created)
  from traffic_stays_local [OF this, of "server_get sample_worker 5 5 ''/v1/models''" sample_tools _ _ _ _ None 5 "[]" "()"]
  show ?thesis using start_health_call [of sample_worker 5 sample_tools None] by (simp add: w server_get_def sample_worker_def)
qed

text \<open>
  C27: Reading the credential file either fails with a configuration error (or, for an identity
  that UTF-8 cannot encode, with \<open>UnicodeEncodeError\<close>), or the file is a regular, small,
  owner-private one and its credentials are usable: there is at least one, no two share an
  identity, each may use some task, and the token of each authenticates as that credential.
\<close>

theorem credential_file_outcomes:
  assumes "os_host host"
  shows "case credentials_from_file host sha path of
      Inl e \<Rightarrow> credential_error e
    | Inr cs \<Rightarrow> private_file host path \<and> credentials_ok sha cs"
  using file_configured [OF assms, of sha path] credentials_from_file_Inr [of host sha path]
  by (auto split: sum.split)

theorem credential_file_outcomes_witness:
  "credentials_ok (\<lambda>_. sample_digest_text) (app_credentials sample_app)"
  using credential_file_outcomes [OF sample_os, of "py ''credentials.json''" "\<lambda>_. sample_digest_text"]
  by (simp add: sample_credentials_read)

lemma key_errors: "os_host host \<Longrightarrow> raises is_store_error (key_from_file host path)"
proof -
  assume os: "os_host host"
  let ?E = "\<lambda>e. is_store_error e \<or> e = OSError"
  have "raises ?E (open_file host path)" "open_file host path = Inr f \<Longrightarrow> raises ?E (read_upto n f)" for f n
    using os by (auto simp: os_host_def intro: raises_mono read_upto_error)
  then have "raises ?E (key_bytes host path)"
    unfolding key_bytes_def by (intro raises_intros) simp_all
  then have "raises is_store_error (map_sum (\<lambda>e. if e = OSError
      then StoreFault ''encryption key file is unavailable'' else e) id (key_bytes host path))"
    by (rule raises_sum) auto
  then show ?thesis
    unfolding key_from_file_def check_key_def by (intro raises_intros) (auto split: option.split)
qed

lemma initialize_errors: "initialize cfg now db = (Inl e, db') \<Longrightarrow> db' = db \<and> (is_store_error e \<or> e = OperationalError)"
proof -
  assume failed: "initialize cfg now db = (Inl e, db')"
  have "db' = db" using failed unfolding initialize_def by (rule atomically_error)
  moreover have "fst (initialize cfg now db) = Inl e" using failed by simp
  then have "is_store_error e \<or> e = OperationalError"
    using tables_differ unfolding initialize_def
    by (auto simp: result_simps create_schema_def version_rows_def validate_schema_columns_def act_bind_def
        split: list.splits option.splits if_splits)
  ultimately show ?thesis by simp
qed

text \<open>While the files stay as they are, the token that was read for the settings is read again.\<close>

lemma worker_token_read: "safe_settings host s \<Longrightarrow> \<exists>token. worker_token host s = Inr token"
  by (auto simp: safe_settings_def fallback_ok_def worker_token_def split: option.split)

text \<open>The I/O around the transaction fails with \<open>OSError\<close> or an error of SQLite only.\<close>

definition os_disk :: "disk \<Rightarrow> bool" where
  "os_disk disk = (raises (\<lambda>e. e = OSError \<or> e = OperationalError) (opened disk) \<and>
     raises (\<lambda>e. e = OSError \<or> e = OperationalError) (settled disk) \<and> os_host (later_host disk))"

lemma worker_token_error:
  "os_host host \<Longrightarrow> worker_token host s = Inl e \<Longrightarrow> is_configuration_error e \<and> lm_studio_fallback s \<noteq> None"
  using token_configured by (fastforce simp: worker_token_def raises_def split: option.splits)

text \<open>
  C33: A start that fails changes nothing unless it fails after the commit of \<open>initialize\<close>.  Either
  the database is the one that was found, and the error is a configuration error,
  \<open>UnicodeEncodeError\<close> for a credential identity that UTF-8 cannot encode, an error of the store,
  the \<open>OperationalError\<close> of a table that lacks a column, or the error with which the database
  could not be opened; or the database is the one \<open>initialize\<close> committed, and the error is that of
  the journal mode or the file mode, or a configuration error of the fallback's token file, which
  was readable before and no longer is.  As long as neither happens, nothing has changed.
\<close>

theorem failed_start_changes_nothing:
  assumes "os_host host" "os_disk disk" "create_app lib host disk env now db = (Inl e, db')"
  shows "(db' = db \<and> (credential_error e \<or> is_store_error e \<or> e = OperationalError \<or> opened disk = Inl e) \<or>
     (\<exists>s. settings_from_env host env = Inr s \<and> opened disk = Inr () \<and>
        initialize (store_config_of s) now db = (Inr (), db') \<and>
        (settled disk = Inl e \<and> (e = OSError \<or> e = OperationalError) \<or>
         lm_studio_fallback s \<noteq> None \<and> worker_token (later_host disk) s = Inl e \<and> is_configuration_error e))) \<and>
    (settled disk = Inr () \<and> later_host disk = host \<longrightarrow> db' = db)"
proof (cases "settings_from_env host env")
  case (Inl e0)
  then show ?thesis using assms(3) settings_configured [OF assms(1), of env] by (auto simp: create_app_def)
next
  case (Inr s)
  have safe: "safe_settings host s" by (rule settings_from_env_Inr [OF Inr])
  have disk: "opened disk = Inl x \<Longrightarrow> x = OSError \<or> x = OperationalError"
    "settled disk = Inl x \<Longrightarrow> x = OSError \<or> x = OperationalError" "os_host (later_host disk)" for x
    using assms(2) by (auto simp: os_disk_def raises_def)
  show ?thesis
    using assms(3) worker_token_read [OF safe] file_configured [OF assms(1), of "lib_sha256 lib" "credentials_path s"]
      key_errors [OF assms(1), of "encryption_key_path s"] initialize_errors [of "store_config_of s" now db]
      worker_token_error [OF disk(3), of s] disk(2)
    by (auto simp: create_app_def initialize_store_def Inr bind_res_def split: sum.splits prod.splits)
qed

definition full_disk :: disk where
  "full_disk = sample_disk\<lparr>settled := Inl OperationalError\<rparr>"

theorem failed_start_changes_nothing_witness:
  "snd (create_app sample_libraries sample_host sample_disk (sample_env\<lparr>variable_of := (\<lambda>_. None)\<rparr>) 0 empty_database) = empty_database \<and>
   (\<exists>db'. create_app sample_libraries sample_host full_disk sample_env 0 empty_database = (Inl OperationalError, db') \<and>
     (db' = empty_database \<or> initialize (store_config_of sample_settings) 0 empty_database = (Inr (), db')))"
proof
  obtain e db where "create_app sample_libraries sample_host sample_disk (sample_env\<lparr>variable_of := (\<lambda>_. None)\<rparr>) 0 empty_database = (Inl e, db)"
    by (simp add: create_app_def settings_from_env_def required_variable_def configuration_def)
  moreover have "os_disk sample_disk" using sample_os by (simp add: os_disk_def sample_disk_def)
  ultimately show "snd (create_app sample_libraries sample_host sample_disk (sample_env\<lparr>variable_of := (\<lambda>_. None)\<rparr>) 0 empty_database) = empty_database"
    using failed_start_changes_nothing [OF sample_os] by (simp add: sample_disk_def)
next
  obtain db where db: "initialize (store_config_of sample_settings) 0 empty_database = (Inr (), db)"
    by (rule sample_initialized)
  have paths: "credentials_path sample_settings = py ''credentials.json''" "encryption_key_path sample_settings = py ''key''"
    by (simp_all add: sample_settings_def)
  have "create_app sample_libraries sample_host full_disk sample_env 0 empty_database = (Inl OperationalError, db)"
    using db by (simp add: create_app_def initialize_store_def full_disk_def sample_disk_def sample_settings_read paths
        sample_key sample_credentials_read sample_libraries_def)
  moreover have "os_disk full_disk" using sample_os by (simp add: os_disk_def full_disk_def sample_disk_def)
  ultimately show "\<exists>db'. create_app sample_libraries sample_host full_disk sample_env 0 empty_database = (Inl OperationalError, db') \<and>
     (db' = empty_database \<or> initialize (store_config_of sample_settings) 0 empty_database = (Inr (), db'))"
    using failed_start_changes_nothing [OF sample_os] sample_settings_read by fastforce
qed

end
