(* ===== verification/Proof_Script.thy ===== *)
theory Proof_Script
  imports Config_Settings Program_Outcomes
begin

text \<open>
  scripts/prove_operational_gateway.py: the client an operator runs against a gateway.  The
  script is a program over the calls it makes, the clocks, the identifiers it draws, the file
  between its two restart phases and the lines it prints.
\<close>

subsection \<open>Python values\<close>

text \<open>
  \<open>==\<close> on what \<open>json.loads\<close> builds: numbers and booleans by value, dictionaries whatever the order
  of their keys.  NaN, which equals nothing, is the only \<open>JDec\<close> of the script.
\<close>

fun num_value :: "json \<Rightarrow> rat option" where
  "num_value (JBool b) = Some (if b then 1 else 0)"
| "num_value (JInt n) = Some (of_int n)"
| "num_value (JFloat d) = Some (dec_value d)"
| "num_value _ = None"

function (sequential) py_equal :: "json \<Rightarrow> json \<Rightarrow> bool" where
  "py_equal (JObj a) (JObj b) =
    (length a = length b \<and> list_all (\<lambda>(k, v). case map_of b k of None \<Rightarrow> False | Some w \<Rightarrow> py_equal v w) a)"
| "py_equal (JList vs) (JList ws) = (length vs = length ws \<and> list_all (\<lambda>(v, w). py_equal v w) (zip vs ws))"
| "py_equal (JStr s) (JStr t) = (s = t)"
| "py_equal JNull JNull = True"
| "py_equal v w = (case (num_value v, num_value w) of (Some x, Some y) \<Rightarrow> x = y | _ \<Rightarrow> False)"
  by pat_completeness auto
termination
proof (relation "measure (\<lambda>(v, w). size v)")
  fix a :: jobj and x k v
  assume "x \<in> set a" "(k, v) = x"
  then have "size_prod (\<lambda>_. 0) size (k, v) \<le> size_list (size_prod (\<lambda>_. 0) size) a" by (induction a) auto
  then show "((v, w), (JObj a, JObj b)) \<in> measure (\<lambda>(v, w). size v)" for b w by simp
next
  fix vs ws :: "json list" and x v w
  assume "x \<in> set (zip vs ws)" "(v, w) = x"
  then have "v \<in> set vs" by (metis set_zip_leftD)
  then have "size v \<le> size_list size vs" by (induction vs) auto
  then show "((v, w), (JList vs, JList ws)) \<in> measure (\<lambda>(v, w). size v)" by simp
qed simp

text \<open>\<open>value[key]\<close>\<close>

definition list_index :: "'a list \<Rightarrow> int \<Rightarrow> 'a result" where
  "list_index xs i =
    (let j = (if i < 0 then i + int (length xs) else i)
     in if 0 \<le> j \<and> j < int (length xs) then Inr (xs ! nat j) else Inl LookupError)"

fun as_index :: "json \<Rightarrow> int option" where
  "as_index (JInt n) = Some n"
| "as_index (JBool b) = Some (if b then 1 else 0)"
| "as_index _ = None"

definition subscript :: "json \<Rightarrow> json \<Rightarrow> json result" where
  "subscript value key =
    (case value of
       JObj ob \<Rightarrow>
         (case key of
            JStr k \<Rightarrow> (case map_of ob k of Some v \<Rightarrow> Inr v | None \<Rightarrow> Inl LookupError)
          | JObj _ \<Rightarrow> Inl TypeError
          | JList _ \<Rightarrow> Inl TypeError
          | _ \<Rightarrow> Inl LookupError)
     | JList vs \<Rightarrow> (case as_index key of Some i \<Rightarrow> list_index vs i | None \<Rightarrow> Inl TypeError)
     | JStr s \<Rightarrow> (case as_index key of Some i \<Rightarrow> map_sum id (\<lambda>c. JStr [c]) (list_index s i) | None \<Rightarrow> Inl TypeError)
     | _ \<Rightarrow> Inl TypeError)"

definition item :: "json result \<Rightarrow> string \<Rightarrow> json result" where
  "item m k = bind_res m (\<lambda>v. subscript v (JStr (py k)))"

definition first_item :: "json result \<Rightarrow> json result" where
  "first_item m = bind_res m (\<lambda>v. subscript v (JInt 0))"

definition script_hooks :: "host \<Rightarrow> json_hooks" where
  "script_hooks host = (plain_hooks host)\<lparr>parse_constant :=
     (\<lambda>w. Inr (if w = ''NaN'' then JDec (Dec False 0 0) else JFloat (host_float host (py w))))\<rparr>"

definition proof_error :: "string \<Rightarrow> 'a result" where
  "proof_error message = Inl (ProofError message)"

definition text_loads :: "host \<Rightarrow> pystr \<Rightarrow> json result" where
  "text_loads host s =
    (if take 1 s = [65279] then Inl (ValueError ''Unexpected UTF-8 BOM'')
     else json_loads_text (script_hooks host) (host_nesting host) s)"

subsection \<open>Origin and tokens\<close>

definition strip_slashes :: "pystr \<Rightarrow> pystr" where
  "strip_slashes s = rev (dropWhile (\<lambda>c. c = 47) (rev s))"

definition origin_url :: "ip_address \<Rightarrow> int \<Rightarrow> pystr" where
  "origin_url a port = py ''https://'' @ authority a @ [58] @ int_text port"

definition origin :: "(pystr \<Rightarrow> bool) \<Rightarrow> pystr \<Rightarrow> pystr result" where
  "origin unsafe value =
    (case urlsplit unsafe (strip_slashes value) of
       None \<Rightarrow> proof_error ''base URL must be an explicit loopback HTTPS origin''
     | Some parsed \<Rightarrow>
         (case (ip_address_of (hostname parsed), port_of parsed) of
            (Some address, Some port) \<Rightarrow>
              if url_scheme parsed \<noteq> py ''https'' \<or> \<not> is_loopback address \<or> port = None \<or> has_userinfo parsed \<or>
                 url_path parsed \<notin> {[], py ''/''} \<or> url_query parsed \<noteq> [] \<or> url_fragment parsed \<noteq> []
              then proof_error ''base URL must be an explicit loopback HTTPS origin''
              else Inr (origin_url address (the port))
          | _ \<Rightarrow> proof_error ''base URL must be an explicit loopback HTTPS origin''))"

text \<open>\<open>open_file\<close> of the script's host stands for \<open>lstat\<close> and reading: a link is no regular file.\<close>

definition application_token :: "host \<Rightarrow> pystr \<Rightarrow> pystr result" where
  "application_token host path =
    bind_res (map_sum (\<lambda>e. if e = OSError \<or> is_value_error e
        then ProofError ''credential file is unavailable or invalid'' else e) id
      (bind_res (open_file host path) (\<lambda>f.
       bind_res (check (regular_file f \<and> file_size f \<le> 512 \<and> \<not> mode_forbids host GROUP_OTHER_ALL f)
         (ProofError ''credential file is invalid or not owner-private'')) (\<lambda>_.
       bind_res (file_bytes f) (\<lambda>encoded.
       bind_res (check (is_ascii_text encoded) (ValueError ''ascii'')) (\<lambda>_.
       Inr (strip encoded))))))) (\<lambda>token.
    bind_res (check (32 \<le> length token \<and> length token \<le> 512 \<and> \<not> has_space token)
      (ProofError ''credential file is invalid'')) (\<lambda>_.
    Inr token))"

subsection \<open>Interactions\<close>

record client_call =
  sent_method :: string
  sent_base :: pystr
  sent_path :: pystr
  sent_headers :: "(pystr \<times> pystr) list"
  sent_document :: "json option"

record client_response =
  got_status :: int
  got_media :: "pystr option"
  got_body :: "nat list"

datatype client_question =
    Http_Call client_call
  | Open_Client pystr pystr
  | Close_Client
  | Next_Uuid
  | Read_Utc
  | Read_Timer
  | Print_Event jobj
  | Prepare_Directory pystr
  | Create_State pystr jobj
  | Stat_State pystr
  | Read_State pystr

text \<open>\<open>Created False\<close>: the file exists.  \<open>State_Text\<close> is what \<open>read_text\<close> returns or raises.\<close>

datatype client_reply =
    Response "client_response result"
  | Settled "unit result"
  | Drawn pystr
  | Utc datetime
  | Timer rat
  | Mode "nat result"
  | Created "bool result"
  | State_Text "pystr result"

type_synonym 'a client = "(unit, client_question, client_reply, 'a) program"

definition draw_uuid :: "pystr client" where
  "draw_uuid = Ask Next_Uuid (\<lambda>r. case r of Drawn s \<Rightarrow> give s | _ \<Rightarrow> throw AssertionError)"

definition read_utc :: "datetime client" where
  "read_utc = Ask Read_Utc (\<lambda>r. case r of Utc t \<Rightarrow> give t | _ \<Rightarrow> throw AssertionError)"

definition read_timer :: "rat client" where
  "read_timer = Ask Read_Timer (\<lambda>r. case r of Timer t \<Rightarrow> give t | _ \<Rightarrow> throw AssertionError)"

definition settle :: "client_question \<Rightarrow> unit client" where
  "settle q = Ask q (\<lambda>r. case r of Settled x \<Rightarrow> Finish x | _ \<Rightarrow> throw AssertionError)"

definition emit_event :: "string \<Rightarrow> jobj \<Rightarrow> unit client" where
  "emit_event event details = settle (Print_Event ((py ''event'', JStr (py event)) # details))"

fun each_p :: "('a \<Rightarrow> unit client) \<Rightarrow> 'a list \<Rightarrow> unit client" where
  "each_p f [] = give ()"
| "each_p f (x # xs) = bind_p (f x) (\<lambda>_. each_p f xs)"

subsection \<open>Requests\<close>

text \<open>The temperature, the field and its expected value of each task.\<close>

definition TASKS :: "(pystr \<times> decimal \<times> pystr \<times> pystr) list" where
  "TASKS =
    [(py ''email.analyze'', Dec False 1 (-1), py ''classification'', py ''synthetic''),
     (py ''email.schedule.extract'', Dec False 1 (-1), py ''intent'', py ''none''),
     (py ''document.summary.step'', Dec False 0 (-1), py ''summary'', py ''synthetic''),
     (py ''invoice.extract.batch'', Dec False 0 (-1), py ''invoice_status'', py ''synthetic'')]"

definition proof_schema :: "pystr \<Rightarrow> pystr \<Rightarrow> jobj" where
  "proof_schema field expected =
    [(py ''type'', JStr (py ''object'')),
     (py ''properties'', JObj [(field, JObj [(py ''type'', JStr (py ''string'')), (py ''enum'', JList [JStr expected])])]),
     (py ''required'', JList [JStr field]),
     (py ''additionalProperties'', JBool False)]"

definition proof_document :: "pystr \<Rightarrow> decimal \<Rightarrow> pystr \<Rightarrow> pystr \<Rightarrow> pystr \<Rightarrow> pystr \<Rightarrow> jobj" where
  "proof_document name warmth field expected rid expires =
    [(py ''protocol_version'', JInt 1),
     (py ''request_id'', JStr rid),
     (py ''request_expires_at'', JStr expires),
     (py ''task'', JObj [(py ''id'', JStr name), (py ''version'', JInt 1)]),
     (py ''requirements'', JObj
       [(py ''input_modalities'', JList [JStr (py ''text'')]),
        (py ''output_media_type'', JStr (py ''application/json'')),
        (py ''structured_output'', JBool True),
        (py ''max_output_tokens'', JInt 64)]),
     (py ''generation'', JObj
       [(py ''messages'', JList
          [JObj [(py ''role'', JStr (py ''system'')),
             (py ''content'', JStr (py ''Return only JSON; set '' @ field @ py '' to '' @ expected @ [46]))],
           JObj [(py ''role'', JStr (py ''user'')),
             (py ''content'', JStr (py ''Synthetic operational transport proof.''))]]),
        (py ''temperature'', JFloat warmth),
        (py ''seed'', JInt 7),
        (py ''response_schema'', JObj (proof_schema field expected))])]"

definition new_request :: "pystr \<Rightarrow> int \<Rightarrow> jobj client" where
  "new_request name lifetime_seconds =
    (case map_of TASKS name of
       None \<Rightarrow> throw LookupError
     | Some (warmth, field, expected) \<Rightarrow>
         bind_p draw_uuid (\<lambda>rid.
         bind_p read_utc (\<lambda>now.
         give (proof_document name warmth field expected rid (timestamp (now + lifetime_seconds * 1000000))))))"

subsection \<open>Calls\<close>

record operator_proof =
  email_token :: pystr
  document_token :: pystr
  invoice_token :: pystr
  proof_base :: pystr

definition response_object :: "host \<Rightarrow> client_response \<Rightarrow> jobj result" where
  "response_object host response =
    bind_res (check (before 59 (case got_media response of None \<Rightarrow> [] | Some v \<Rightarrow> v) = py ''application/json'')
      (ProofError ''gateway response media type is invalid'')) (\<lambda>_.
    bind_res (map_sum (\<lambda>e. if is_value_error e \<or> e = RecursionError
        then ProofError ''gateway response is invalid JSON'' else e) id
      (json_loads (script_hooks host) (host_nesting host) (got_body response))) (\<lambda>document.
    case document of JObj ob \<Rightarrow> Inr ob | _ \<Rightarrow> proof_error ''gateway response must be an object''))"

definition call_of :: "operator_proof \<Rightarrow> string \<Rightarrow> pystr \<Rightarrow> pystr option \<Rightarrow> json option \<Rightarrow> client_call" where
  "call_of p verb path token body = \<lparr>sent_method = verb, sent_base = proof_base p, sent_path = path,
     sent_headers = (case token of Some (c # cs) \<Rightarrow> [(py ''Authorization'', py ''Bearer '' @ c # cs)] | _ \<Rightarrow> []),
     sent_document = body\<rparr>"

definition call_gateway :: "host \<Rightarrow> operator_proof \<Rightarrow> string \<Rightarrow> pystr \<Rightarrow> pystr option \<Rightarrow> json option \<Rightarrow> (int \<times> jobj) client" where
  "call_gateway host p verb path token body =
    Ask (Http_Call (call_of p verb path token body)) (\<lambda>r.
      case r of
        Response (Inl e) \<Rightarrow> throw e
      | Response (Inr response) \<Rightarrow>
          bind_p (Finish (response_object host response)) (\<lambda>ob. give (got_status response, ob))
      | _ \<Rightarrow> throw AssertionError)"

definition require :: "bool \<Rightarrow> string \<Rightarrow> unit client" where
  "require c message = check_p c (ProofError message)"

definition task_entry :: "bool \<Rightarrow> string \<Rightarrow> json" where
  "task_entry available name = JObj
    [(py ''id'', JStr (py name)), (py ''version'', JInt 1),
     (py ''status'', JStr (py (if available then ''available'' else ''unavailable''))),
     (py ''diagnostic_code'', JStr (py (if available then ''ready'' else ''worker_unavailable'')))]"

definition health_expected :: "operator_proof \<Rightarrow> bool \<Rightarrow> (pystr \<times> json list) list" where
  "health_expected p available =
    [(email_token p, map (task_entry available) [''email.analyze'', ''email.schedule.extract'']),
     (document_token p, map (task_entry available) [''document.summary.step'']),
     (invoice_token p, map (task_entry available) [''invoice.extract.batch''])]"

definition live_expected :: json where
  "live_expected = JObj [(py ''protocol_version'', JInt 1), (py ''status'', JStr (py ''live''))]"

definition proof_health :: "host \<Rightarrow> operator_proof \<Rightarrow> bool \<Rightarrow> unit client" where
  "proof_health host p available =
    bind_p (call_gateway host p ''GET'' (py ''/health/live'') None None) (\<lambda>(status, live).
    bind_p (require (status = 200 \<and> py_equal (JObj live) live_expected) ''liveness response is incompatible'') (\<lambda>_.
    bind_p (each_p (\<lambda>(token, tasks).
        bind_p (call_gateway host p ''GET'' (py ''/v1/health'') (Some token) None) (\<lambda>(status, health).
        require (status = 200 \<and>
            py_equal (JObj health) (JObj [(py ''protocol_version'', JInt 1), (py ''tasks'', JList tasks)]))
          ''credential-scoped health is incompatible'')) (health_expected p available)) (\<lambda>_.
    emit_event ''health'' [(py ''status'', JStr (py (if available then ''available'' else ''worker_unavailable'')))])))"

subsection \<open>An inference and its acknowledgement\<close>

text \<open>What the script looks up in the request it sent: its field and the expected value.\<close>

definition request_field :: "jobj \<Rightarrow> (json \<times> json) result" where
  "request_field request =
    (let schema = item (item (Inr (JObj request)) ''generation'') ''response_schema''
     in bind_res (first_item (item schema ''required'')) (\<lambda>field.
        bind_res (first_item (item (bind_res (item schema ''properties'') (\<lambda>v. subscript v field)) ''enum'')) (\<lambda>expected.
        Inr (field, expected))))"

definition completed_head :: "jobj \<Rightarrow> int \<Rightarrow> jobj \<Rightarrow> jobj result" where
  "completed_head request outcome response =
    bind_res (check (outcome = 200 \<and> py_equal (jget response ''protocol_version'') (JInt 1))
      (ProofError ''inference did not complete'')) (\<lambda>_.
    bind_res (item (Inr (JObj request)) ''request_id'') (\<lambda>rid.
    bind_res (check (py_equal (jget response ''request_id'') rid \<and>
        py_equal (jget response ''status'') (JStr (py ''completed'')))
      (ProofError ''inference did not complete'')) (\<lambda>_.
    case jget response ''output'' of
      JObj ob \<Rightarrow> Inr ob
    | _ \<Rightarrow> proof_error ''inference did not complete'')))"

definition generated_value :: "host \<Rightarrow> jobj \<Rightarrow> json result" where
  "generated_value host ob =
    map_sum (\<lambda>e. if e = TypeError \<or> is_value_error e then ProofError ''inference output is invalid'' else e) id
      (case map_of ob (py ''content'') of
         None \<Rightarrow> text_loads host []
       | Some (JStr s) \<Rightarrow> text_loads host s
       | _ \<Rightarrow> Inl TypeError)"

text \<open>\<open>generated != {field: expected}\<close>; no JSON object has a key that is no string.\<close>

definition generated_ok :: "json \<Rightarrow> json \<Rightarrow> json \<Rightarrow> bool" where
  "generated_ok generated field expected =
    (case field of JStr k \<Rightarrow> py_equal generated (JObj [(k, expected)]) | _ \<Rightarrow> False)"

definition output_ok :: "host \<Rightarrow> jobj \<Rightarrow> int \<Rightarrow> jobj \<Rightarrow> unit result" where
  "output_ok host request outcome response =
    bind_res (completed_head request outcome response) (\<lambda>ob.
    bind_res (request_field request) (\<lambda>(field, expected).
    bind_res (generated_value host ob) (\<lambda>generated.
    check (py_equal (jget ob ''media_type'') (JStr (py ''application/json'')) \<and> generated_ok generated field expected)
      (ProofError ''inference output is invalid''))))"

text \<open>\<open>round\<close>: to the nearest integer, ties to the even one.\<close>

definition round_even :: "rat \<Rightarrow> int" where
  "round_even x =
    (let f = \<lfloor>x\<rfloor>; d = x - of_int f
     in if d < 1 / 2 \<or> d = 1 / 2 \<and> even f then f else f + 1)"

definition infer_call :: "operator_proof \<Rightarrow> pystr \<Rightarrow> jobj \<Rightarrow> client_call" where
  "infer_call p token request = call_of p ''POST'' (py ''/v1/inference'') (Some token) (Some (JObj request))"

definition proof_completed :: "host \<Rightarrow> operator_proof \<Rightarrow> pystr \<Rightarrow> jobj \<Rightarrow> jobj client" where
  "proof_completed host p token request =
    bind_p read_timer (\<lambda>started.
    bind_p (call_gateway host p ''POST'' (py ''/v1/inference'') (Some token) (Some (JObj request))) (\<lambda>(status, response).
    bind_p (Finish (output_ok host request status response)) (\<lambda>_.
    bind_p (Finish (item (item (Inr (JObj request)) ''task'') ''id'')) (\<lambda>name.
    bind_p (Finish (item (Inr (JObj request)) ''request_id'')) (\<lambda>rid.
    bind_p read_timer (\<lambda>ended.
    bind_p (emit_event ''inference'' [(py ''task'', name), (py ''request_id'', rid), (py ''status'', JStr (py ''completed'')),
        (py ''elapsed_ms'', JInt (round_even ((ended - started) * 1000)))]) (\<lambda>_.
    give response)))))))"

text \<open>\<open>str\<close> of an identifier; of a value that is no text it is a parameter.\<close>

definition text_of :: "(json \<Rightarrow> pystr) \<Rightarrow> json \<Rightarrow> pystr" where
  "text_of display v = (case v of JStr s \<Rightarrow> s | _ \<Rightarrow> display v)"

definition acknowledged_expected :: "json \<Rightarrow> json" where
  "acknowledged_expected rid = JObj
    [(py ''protocol_version'', JInt 1), (py ''request_id'', rid), (py ''status'', JStr (py ''acknowledged'')),
     (py ''disposition'', JStr (py ''persisted''))]"

definition failed_expected :: "json \<Rightarrow> string \<Rightarrow> json" where
  "failed_expected rid code = JObj
    [(py ''protocol_version'', JInt 1), (py ''request_id'', rid), (py ''status'', JStr (py ''failed'')),
     (py ''error'', JObj [(py ''code'', JStr (py code)), (py ''retryable'', JBool False)])]"

definition ack_path :: "(json \<Rightarrow> pystr) \<Rightarrow> json \<Rightarrow> pystr" where
  "ack_path display rid = py ''/v1/inference/'' @ text_of display rid @ py ''/ack''"

definition ack_document :: "json \<Rightarrow> jobj" where
  "ack_document rid =
    [(py ''protocol_version'', JInt 1), (py ''request_id'', rid), (py ''disposition'', JStr (py ''persisted''))]"

definition proof_acknowledge :: "host \<Rightarrow> (json \<Rightarrow> pystr) \<Rightarrow> operator_proof \<Rightarrow> pystr \<Rightarrow> jobj \<Rightarrow> unit client" where
  "proof_acknowledge host display p token request =
    bind_p (Finish (item (Inr (JObj request)) ''request_id'')) (\<lambda>rid.
    bind_p (call_gateway host p ''POST'' (ack_path display rid) (Some token) (Some (JObj (ack_document rid)))) (\<lambda>(status, response).
    bind_p (require (status = 200 \<and> py_equal (JObj response) (acknowledged_expected rid)) ''acknowledgement failed'') (\<lambda>_.
    bind_p (call_gateway host p ''POST'' (py ''/v1/inference'') (Some token) (Some (JObj request))) (\<lambda>(status, response).
    require (status = 410 \<and> py_equal (JObj response) (failed_expected rid ''unknown_request''))
      ''acknowledgement finalization failed''))))"

subsection \<open>The phases\<close>

definition grants :: "operator_proof \<Rightarrow> (pystr \<times> string list) list" where
  "grants p = [(email_token p, [''email.analyze'', ''email.schedule.extract'']),
     (document_token p, [''document.summary.step'']), (invoice_token p, [''invoice.extract.batch''])]"

definition pairs :: "operator_proof \<Rightarrow> bool \<Rightarrow> (pystr \<times> pystr) list" where
  "pairs p granted = List.concat (map (\<lambda>(token, allowed).
     map (Pair token) (filter (\<lambda>name. (name \<in> set (map py allowed)) = granted) (map fst TASKS))) (grants p))"

definition proof_forbidden :: "host \<Rightarrow> operator_proof \<Rightarrow> pystr \<times> pystr \<Rightarrow> unit client" where
  "proof_forbidden host p = (\<lambda>(token, name).
    bind_p (new_request name 600) (\<lambda>request.
    bind_p (call_gateway host p ''POST'' (py ''/v1/inference'') (Some token) (Some (JObj request))) (\<lambda>(status, response).
    bind_p (Finish (item (Inr (JObj request)) ''request_id'')) (\<lambda>rid.
    require (status = 403 \<and> py_equal (JObj response) (failed_expected rid ''forbidden''))
      ''cross-credential task access did not fail closed''))))"

definition proof_granted :: "host \<Rightarrow> (json \<Rightarrow> pystr) \<Rightarrow> operator_proof \<Rightarrow> pystr \<times> pystr \<Rightarrow> unit client" where
  "proof_granted host display p = (\<lambda>(token, name).
    bind_p (new_request name 600) (\<lambda>request.
    bind_p (proof_completed host p token request) (\<lambda>first.
    bind_p (proof_completed host p token request) (\<lambda>again.
    bind_p (require (py_equal (JObj again) (JObj first)) ''exact replay changed the result'') (\<lambda>_.
    bind_p (proof_acknowledge host display p token request) (\<lambda>_.
    emit_event ''acknowledgement'' [(py ''task'', JStr name), (py ''status'', JStr (py ''acknowledged''))]))))))"

definition proof_run :: "host \<Rightarrow> (json \<Rightarrow> pystr) \<Rightarrow> operator_proof \<Rightarrow> unit client" where
  "proof_run host display p =
    bind_p (proof_health host p True) (\<lambda>_.
    bind_p (each_p (proof_forbidden host p) (pairs p False)) (\<lambda>_.
    bind_p (emit_event ''authorization'' [(py ''status'', JStr (py ''forbidden''))]) (\<lambda>_.
    each_p (proof_granted host display p) (pairs p True))))"

definition write_state :: "host \<Rightarrow> pystr \<Rightarrow> jobj \<Rightarrow> unit client" where
  "write_state host path request =
    bind_p (Ask (Prepare_Directory path) (\<lambda>r. case r of Mode x \<Rightarrow> Finish x | _ \<Rightarrow> throw AssertionError)) (\<lambda>mode.
    bind_p (require (\<not> (posix host \<and> mode AND GROUP_OTHER_ALL \<noteq> 0)) ''restart state directory must be owner-private'') (\<lambda>_.
    bind_p (Ask (Create_State path request) (\<lambda>r. case r of Created x \<Rightarrow> Finish x | _ \<Rightarrow> throw AssertionError)) (\<lambda>created.
    require created ''restart state file already exists'')))"

definition restart_task :: json where
  "restart_task = JObj [(py ''id'', JStr (py ''document.summary.step'')), (py ''version'', JInt 1)]"

definition read_state :: "host \<Rightarrow> pystr \<Rightarrow> jobj client" where
  "read_state host path =
    bind_p (if posix host
        then Ask (Stat_State path) (\<lambda>r. case r of Mode x \<Rightarrow> Finish x | _ \<Rightarrow> throw AssertionError) else give 0) (\<lambda>mode.
    bind_p (require (mode AND GROUP_OTHER_ALL = 0) ''restart state file must be owner-private'') (\<lambda>_.
    bind_p (try_except
        (bind_p (Ask (Read_State path) (\<lambda>r. case r of State_Text x \<Rightarrow> Finish x | _ \<Rightarrow> throw AssertionError)) (\<lambda>s.
         Finish (text_loads host s)))
        (\<lambda>e. throw (if e = OSError \<or> is_value_error e \<or> e = RecursionError
          then ProofError ''restart state is invalid'' else e))) (\<lambda>document.
    case document of
      JObj request \<Rightarrow>
        if py_equal (jget request ''task'') restart_task then give request else throw (ProofError ''restart state is invalid'')
    | _ \<Rightarrow> throw (ProofError ''restart state is invalid''))))"

subsection \<open>The command line\<close>

datatype proof_phase = Run_Proof | Prepare_Restart | Reconcile_Restart

record proof_arguments =
  chosen_phase :: proof_phase
  base_url_argument :: pystr
  ca_file :: pystr
  email_token_file :: pystr
  document_token_file :: pystr
  invoice_token_file :: pystr
  restart_state_file :: "pystr option"

definition make_proof :: "host \<Rightarrow> (pystr \<Rightarrow> bool) \<Rightarrow> proof_arguments \<Rightarrow> operator_proof result" where
  "make_proof host unsafe args =
    bind_res (application_token host (email_token_file args)) (\<lambda>email.
    bind_res (application_token host (document_token_file args)) (\<lambda>document.
    bind_res (application_token host (invoice_token_file args)) (\<lambda>invoice.
    bind_res (check (distinct [email, document, invoice]) (ProofError ''application credentials must be distinct'')) (\<lambda>_.
    bind_res (origin unsafe (base_url_argument args)) (\<lambda>base.
    Inr \<lparr>email_token = email, document_token = document, invoice_token = invoice, proof_base = base\<rparr>)))))"

definition proof_phase_program ::
    "host \<Rightarrow> (json \<Rightarrow> pystr) \<Rightarrow> proof_phase \<Rightarrow> pystr \<Rightarrow> operator_proof \<Rightarrow> unit client" where
  "proof_phase_program host display phase path p =
    (case phase of
       Run_Proof \<Rightarrow> proof_run host display p
     | Prepare_Restart \<Rightarrow>
         bind_p (proof_health host p True) (\<lambda>_.
         bind_p (new_request (py ''document.summary.step'') 900) (\<lambda>request.
         bind_p (write_state host path request) (\<lambda>_.
         bind_p (proof_completed host p (document_token p) request) (\<lambda>_.
         bind_p (Finish (item (Inr (JObj request)) ''request_id'')) (\<lambda>rid.
         emit_event ''restart_prepare'' [(py ''request_id'', rid), (py ''status'', JStr (py ''retained''))])))))
     | Reconcile_Restart \<Rightarrow>
         bind_p (proof_health host p False) (\<lambda>_.
         bind_p (read_state host path) (\<lambda>request.
         bind_p (proof_completed host p (document_token p) request) (\<lambda>_.
         bind_p (proof_acknowledge host display p (document_token p) request) (\<lambda>_.
         bind_p (Finish (item (Inr (JObj request)) ''request_id'')) (\<lambda>rid.
         emit_event ''restart_reconcile'' [(py ''request_id'', rid), (py ''status'', JStr (py ''acknowledged''))]))))))"

definition proof_main :: "host \<Rightarrow> (pystr \<Rightarrow> bool) \<Rightarrow> (json \<Rightarrow> pystr) \<Rightarrow> proof_arguments \<Rightarrow> int client" where
  "proof_main host unsafe display args =
    bind_p (require (chosen_phase args = Run_Proof \<or> restart_state_file args \<noteq> None)
      ''restart phases require --restart-state-file'') (\<lambda>_.
    bind_p (Finish (make_proof host unsafe args)) (\<lambda>p.
    bind_p (settle (Open_Client (proof_base p) (ca_file args))) (\<lambda>_.
    bind_p (try_finally
        (proof_phase_program host display (chosen_phase args)
          (case restart_state_file args of Some path \<Rightarrow> path | None \<Rightarrow> []) p)
        (settle Close_Client)) (\<lambda>_.
    give 0))))"

end
