(* ===== verification/Script_Runs.thy ===== *)
theory Script_Runs
  imports Proof_Script "HOL-Library.Sublist"
begin

text \<open>
  What a run of the operator's script that ends without an error has seen: rules for the
  histories of successful runs, and the exchanges that each step of the script leaves behind.
\<close>

type_synonym exchange = "client_question \<times> client_reply"

definition passes :: "'a client \<Rightarrow> ('a \<Rightarrow> exchange list \<Rightarrow> bool) \<Rightarrow> exchange list \<Rightarrow> bool" where
  "passes p R h = wp (logged (\<lambda>_ _. True)) p (\<lambda>x l. \<forall>v. x = Inr v \<longrightarrow> R v l) h"

named_theorems passes_intros \<open>histories of successful runs\<close>

lemma passes_play:
  "passes p R [] \<Longrightarrow> play p rs () = (qs, (), Some (Inr v)) \<Longrightarrow> length qs \<le> length rs \<Longrightarrow> R v (zip qs rs)"
  unfolding passes_def
  by (drule logged_play) (auto simp: list_all2_conv_all_nth)

lemma play_enough: "play p rs s = (qs, s', Some x) \<Longrightarrow> length qs \<le> length rs"
proof (induction p arbitrary: rs s qs)
  case (Ask q k)
  then show ?case by (auto split: list.splits prod.splits) blast
next
  case (Change u k)
  then show ?case by simp blast
qed simp

lemma passes_mono: "passes p R h \<Longrightarrow> (\<And>v l. R v l \<Longrightarrow> R' v l) \<Longrightarrow> passes p R' h"
  unfolding passes_def by (erule wp_mono [rotated]) blast

lemma passes_give [passes_intros]: "R v h \<Longrightarrow> passes (give v) R h"
  by (simp add: passes_def)

lemma passes_throw [passes_intros]: "passes (throw e) R h"
  by (simp add: passes_def)

lemma passes_finish [passes_intros]: "(\<And>v. m = Inr v \<Longrightarrow> R v h) \<Longrightarrow> passes (Finish m) R h"
  by (simp add: passes_def)

lemma passes_ask: "(\<And>r. passes (k r) R (h @ [(q, r)])) \<Longrightarrow> passes (Ask q k) R h"
  by (simp add: passes_def)

lemma passes_bind [passes_intros]: "passes p (\<lambda>v l. passes (f v) R l) h \<Longrightarrow> passes (bind_p p f) R h"
  unfolding passes_def wp_bind by (erule wp_mono [rotated]) (auto split: sum.split)

lemma passes_require [passes_intros]: "(c \<Longrightarrow> R () h) \<Longrightarrow> passes (require c message) R h"
  by (simp add: passes_def require_def check_p_def)

lemma passes_settle: "(\<And>r. R () (h @ [(q, r)])) \<Longrightarrow> passes (settle q) R h"
  unfolding settle_def by (rule passes_ask) (auto simp: passes_def split: client_reply.split)

lemma passes_emit [passes_intros]: "(\<And>q r. R () (h @ [(q, r)])) \<Longrightarrow> passes (emit_event event details) R h"
  unfolding emit_event_def by (rule passes_settle)

lemma passes_reads [passes_intros]:
  "(\<And>s r. R s (h @ [(Next_Uuid, r)])) \<Longrightarrow> passes draw_uuid R h"
  "(\<And>t r. R' t (h @ [(Read_Utc, r)])) \<Longrightarrow> passes read_utc R' h"
  "(\<And>t r. R'' t (h @ [(Read_Timer, r)])) \<Longrightarrow> passes read_timer R'' h"
  unfolding draw_uuid_def read_utc_def read_timer_def
  by (rule passes_ask, auto simp: passes_def split: client_reply.split)+

text \<open>A program only adds to the history, and a loop keeps what each round establishes.\<close>

lemma wp_extends:
  "wp (logged (\<lambda>_ _. True)) p Q h \<Longrightarrow> wp (logged (\<lambda>_ _. True)) p (\<lambda>x l. Q x l \<and> prefix h l) h"
proof (induction p arbitrary: h)
  case (Ask q k)
  have "wp (logged (\<lambda>_ _. True)) (k r) (\<lambda>x l. Q x l \<and> prefix h l) (h @ [(q, r)])" for r
  proof (rule wp_mono)
    show "wp (logged (\<lambda>_ _. True)) (k r) (\<lambda>x l. Q x l \<and> prefix (h @ [(q, r)]) l) (h @ [(q, r)])"
      using Ask by simp
  qed (auto dest: append_prefixD)
  then show ?case by simp
qed simp_all

lemma passes_extends: "passes p R h \<Longrightarrow> passes p (\<lambda>v l. R v l \<and> prefix h l) h"
  unfolding passes_def by (drule wp_extends) (erule wp_mono [rotated], blast)

lemma passes_any: "(\<And>v l. R v l) \<Longrightarrow> passes p R h"
proof -
  have "wp (logged (\<lambda>_ _. True)) p (\<lambda>_ _. True) h" for p :: "'a client" and h by (induction p arbitrary: h) auto
  then show "(\<And>v l. R v l) \<Longrightarrow> passes p R h" unfolding passes_def by (blast intro: wp_mono)
qed

lemma passes_then:
  assumes "passes p (\<lambda>_ l. P l) h" "\<And>l m. P l \<Longrightarrow> P (l @ m)" "\<And>v l. passes (f v) R l"
  shows "passes (bind_p p f) (\<lambda>v l. P l \<and> R v l) h"
proof -
  have rest: "passes (f v) (\<lambda>w l. P l \<and> R w l) l'" if "P l'" for v l'
    using passes_extends [OF assms(3) [of v l']]
    by (rule passes_mono) (use that assms(2) in \<open>auto simp: prefix_def\<close>)
  show ?thesis by (rule passes_bind, rule passes_mono [OF assms(1)]) (rule rest)
qed

lemma passes_each:
  assumes "\<And>x h. x \<in> set xs \<Longrightarrow> passes (f x) (\<lambda>_ l. P x l) h" "\<And>x l m. P x l \<Longrightarrow> P x (l @ m)"
  shows "passes (each_p f xs) (\<lambda>_ l. \<forall>x \<in> set xs. P x l) h"
  using assms(1)
proof (induction xs arbitrary: h)
  case (Cons y ys g)
  show ?case
    using passes_then [of "f y" "P y" g "\<lambda>_. each_p f ys" "\<lambda>_ l. \<forall>x \<in> set ys. P x l"] Cons assms(2) by simp
qed (simp add: passes_def)

subsection \<open>Exchanges\<close>

definition answered_as :: "host \<Rightarrow> client_reply \<Rightarrow> int \<Rightarrow> jobj \<Rightarrow> bool" where
  "answered_as host r code ob =
    (\<exists>response. r = Response (Inr response) \<and> got_status response = code \<and> response_object host response = Inr ob)"

lemma passes_call:
  assumes "\<And>r code ob. answered_as host r code ob \<Longrightarrow>
    R (code, ob) (h @ [(Http_Call (call_of p verb path token body), r)])"
  shows "passes (call_gateway host p verb path token body) R h"
  unfolding call_gateway_def
proof (rule passes_ask)
  fix r
  show "passes (case r of Response (Inl e) \<Rightarrow> throw e
      | Response (Inr response) \<Rightarrow> bind_p (Finish (response_object host response)) (\<lambda>ob. give (got_status response, ob))
      | _ \<Rightarrow> throw AssertionError) R (h @ [(Http_Call (call_of p verb path token body), r)])"
    using assms [of r]
    by (auto simp: answered_as_def intro!: passes_intros split: client_reply.split sum.split)
qed

lemma output_ok_code: "output_ok host request code ob = Inr () \<Longrightarrow> code = 200"
  by (auto simp: output_ok_def completed_head_def bind_res_eq_Inr)

lemma passes_completed:
  assumes "\<And>r code ob t t' e. answered_as host r code ob \<Longrightarrow> output_ok host request code ob = Inr () \<Longrightarrow>
    R ob (h @ [t, (Http_Call (infer_call p token request), r), t', e])"
  shows "passes (proof_completed host p token request) R h"
  unfolding proof_completed_def
  by (intro passes_intros passes_call, clarsimp, intro passes_intros)
    (use assms in \<open>auto simp: infer_call_def\<close>)

subsection \<open>A run that passes\<close>

definition refused_pair :: "host \<Rightarrow> operator_proof \<Rightarrow> pystr \<times> pystr \<Rightarrow> exchange list \<Rightarrow> bool" where
  "refused_pair host p pair l =
    (\<exists>warmth field expected rid expires r ob.
       map_of TASKS (snd pair) = Some (warmth, field, expected) \<and>
       (Http_Call (infer_call p (fst pair) (proof_document (snd pair) warmth field expected rid expires)), r) \<in> set l \<and>
       answered_as host r 403 ob \<and> py_equal (JObj ob) (failed_expected (JStr rid) ''forbidden''))"

definition served_pair :: "host \<Rightarrow> operator_proof \<Rightarrow> pystr \<times> pystr \<Rightarrow> exchange list \<Rightarrow> bool" where
  "served_pair host p pair l =
    (\<exists>warmth field expected rid expires r r' a z ob ob' answer gone.
       map_of TASKS (snd pair) = Some (warmth, field, expected) \<and>
       (let request = proof_document (snd pair) warmth field expected rid expires;
            call = Http_Call (infer_call p (fst pair) request);
            ack = Http_Call (call_of p ''POST'' (py ''/v1/inference/'' @ rid @ py ''/ack'') (Some (fst pair))
              (Some (JObj (ack_document (JStr rid)))))
        in subseq [(call, r), (call, r'), (ack, a), (call, z)] l \<and>
           answered_as host r 200 ob \<and> output_ok host request 200 ob = Inr () \<and>
           answered_as host r' 200 ob' \<and> py_equal (JObj ob') (JObj ob) \<and>
           answered_as host a 200 answer \<and> py_equal (JObj answer) (acknowledged_expected (JStr rid)) \<and>
           answered_as host z 410 gone \<and> py_equal (JObj gone) (failed_expected (JStr rid) ''unknown_request'')))"

lemma request_id_item: "item (Inr (JObj (proof_document name warmth field expected rid expires))) ''request_id'' = Inr (JStr rid)"
  by (simp add: item_def subscript_def proof_document_def)

lemma passes_new:
  assumes "\<And>warmth field expected rid expires t t'. map_of TASKS name = Some (warmth, field, expected) \<Longrightarrow>
    R (proof_document name warmth field expected rid expires) (h @ [t, t'])"
  shows "passes (new_request name seconds) R h"
  unfolding new_request_def using assms
  by (auto intro!: passes_intros split: option.split)

lemma forbidden_passes: "passes (proof_forbidden host p pair) (\<lambda>_ l. refused_pair host p pair l) h"
proof -
  obtain token name where pair: "pair = (token, name)" by fastforce
  show ?thesis
    unfolding pair proof_forbidden_def split
    by (intro passes_intros passes_new passes_call, clarsimp, intro passes_intros)
      (auto simp: request_id_item refused_pair_def infer_call_def)
qed

lemma subseq_four: "subseq [a, b, c, d] (h @ [s, s', t, a, t', e, u, b, u', e', c, d, w])"
proof -
  have "subseq [a, b, c, d] ([s, s', t] @ [a] @ [t', e, u] @ [b] @ [u', e'] @ [c, d] @ [w])"
    unfolding append.simps by (intro list_emb_Cons2 list_emb_Cons list_emb_Nil) (simp_all; fail)+
  then show ?thesis by (intro list_emb_append2) simp
qed

definition ack_call :: "operator_proof \<Rightarrow> pystr \<Rightarrow> pystr \<Rightarrow> client_call" where
  "ack_call p token rid = call_of p ''POST'' (py ''/v1/inference/'' @ rid @ py ''/ack'') (Some token)
     (Some (JObj (ack_document (JStr rid))))"

lemma passes_acknowledge:
  assumes "item (Inr (JObj request)) ''request_id'' = Inr (JStr rid)"
    and "\<And>a z answer gone. answered_as host a 200 answer \<Longrightarrow> py_equal (JObj answer) (acknowledged_expected (JStr rid)) \<Longrightarrow>
      answered_as host z 410 gone \<Longrightarrow> py_equal (JObj gone) (failed_expected (JStr rid) ''unknown_request'') \<Longrightarrow>
      R () (h @ [(Http_Call (ack_call p token rid), a), (Http_Call (infer_call p token request), z)])"
  shows "passes (proof_acknowledge host display p token request) R h"
  unfolding proof_acknowledge_def assms(1)
  by (intro passes_intros passes_call, clarsimp simp del: py_equal.simps, intro passes_intros passes_call,
      clarsimp simp del: py_equal.simps, intro passes_intros)
    (use assms(2) in \<open>auto simp: ack_path_def text_of_def ack_call_def infer_call_def simp del: py_equal.simps\<close>)

lemma granted_passes: "passes (proof_granted host display p pair) (\<lambda>_ l. served_pair host p pair l) h"
proof -
  obtain token name where pair: "pair = (token, name)" by fastforce
  have ok: "served_pair host p (token, name)
      (h @ [s, s', t, (Http_Call (infer_call p token request), r), t', e, u, (Http_Call (infer_call p token request), r'), u', e',
        (Http_Call (ack_call p token rid), a), (Http_Call (infer_call p token request), z), w])"
    if "map_of TASKS name = Some (warmth, field, expected)" "request = proof_document name warmth field expected rid expires"
      "answered_as host r code ob" "output_ok host request code ob = Inr ()"
      "answered_as host r' code' ob'" "output_ok host request code' ob' = Inr ()" "py_equal (JObj ob') (JObj ob)"
      "answered_as host a 200 answer" "py_equal (JObj answer) (acknowledged_expected (JStr rid))"
      "answered_as host z 410 gone" "py_equal (JObj gone) (failed_expected (JStr rid) ''unknown_request'')"
    for s s' t r t' e u r' u' e' a z w request rid expires warmth field expected code ob code' ob' answer gone
    unfolding served_pair_def fst_conv snd_conv Let_def
    using that output_ok_code [OF that(4)] output_ok_code [OF that(6)] subseq_four
    by (intro exI conjI) (assumption | simp only: ack_call_def | blast)+
  show ?thesis
    unfolding pair proof_granted_def split
    by (intro passes_bind passes_new passes_completed passes_require passes_acknowledge [OF request_id_item] passes_emit)
      (simp only: append_assoc append.simps, rule ok, (assumption | rule refl)+)
qed

lemma pairs_keep:
  "refused_pair host p pair l \<Longrightarrow> refused_pair host p pair (l @ m)"
  "served_pair host p pair l \<Longrightarrow> served_pair host p pair (l @ m)"
  unfolding refused_pair_def served_pair_def Let_def
  by (force, elim exE conjE) (intro exI conjI; (assumption | erule list_emb_prefix))

lemma run_passes:
  "passes (proof_run host display p) (\<lambda>_ l. (\<forall>pair \<in> set (pairs p False). refused_pair host p pair l) \<and>
    (\<forall>pair \<in> set (pairs p True). served_pair host p pair l)) h"
proof -
  have granted: "passes (each_p (proof_granted host display p) (pairs p True))
      (\<lambda>_ l. \<forall>pair \<in> set (pairs p True). served_pair host p pair l) g" for g
    by (rule passes_each [OF granted_passes pairs_keep(2)])
  have checks: "passes (bind_p (each_p (proof_forbidden host p) (pairs p False)) (\<lambda>_.
      bind_p (emit_event ''authorization'' [(py ''status'', JStr (py ''forbidden''))]) (\<lambda>_.
      each_p (proof_granted host display p) (pairs p True))))
     (\<lambda>_ l. (\<forall>pair \<in> set (pairs p False). refused_pair host p pair l) \<and>
       (\<forall>pair \<in> set (pairs p True). served_pair host p pair l)) g" for g
    by (rule passes_then, rule passes_each [OF forbidden_passes pairs_keep(1)])
      (auto intro: pairs_keep passes_bind passes_emit granted)
  show ?thesis unfolding proof_run_def by (rule passes_bind, rule passes_any, rule checks)
qed

end
