(* ===== verification/Script_Samples.thy ===== *)
theory Script_Samples
  imports Script_Runs Startup_Properties
begin

text \<open>
  A run of the operator's script that passes: the replies of a gateway, and the way from the
  replies of the parts of a program to those of the whole.
\<close>

subsection \<open>Programs on their replies\<close>

definition yields :: "'a client \<Rightarrow> client_reply list \<Rightarrow> 'a \<Rightarrow> bool" where
  "yields p rs v = (\<exists>qs. play p rs () = (qs, (), Some (Inr v)) \<and> length qs = length rs)"

lemma play_on_result:
  "play p rs s = (qs, s', Some x) \<Longrightarrow> length qs = length rs \<Longrightarrow>
    play (on_result p f) (rs @ rs') s = (case play (f x) rs' s' of (qs', s'', y) \<Rightarrow> (qs @ qs', s'', y))"
proof (induction p arbitrary: rs s qs)
  case (Ask q k)
  then show ?case by (auto split: list.splits prod.splits)
next
  case (Change u k)
  then show ?case by (simp add: rangeI)
qed simp

lemma yields_bind: "yields p rs x \<Longrightarrow> yields (f x) rs' v \<Longrightarrow> yields (bind_p p f) (rs @ rs') v"
  unfolding yields_def bind_p_def by (auto simp: play_on_result)

lemma yields_simple:
  "yields (give v) [] v" "m = Inr v \<Longrightarrow> yields (Finish m) [] v" "c \<Longrightarrow> yields (require c message) [] ()"
  "yields draw_uuid [Drawn s] s" "yields read_utc [Utc t] t" "yields read_timer [Timer x] x"
  "yields (emit_event event details) [Settled (Inr ())] ()"
  by (simp_all add: yields_def require_def check_p_def draw_uuid_def read_utc_def read_timer_def emit_event_def settle_def)

lemma yields_call: "answered_as host r code ob \<Longrightarrow> yields (call_gateway host p verb path token body) [r] (code, ob)"
  by (auto simp: answered_as_def yields_def call_gateway_def bind_p_def)

lemma yields_each: "(\<And>x. x \<in> set xs \<Longrightarrow> yields (f x) (g x) ()) \<Longrightarrow> yields (each_p f xs) (concat (map g xs)) ()"
proof (induction xs)
  case (Cons x xs)
  then show ?case by (auto intro!: yields_bind)
qed (simp add: yields_simple)

lemma yields_new:
  "map_of TASKS name = Some (warmth, field, expected) \<Longrightarrow> yields (new_request name seconds) [Drawn rid, Utc now]
    (proof_document name warmth field expected rid (timestamp (now + seconds * 1000000)))"
  by (simp add: yields_def new_request_def draw_uuid_def read_utc_def bind_p_def)

lemmas run_steps = yields_def call_gateway_def read_timer_def emit_event_def settle_def require_def check_p_def bind_p_def
  request_id_item

lemma yields_forbidden:
  assumes "map_of TASKS name = Some x" "answered_as host r 403 ob" "py_equal (JObj ob) (failed_expected (JStr rid) ''forbidden'')"
  shows "yields (proof_forbidden host p (token, name)) [Drawn rid, Utc now, r] ()"
  using assms
  by (cases x) (auto simp: run_steps answered_as_def proof_forbidden_def new_request_def draw_uuid_def read_utc_def
      simp del: py_equal.simps)

lemma yields_completed:
  assumes "answered_as host r 200 ob" "output_ok host (proof_document name warmth field expected rid expires) 200 ob = Inr ()"
  shows "yields (proof_completed host p token (proof_document name warmth field expected rid expires))
    [Timer 0, r, Timer 0, Settled (Inr ())] ob"
proof -
  let ?request = "proof_document name warmth field expected rid expires"
  have t: "item (item (Inr (JObj ?request)) ''task'') ''id'' = Inr (JStr name)"
    by (simp add: item_def subscript_def proof_document_def)
  show ?thesis using assms by (auto simp: run_steps answered_as_def proof_completed_def t)
qed

lemma yields_acknowledge:
  assumes "item (Inr (JObj request)) ''request_id'' = Inr (JStr rid)"
    "answered_as host a 200 answer" "py_equal (JObj answer) (acknowledged_expected (JStr rid))"
    "answered_as host z 410 gone" "py_equal (JObj gone) (failed_expected (JStr rid) ''unknown_request'')"
  shows "yields (proof_acknowledge host display p token request) [a, z] ()"
  using assms by (auto simp: run_steps answered_as_def proof_acknowledge_def simp del: py_equal.simps)

lemma yields_granted:
  assumes "map_of TASKS name = Some (warmth, field, expected)" "answered_as host r 200 ob"
    "\<And>expires. output_ok host (proof_document name warmth field expected rid expires) 200 ob = Inr ()"
    "py_equal (JObj ob) (JObj ob)"
    "answered_as host a 200 answer" "py_equal (JObj answer) (acknowledged_expected (JStr rid))"
    "answered_as host z 410 gone" "py_equal (JObj gone) (failed_expected (JStr rid) ''unknown_request'')"
  shows "yields (proof_granted host display p (token, name))
    ([Drawn rid, Utc now] @ [Timer 0, r, Timer 0, Settled (Inr ())] @ [Timer 0, r, Timer 0, Settled (Inr ())] @ [] @
      [a, z] @ [Settled (Inr ())]) ()"
  unfolding proof_granted_def split
  by (rule yields_bind, rule yields_new [OF assms(1)], rule yields_bind, rule yields_completed [OF assms(2,3)],
      rule yields_bind, rule yields_completed [OF assms(2,3)], rule yields_bind, rule yields_simple(3) [OF assms(4)],
      rule yields_bind, rule yields_acknowledge [OF request_id_item assms(5-8)], rule yields_simple(7))

subsection \<open>The answers\<close>

definition reply_of :: "int \<Rightarrow> pystr \<Rightarrow> client_reply" where
  "reply_of code body =
    Response (Inr \<lparr>got_status = code, got_media = Some (py ''application/json''), got_body = body\<rparr>)"

lemma reply_answers:
  "json_loads (script_hooks host) (host_nesting host) body = Inr (JObj ob) \<Longrightarrow> answered_as host (reply_of code body) code ob"
  by (simp add: answered_as_def reply_of_def response_object_def before_def py_def check_def)

fun fields_of :: "json \<Rightarrow> jobj" where
  "fields_of (JObj ob) = ob"
| "fields_of _ = []"

definition live_body :: pystr where "live_body = py ''{\"protocol_version\":1,\"status\":\"live\"}''"

definition entry_body :: "string \<Rightarrow> string" where
  "entry_body name = ''{\"id\":\"'' @ name @ ''\",\"version\":1,\"status\":\"available\",\"diagnostic_code\":\"ready\"}''"

definition health_body :: "string list \<Rightarrow> pystr" where
  "health_body names = py (''{\"protocol_version\":1,\"tasks\":['' @
     (case names of [a, b] \<Rightarrow> entry_body a @ '','' @ entry_body b | [a] \<Rightarrow> entry_body a) @ '']}'')"

definition health_document :: "string list \<Rightarrow> json" where
  "health_document names = JObj [(py ''protocol_version'', JInt 1), (py ''tasks'', JList (map (task_entry True) names))]"

definition failed_body :: "string \<Rightarrow> pystr" where
  "failed_body code = py (''{\"protocol_version\":1,\"request_id\":\"r\",\"status\":\"failed\",\"error\":{\"code\":\"'' @ code @
     ''\",\"retryable\":false}}'')"

definition ack_body :: pystr where
  "ack_body = py ''{\"protocol_version\":1,\"request_id\":\"r\",\"status\":\"acknowledged\",\"disposition\":\"persisted\"}''"

definition completed_body :: "pystr \<Rightarrow> pystr \<Rightarrow> pystr" where
  "completed_body field expected =
    py ''{\"protocol_version\":1,\"request_id\":\"r\",\"status\":\"completed\",\"output\":{\"media_type\":\"application/json\",\"content\":\"{'' @
    [92, 34] @ field @ [92, 34, 58, 92, 34] @ expected @ [92, 34] @ py ''}\"}}''"

definition content_text :: "pystr \<Rightarrow> pystr \<Rightarrow> pystr" where
  "content_text field expected = [123, 34] @ field @ [34, 58, 34] @ expected @ [34, 125]"

definition completed_answer :: "pystr \<Rightarrow> pystr \<Rightarrow> jobj" where
  "completed_answer field expected =
    [(py ''protocol_version'', JInt 1), (py ''request_id'', JStr (py ''r'')), (py ''status'', JStr (py ''completed'')),
     (py ''output'', JObj [(py ''media_type'', JStr (py ''application/json'')),
       (py ''content'', JStr (content_text field expected))])]"

lemma read_live: "json_loads (script_hooks sample_host) 900 live_body = Inr live_expected"
  by code_simp

lemma read_health:
  "json_loads (script_hooks sample_host) 900 (health_body [''email.analyze'', ''email.schedule.extract'']) =
    Inr (health_document [''email.analyze'', ''email.schedule.extract''])"
  "json_loads (script_hooks sample_host) 900 (health_body [''document.summary.step'']) =
    Inr (health_document [''document.summary.step''])"
  "json_loads (script_hooks sample_host) 900 (health_body [''invoice.extract.batch'']) =
    Inr (health_document [''invoice.extract.batch''])"
  by code_simp+

lemma read_failed:
  "json_loads (script_hooks sample_host) 900 (failed_body ''forbidden'') = Inr (failed_expected (JStr (py ''r'')) ''forbidden'')"
  "json_loads (script_hooks sample_host) 900 (failed_body ''unknown_request'') =
    Inr (failed_expected (JStr (py ''r'')) ''unknown_request'')"
  by code_simp+

lemma read_ack: "json_loads (script_hooks sample_host) 900 ack_body = Inr (acknowledged_expected (JStr (py ''r'')))"
  by code_simp

lemma read_completed: "list_all (\<lambda>(name, warmth, field, expected).
    json_loads (script_hooks sample_host) 900 (completed_body field expected) = Inr (JObj (completed_answer field expected))) TASKS"
  by code_simp

lemma read_content: "list_all (\<lambda>(name, warmth, field, expected).
    text_loads sample_host (content_text field expected) = Inr (JObj [(field, JStr expected)])) TASKS"
  by code_simp

subsection \<open>The run\<close>

definition sample_operator :: operator_proof where
  "sample_operator = \<lparr>email_token = replicate 32 97, document_token = replicate 32 98,
     invoice_token = replicate 32 99, proof_base = origin_url (V4 2130706433) 8787\<rparr>"

definition granted_replies :: "pystr \<times> pystr \<Rightarrow> client_reply list" where
  "granted_replies pair =
    (case map_of TASKS (snd pair) of
       None \<Rightarrow> []
     | Some (warmth, field, expected) \<Rightarrow>
         [Drawn (py ''r''), Utc 0] @
         [Timer 0, reply_of 200 (completed_body field expected), Timer 0, Settled (Inr ())] @
         [Timer 0, reply_of 200 (completed_body field expected), Timer 0, Settled (Inr ())] @ [] @
         [reply_of 200 ack_body, reply_of 410 (failed_body ''unknown_request'')] @ [Settled (Inr ())])"

lemma sample_nesting: "host_nesting sample_host = 900"
  by (simp add: sample_host_def)

lemma sample_output:
  assumes "(name, warmth, field, expected) \<in> set TASKS"
  shows "output_ok sample_host (proof_document name warmth field expected (py ''r'') expires) 200
    (completed_answer field expected) = Inr ()"
proof -
  have content: "text_loads sample_host (content_text field expected) = Inr (JObj [(field, JStr expected)])"
    using read_content [unfolded list_all_iff, THEN bspec, OF assms] by simp
  show ?thesis
    by (simp add: output_ok_def completed_head_def completed_answer_def jget_def check_def request_id_item
        request_field_def item_def first_item_def subscript_def list_index_def proof_document_def proof_schema_def
        generated_value_def content generated_ok_def Let_def)
qed

lemma sample_granted:
  assumes "map_of TASKS name = Some (warmth, field, expected)"
  shows "yields (proof_granted sample_host display sample_operator (token, name)) (granted_replies (token, name)) ()"
proof -
  have m: "(name, warmth, field, expected) \<in> set TASKS" by (rule map_of_SomeD [OF assms])
  have body: "json_loads (script_hooks sample_host) 900 (completed_body field expected) = Inr (JObj (completed_answer field expected))"
    using read_completed [unfolded list_all_iff, THEN bspec, OF m] by simp
  have answers: "answered_as sample_host (reply_of 200 (completed_body field expected)) 200 (completed_answer field expected)"
      "answered_as sample_host (reply_of 200 ack_body) 200 (fields_of (acknowledged_expected (JStr (py ''r''))))"
      "answered_as sample_host (reply_of 410 (failed_body ''unknown_request'')) 410
        (fields_of (failed_expected (JStr (py ''r'')) ''unknown_request''))"
    using body read_ack read_failed(2)
    by (auto intro!: reply_answers simp: sample_nesting acknowledged_expected_def failed_expected_def)
  show ?thesis
    unfolding granted_replies_def snd_conv assms option.case prod.case
    by (rule yields_granted [OF assms answers(1) sample_output [OF m] _ answers(2) _ answers(3)])
      (simp_all add: completed_answer_def acknowledged_expected_def failed_expected_def)
qed

lemma sample_health:
  "yields (proof_health sample_host sample_operator True)
    [reply_of 200 live_body, reply_of 200 (health_body [''email.analyze'', ''email.schedule.extract'']),
     reply_of 200 (health_body [''document.summary.step'']), reply_of 200 (health_body [''invoice.extract.batch'']),
     Settled (Inr ())] ()"
proof -
  have answers: "answered_as sample_host (reply_of 200 live_body) 200 (fields_of live_expected)"
      "answered_as sample_host (reply_of 200 (health_body [''email.analyze'', ''email.schedule.extract''])) 200
        (fields_of (health_document [''email.analyze'', ''email.schedule.extract'']))"
      "answered_as sample_host (reply_of 200 (health_body [''document.summary.step''])) 200
        (fields_of (health_document [''document.summary.step'']))"
      "answered_as sample_host (reply_of 200 (health_body [''invoice.extract.batch''])) 200
        (fields_of (health_document [''invoice.extract.batch'']))"
    using read_live read_health
    by (auto intro!: reply_answers simp: sample_nesting live_expected_def health_document_def)
  then show ?thesis
    by (auto simp: run_steps answered_as_def proof_health_def health_expected_def live_expected_def health_document_def
        task_entry_def)
qed

lemma sample_run:
  obtains qs rs where "play (proof_run sample_host display sample_operator) rs () = (qs, (), Some (Inr ()))"
proof -
  have known: "\<exists>x. map_of TASKS (snd pair) = Some x" if "pair \<in> set (pairs sample_operator granted)" for pair granted
  proof -
    have "snd pair \<in> fst ` set TASKS" using that by (force simp: pairs_def)
    then obtain x where "(snd pair, x) \<in> set TASKS" by (metis imageE prod.collapse)
    then show ?thesis by (metis weak_map_of_SomeI)
  qed
  have refused: "answered_as sample_host (reply_of 403 (failed_body ''forbidden'')) 403
      (fields_of (failed_expected (JStr (py ''r'')) ''forbidden''))"
    using read_failed(1) by (auto intro!: reply_answers simp: sample_nesting failed_expected_def)
  have refusals: "yields (each_p (proof_forbidden sample_host sample_operator) (pairs sample_operator False))
      (concat (map (\<lambda>_. [Drawn (py ''r''), Utc 0, reply_of 403 (failed_body ''forbidden'')]) (pairs sample_operator False))) ()"
  proof (rule yields_each)
    fix pair
    assume "pair \<in> set (pairs sample_operator False)"
    then obtain x where "map_of TASKS (snd pair) = Some x" using known by blast
    then show "yields (proof_forbidden sample_host sample_operator pair)
        [Drawn (py ''r''), Utc 0, reply_of 403 (failed_body ''forbidden'')] ()"
      using yields_forbidden [of "snd pair" x, OF _ refused, of "py ''r''" sample_operator "fst pair" 0]
      by (simp add: failed_expected_def)
  qed
  have served: "yields (each_p (proof_granted sample_host display sample_operator) (pairs sample_operator True))
      (concat (map granted_replies (pairs sample_operator True))) ()"
  proof (rule yields_each)
    fix pair
    assume "pair \<in> set (pairs sample_operator True)"
    then obtain warmth field expected where "map_of TASKS (snd pair) = Some (warmth, field, expected)"
      using known by (metis prod_cases3)
    from sample_granted [OF this, of display "fst pair"]
    show "yields (proof_granted sample_host display sample_operator pair) (granted_replies pair) ()" by simp
  qed
  have "\<exists>rs. yields (proof_run sample_host display sample_operator) rs ()"
    unfolding proof_run_def
    by (rule exI, rule yields_bind [OF sample_health], rule yields_bind [OF refusals],
        rule yields_bind [OF yields_simple(7)], rule served)
  then show thesis using that by (auto simp: yields_def)
qed

end
