(* ===== verification/Script_Properties.thy ===== *)
theory Script_Properties
  imports Script_Samples
begin

text \<open>
  The properties of the operator's script: what a run that passes has shown of the gateway, and
  that the script and the gateway agree on the requests and the answers.
\<close>

subsection \<open>A run that passes\<close>

text \<open>
  C38: What a passing run of the operator's script shows of the gateway it called: every task was
  refused with 403 to the applications that were not granted it, and every granted one was
  completed with the expected output, replayed with the same response, acknowledged, and
  afterwards gone.
\<close>

theorem passing_run_shows:
  assumes "play (proof_run host display p) rs () = (qs, (), Some (Inr ()))"
  shows "(\<forall>pair \<in> set (pairs p False). refused_pair host p pair (zip qs rs)) \<and>
    (\<forall>pair \<in> set (pairs p True). served_pair host p pair (zip qs rs))"
  by (rule passes_play [OF run_passes assms play_enough [OF assms]])

theorem passing_run_shows_witness:
  "\<exists>qs rs. play (proof_run sample_host (\<lambda>_. []) sample_operator) rs () = (qs, (), Some (Inr ())) \<and>
    served_pair sample_host sample_operator (replicate 32 97, py ''email.analyze'') (zip qs rs)"
proof (rule sample_run [of "\<lambda>_. []"])
  fix qs rs
  assume run: "play (proof_run sample_host (\<lambda>_. []) sample_operator) rs () = (qs, (), Some (Inr ()))"
  have "(replicate 32 97, py ''email.analyze'') \<in> set (pairs sample_operator True)"
    by (simp add: pairs_def grants_def TASKS_def sample_operator_def)
  then show ?thesis using passing_run_shows [OF run] run by blast
qed

subsection \<open>The requests of the script\<close>

text \<open>The client writes the document as JSON text; the gateway reads its floats as decimals.\<close>

fun as_received :: "json \<Rightarrow> json" where
  "as_received (JFloat d) = JDec d"
| "as_received (JList vs) = JList (map as_received vs)"
| "as_received (JObj ob) = JObj (map (\<lambda>(k, v). (k, as_received v)) ob)"
| "as_received v = v"

definition received_request :: "pystr \<Rightarrow> pystr \<Rightarrow> datetime \<Rightarrow> int \<Rightarrow> jobj" where
  "received_request name rid now seconds =
    (case map_of TASKS name of
       None \<Rightarrow> []
     | Some (warmth, field, expected) \<Rightarrow>
         map (\<lambda>(k, v). (k, as_received v))
           (proof_document name warmth field expected rid (timestamp (now + seconds * 1000000))))"

lemma schema_bytes: "list_all (\<lambda>(name, warmth, field, expected).
   case encode_json_bytes True (JObj (proof_schema field expected)) of Inl e \<Rightarrow> False | Inr b \<Rightarrow> length b \<le> 200) TASKS"
  by code_simp

lemma schema_supported: "list_all (\<lambda>(name, warmth, field, expected).
   case validate_supported_schema None True True 1 0 (proof_schema field expected) of
     Inl e \<Rightarrow> False | Inr (v, r) \<Rightarrow> v \<le> MAX_PASSAGE_VALUES) TASKS"
  by code_simp

lemma schema_facts:
  "json_nodes (JObj (proof_schema field expected)) \<le> MAX_JSON_NODES" "json_depth (JObj (proof_schema field expected)) \<le> MAX_JSON_DEPTH"
  "passage_definitions (proof_schema field expected) = Inr None"
  "filter (\<lambda>(k, v). k \<noteq> py ''$defs'') (proof_schema field expected) = proof_schema field expected"
  "jget (proof_schema field expected) ''type'' = JStr (py ''object'')"
  "\<not> uses_passage_definitions (proof_schema field expected)" "\<not> is_bounded_root_object_choice (proof_schema field expected)"
  by (simp_all add: proof_schema_def MAX_JSON_NODES_def MAX_JSON_DEPTH_def passage_definitions_def jget_def
      uses_passage_definitions_def is_bounded_root_object_choice_def jhas_def)

lemma tasks_distinct: "map_of TASKS name = Some x \<longleftrightarrow> (name, x) \<in> set TASKS"
  by (rule map_of_eq_Some_iff [symmetric, THEN sym]) (simp add: TASKS_def)

lemma schema_shape:
  assumes "map_of TASKS name = Some (warmth, field, expected)" "check_schema (JObj (proof_schema field expected))"
    "map msg_role (messages g) = [py ''system'', py ''user'']" "response_schema g = proof_schema field expected"
  shows "validate_generation_shape check_schema g = Inr ()"
proof -
  have m: "(name, warmth, field, expected) \<in> set TASKS" using assms(1) by (rule map_of_SomeD)
  obtain b where b: "encode_json_bytes True (JObj (proof_schema field expected)) = Inr b" "length b \<le> 200"
    using schema_bytes [unfolded list_all_iff, THEN bspec, OF m] by (auto split: sum.splits)
  obtain v r where v: "validate_supported_schema None True True 1 0 (proof_schema field expected) = Inr (v, r)"
      "v \<le> MAX_PASSAGE_VALUES"
    using schema_supported [unfolded list_all_iff, THEN bspec, OF m] by (auto split: sum.splits)
  have s: "validate_json_shape (JObj (proof_schema field expected)) = Inr ()"
    using schema_facts(1,2) by (simp only: validate_json_shape_iff simp_thms)
  show ?thesis
    using assms(2,3) b v schema_facts(3-) [of field expected]
    by (simp add: validate_generation_shape_def assms(4) Let_def s MAX_SCHEMA_BYTES_def check_def)
qed

lemma tasks_ascii: "list_all (\<lambda>(name, warmth, field, expected). task_id_ok name \<and> list_all (\<lambda>c. c < 128) (field @ expected) \<and>
    length field \<le> 100 \<and> length expected \<le> 100) TASKS"
  by (simp add: TASKS_def task_id_ok_def is_lower_def is_digit_def py_def)

lemma tasks_policy: "list_all (\<lambda>(name, warmth, field, expected). 0 \<le> dec_value warmth \<and> dec_value warmth \<le> 1 \<and>
    (case map_of TASK_POLICIES (name, 1) of None \<Rightarrow> False | Some policy \<Rightarrow>
      dec_value (policy_temperature policy) = dec_value warmth \<and> 64 \<le> policy_max_output_tokens policy)) TASKS"
  by (simp add: TASKS_def TASK_POLICIES_def DOCUMENT_TASK_V2_def DOCUMENT_MAX_OUTPUT_TOKENS_def dec_value_def power_int_minus)

lemma received_generation:
  assumes "map_of TASKS name = Some (warmth, field, expected)" "check_schema (JObj (proof_schema field expected))"
    "dec_value (to_float warmth) = dec_value warmth"
  shows "\<exists>g. validate_generation to_float check_schema
      [(py ''messages'', JList
          [JObj [(py ''role'', JStr (py ''system'')),
             (py ''content'', JStr (py ''Return only JSON; set '' @ field @ py '' to '' @ expected @ [46]))],
           JObj [(py ''role'', JStr (py ''user'')),
             (py ''content'', JStr (py ''Synthetic operational transport proof.''))]]),
        (py ''temperature'', JDec warmth),
        (py ''seed'', JInt 7),
        (py ''response_schema'', JObj (proof_schema field expected))] = Inr g \<and>
      response_schema g = proof_schema field expected \<and> temperature g = to_float warmth"
proof -
  have m: "(name, warmth, field, expected) \<in> set TASKS" using assms(1) by (rule map_of_SomeD)
  have range: "0 \<le> dec_value warmth" "dec_value warmth \<le> 1"
    using tasks_policy [unfolded list_all_iff, THEN bspec, OF m] by auto
  have words: "is_unicode (py ''Return only JSON; set '' @ field @ py '' to '' @ expected @ [46])"
     "length field \<le> 100" "length expected \<le> 100"
    using tasks_ascii [unfolded list_all_iff, THEN bspec, OF m]
    by (auto intro!: is_unicode_ascii simp: list_all_iff py_def)
  show ?thesis using words range assms(3) schema_shape [of name warmth field expected check_schema, OF assms(1,2)] 
     by (simp add: validate_generation_def only_fields_def check_def list_field_def jget_def jhas_def
        validate_message_def str_field_def temperature_field_def number_of_def int_field_def
        seed_field_def obj_field_def Let_def MAX_MESSAGE_CHARS_def)
qed

lemma written_expiry:
  assumes "clock_range t"
  shows "strptime_utc (timestamp t) = Some (dt_secs t * 1000000)" "rfc3339_shape (timestamp t)"
proof -
  show s: "strptime_utc (timestamp t) = Some (dt_secs t * 1000000)"
    using assms strptime_stamp [of "dt_secs t"] by (simp add: timestamp_def clock_range_def dt_year_def)
  show "rfc3339_shape (timestamp t)" using s by (auto simp: strptime_utc_def split: if_splits)
qed

lemma received_validated:
  assumes "map_of TASKS name = Some (warmth, field, expected)" "uuid4_text rid" "clock_range (now + seconds * 1000000)"
    "dec_value (to_float warmth) = dec_value warmth" "check_schema (JObj (proof_schema field expected))"
  obtains request where
    "validate_inference_request to_float check_schema (received_request name rid now seconds) = Inr request"
    "request_id request = rid" "task_of request = (name, 1)" "max_output_tokens (requirements request) = 64"
    "expires_at request = dt_secs (now + seconds * 1000000) * 1000000"
    "response_schema (generation request) = proof_schema field expected"
    "temperature (generation request) = to_float warmth"
proof -
  have m: "(name, warmth, field, expected) \<in> set TASKS" using assms(1) by (rule map_of_SomeD)
  have name: "task_id_ok name" using tasks_ascii [unfolded list_all_iff, THEN bspec, OF m] by auto
  note expiry = written_expiry [OF assms(3)]
  obtain g where g: "validate_generation to_float check_schema
      [(py ''messages'', JList
          [JObj [(py ''role'', JStr (py ''system'')),
             (py ''content'', JStr (py ''Return only JSON; set '' @ field @ py '' to '' @ expected @ [46]))],
           JObj [(py ''role'', JStr (py ''user'')),
             (py ''content'', JStr (py ''Synthetic operational transport proof.''))]]),
        (py ''temperature'', JDec warmth),
        (py ''seed'', JInt 7),
        (py ''response_schema'', JObj (proof_schema field expected))] = Inr g"
      "response_schema g = proof_schema field expected" "temperature g = to_float warmth"
    using received_generation [of name warmth field expected check_schema to_float] assms by blast
  have schema: "map (\<lambda>(k, v). (k, as_received v)) (proof_schema field expected) = proof_schema field expected"
    by (simp add: proof_schema_def)
  let ?request = "\<lparr>protocol_version = 1, request_id = rid, request_expires_at = timestamp (now + seconds * 1000000),
      task = \<lparr>task_id = name, task_version = 1\<rparr>,
      requirements = \<lparr>input_modalities = [py ''text''], output_media_type = py ''application/json'',
        structured_output = True, max_output_tokens = 64\<rparr>, generation = g\<rparr>"
  have "validate_inference_request to_float check_schema (received_request name rid now seconds) = Inr ?request"
    using g(1) name expiry assms(1,2)
    by (simp add: received_request_def proof_document_def schema validate_inference_request_def only_fields_def check_def
        jget_def str_field_def obj_field_def int_field_def validate_protocol_version_def PROTOCOL_VERSION_def
        validate_request_id_def validate_request_expiry_def validate_task_reference_def
        validate_requirements_def MAX_OUTPUT_TOKENS_def)
  then show thesis
    by (rule that) (use g(2,3) expiry in \<open>simp_all add: task_of_def expires_at_def\<close>)
qed

text \<open>
  C39: The gateway admits what the operator's script sends: each of its requests, as the gateway
  reads it, passes validation with the script's id, task and expiry, and until it expires the
  policy of a gateway that allows the lifetime refuses it exactly to the credentials without the
  task, with the 403 the script expects of them.
\<close>

theorem script_requests_admitted:
  assumes "map_of TASKS name = Some (warmth, field, expected)" "uuid4_text rid" "clock_range (now + seconds * 1000000)"
    "dec_value (to_float warmth) = dec_value warmth" "check_schema (JObj (proof_schema field expected))"
    "seconds \<le> request_max_lifetime_seconds (the_settings srv)" "now \<le> instant"
  shows "\<exists>request.
    validate_inference_request to_float check_schema (received_request name rid now seconds) = Inr request \<and>
    request_id request = rid \<and> task_of request = (name, 1) \<and>
    expires_at request = dt_secs (now + seconds * 1000000) * 1000000 \<and>
    (instant < expires_at request \<longrightarrow> validate_policy srv credential request instant =
      (if (name, 1) \<in> tasks credential then Inr () else Inl (failing ''forbidden'' False 403)))"
proof (rule received_validated [where to_float = to_float and check_schema = check_schema, OF assms(1-5)],
    intro exI conjI impI)
  fix request
  assume r: "task_of request = (name, 1)" "max_output_tokens (requirements request) = 64"
    "expires_at request = dt_secs (now + seconds * 1000000) * 1000000"
    "response_schema (generation request) = proof_schema field expected"
    "temperature (generation request) = to_float warmth" and late: "instant < expires_at request"
  have m: "(name, warmth, field, expected) \<in> set TASKS" using assms(1) by (rule map_of_SomeD)
  obtain policy where policy: "map_of TASK_POLICIES (name, 1) = Some policy"
      "dec_value (policy_temperature policy) = dec_value warmth" "64 \<le> policy_max_output_tokens policy"
    using tasks_policy [unfolded list_all_iff, THEN bspec, OF m] by (auto split: option.splits)
  have "now + seconds * 1000000 \<le> instant + request_max_lifetime_seconds (the_settings srv) * 1000000"
    using assms(6,7) by simp
  then have "expires_at request \<le> maximum_expiry (request_max_lifetime_seconds (the_settings srv)) instant"
    unfolding r(3) dt_secs_def maximum_expiry_def Let_def by (simp; linarith)
  then show "validate_policy srv credential request instant =
      (if (name, 1) \<in> tasks credential then Inr () else Inl (failing ''forbidden'' False 403))"
    using r late policy assms(4) schema_facts(6,7) [of field expected]
    by (simp add: validate_policy_def Let_def)
qed

theorem script_requests_admitted_witness:
  "\<exists>request. validate_inference_request id (\<lambda>_. True) (received_request (py ''email.analyze'') sample_id noon 600) = Inr request \<and>
    task_of request = (py ''email.analyze'', 1)"
proof -
  have "map_of TASKS (py ''email.analyze'') = Some (Dec False 1 (-1), py ''classification'', py ''synthetic'')"
    by (simp add: TASKS_def)
  moreover have "clock_range (noon + 600 * 1000000)"
    by (simp add: clock_range_def dt_year_def dt_secs_def calendar_eval)
  moreover have "600 \<le> request_max_lifetime_seconds (the_settings sample_service)"
    by (simp add: sample_service_def sample_settings_def)
  ultimately show ?thesis
    using script_requests_admitted [where name = "py ''email.analyze''" and rid = sample_id and now = noon and seconds = 600 and to_float = id
        and check_schema = "\<lambda>_. True" and srv = sample_service and instant = noon]
      sample_id_ok by fastforce
qed

text \<open>
  C40: On a task that is not granted, script and gateway agree: the gateway's service refuses the
  script's request at once, without touching the table, and the answer its route gives for that
  failure has the status and the document the script demands.
\<close>

theorem forbidden_answer_agrees:
  assumes "map_of TASKS name = Some (warmth, field, expected)" "uuid4_text rid" "clock_range (now + seconds * 1000000)"
    "dec_value (to_float warmth) = dec_value warmth" "check_schema (JObj (proof_schema field expected))"
    "(name, 1) \<notin> tasks credential"
  shows "\<exists>request failure response.
    validate_inference_request to_float check_schema (received_request name rid now seconds) = Inr request \<and>
    play (infer srv credential request) (Time instant # rs) g = ([Read_Clock], g, Some (Inl failure)) \<and>
    route_failure (Some rid) failure = give response \<and> response_status response = 403 \<and>
    py_equal (response_body response) (failed_expected (JStr rid) ''forbidden'')"
proof (rule received_validated [where to_float = to_float and check_schema = check_schema, OF assms(1-5)])
  fix request
  assume r: "validate_inference_request to_float check_schema (received_request name rid now seconds) = Inr request"
    "task_of request = (name, 1)"
  have refused: "validate_policy srv credential request instant = Inl (failing ''forbidden'' False 403)"
    using r(2) assms(6) by (simp add: validate_policy_def Let_def)
  have "play (infer srv credential request) (Time instant # rs) g =
      ([Read_Clock], g, Some (Inl (failing ''forbidden'' False 403)))"
    by (simp add: infer_def read_clock_def bind_p_def refused)
  moreover have "\<exists>response. route_failure (Some rid) (failing ''forbidden'' False 403) = give response \<and>
      response_status response = 403 \<and> py_equal (response_body response) (failed_expected (JStr rid) ''forbidden'')"
    using uuid4_unicode [OF assms(2)]
    by (simp add: route_failure_def failing_def failure_response_def json_response_def failed_expected_def
        PROTOCOL_VERSION_def is_unicode_ascii py_def)
  ultimately show ?thesis using r(1) by blast
qed

lemma mail_task: "map_of TASKS (py ''email.analyze'') = Some (Dec False 1 (-1), py ''classification'', py ''synthetic'')"
  by (simp add: TASKS_def)

theorem forbidden_answer_agrees_witness:
  "\<exists>response. route_failure (Some sample_id) (failing ''forbidden'' False 403) = give response \<and>
    response_status response = 403 \<and> py_equal (response_body response) (failed_expected (JStr sample_id) ''forbidden'')"
proof -
  let ?nobody = "sample_credential\<lparr>tasks := {}\<rparr>"
  have "clock_range (noon + 600 * 1000000)"
    by (simp add: clock_range_def dt_year_def dt_secs_def calendar_eval)
  from forbidden_answer_agrees [OF mail_task sample_id_ok this, where to_float = id and check_schema = "\<lambda>_. True"
      and credential = ?nobody and srv = sample_service and instant = noon and rs = "[]" and g = "idle_gateway []"]
  obtain request failure response where f:
      "play (infer sample_service ?nobody request) [Time noon] (idle_gateway []) = ([Read_Clock], idle_gateway [], Some (Inl failure))"
      "route_failure (Some sample_id) failure = give response" "response_status response = 403"
      "py_equal (response_body response) (failed_expected (JStr sample_id) ''forbidden'')" by auto
  have "failure = failing ''forbidden'' False 403"
    using f(1) by (simp add: infer_def read_clock_def bind_p_def validate_policy_def Let_def)
  then show ?thesis using f by blast
qed

end
