(* ===== verification/Spec2Isabelle.thy ===== *)
theory Spec2Isabelle
  imports Service_Properties Http_Properties Gateway_Deployment Startup_Properties Script_Properties
begin

text \<open>
  A verification development for the local inference gateway, a Python service that admits
  inference requests over HTTP, records each in an SQLite table, hands one at a time to a local
  model server, and keeps the encrypted result until the client acknowledges it.  Paths below are
  relative to \<open>src/src/local_inference_gateway/\<close>.

  \<^bold>\<open>How the program works.\<close>  \<open>__main__.main\<close> reads \<open>Settings\<close> from the environment
  (\<open>config.py\<close>) and calls \<open>create_app\<close> (\<open>app.py\<close>), which loads the credential and the key file,
  opens and recovers the database (\<open>store.py\<close>), and builds the workers (\<open>worker.py\<close>) and the
  service.  A route authenticates the caller, reads a bounded body, parses it with exact numbers
  and validates it (\<open>contracts.py\<close>), and calls \<open>GatewayService.infer\<close>.  That admits the request
  under its id and digest, takes the single lane, dispatches to the worker, and stores the result
  or the failure; a duplicate call waits for the running attempt or is answered from the table.
  Threads interleave between the store's transactions, the lane's lock, the clock and the worker.

  \<^bold>\<open>What models what.\<close>

  Shared: \<open>Gateway_Prelude\<close> (exceptions as the datatype \<open>exn\<close>, results \<open>exn + 'a\<close>, failing state
  transformers with roll-back, the collections \<open>result_simps\<close> and \<open>raises_intros\<close>),
  \<open>Gateway_Program\<close> (programs that ask the environment or change the shared state atomically;
  \<open>try\<close>, \<open>except\<close> and \<open>finally\<close> as combinators; weakest preconditions \<open>wp\<close> with the
  collection \<open>wp_rules\<close>; \<open>play\<close> runs a program on a list of replies), \<open>Program_Outcomes\<close>.
  \<open>Py_Text\<close>, \<open>Py_Lines\<close>, \<open>Py_Time\<close> and \<open>Py_Url\<close> model what the source uses of \<open>str\<close>,
  \<open>datetime\<close>, \<open>ipaddress\<close> and \<open>urllib.parse\<close> of Python 3.12.

  \<open>contracts.py\<close>: \<open>Json_Value\<close>, \<open>Json_Numbers\<close> and \<open>Json_Finite\<close> (documents; exact decimals; what the
  finite range check says of a number),
  \<open>Json_Parse\<close> (\<open>json.loads\<close> as CPython scans, \<open>parse_json_object\<close>), \<open>Json_Text\<close>
  (\<open>_encode_json\<close>, \<open>_validate_json_shape\<close>), \<open>Contracts_Schema\<close> (\<open>_passage_definitions\<close>,
  \<open>_validate_supported_schema\<close>), \<open>Contracts_Request\<close> (the pydantic models, field by field, and
  \<open>canonical_digest\<close>), \<open>Contracts_Digest\<close>, \<open>Decoder_Order\<close> (\<open>uses_decoder_field_order\<close>,
  \<open>decoder_schema\<close>), \<open>Contract_Properties\<close>.

  \<open>store.py\<close>: \<open>Result_Cipher\<close> (\<open>RequestRecord\<close>, \<open>ResultCipher\<close>), \<open>Request_Store\<close> (the table
  as the list of its rows, every method of \<open>RequestStore\<close> as one atomic transformer, the SQL
  \<open>UPDATE\<close>s over all rows with their row counts), \<open>Store_Initialize\<close> (\<open>initialize\<close>),
  \<open>Store_Contract\<close> (each operation on each branch), \<open>Store_Lifecycle\<close> (elementary table steps,
  the table invariant, the lifecycle of an id), \<open>Store_Refinement\<close> (the abstract ledger),
  \<open>Store_Properties\<close>.

  \<open>app.py\<close>: \<open>Service_Core\<close> (\<open>GatewayService\<close>, method by method, as programs), \<open>Service_Steps\<close>
  (the phases of a thread and what it keeps whatever the others do), \<open>Service_System\<close> (threads,
  maintenance and restarts as a step relation with counters), \<open>Service_Flow\<close> (undisturbed runs, and
  how many questions a call of \<open>infer\<close> asks and with which time limits),
  \<open>Service_Properties\<close>; \<open>Http_Application\<close> (authentication, bounded body, routes, maintenance
  loop), \<open>Http_Errors\<close> (which errors each transaction, the service and the routes may end with),
  \<open>Http_Properties\<close>; \<open>Gateway_Startup\<close> (\<open>create_app\<close>, and \<open>__main__.main\<close>).

  \<open>worker.py\<close>: \<open>Worker_Core\<close> (availability, context capacity, payload, submission, bounded
  answer, fallback), \<open>Worker_Runs\<close> and \<open>Worker_Traffic\<close> (the histories and the addressees of a
  run's calls), \<open>Worker_Properties\<close>; \<open>Gateway_Deployment\<close> joins the service to its workers.

  \<open>config.py\<close>: \<open>Gateway_Config\<close> (the credential document, \<open>authenticate\<close>, the settings
  records), \<open>Private_Files\<close> (private JSON, token, TLS and key files over a host that opens them),
  \<open>Config_Settings\<close> (\<open>_loopback_worker_url\<close>, every check of \<open>Settings\<close> and of the fallback,
  \<open>from_env\<close>); \<open>Url_Text\<close>, \<open>Startup_Checks\<close>, \<open>Startup_Errors\<close>, \<open>Startup_Samples\<close> and
  \<open>Startup_Properties\<close> say what a started gateway is known to satisfy.

  \<open>src/scripts/prove_operational_gateway.py\<close>: \<open>Proof_Script\<close> (the operator's client, all its
  phases, over its calls, clocks, state file and printed lines), \<open>Script_Runs\<close> (rules for the
  histories of successful runs), \<open>Script_Samples\<close>, \<open>Script_Properties\<close>.

  \<^bold>\<open>Interfaces.\<close>  The locale \<open>request_ledger\<close> (a step relation under which every id follows the
  lifecycle; interpreted as \<open>ledger\<close> on the table steps of the store), \<open>json_reader\<close> (JSON hooks
  whose errors are known; interpreted as \<open>exact_reader\<close> on the hooks of \<open>contracts.py\<close> and as
  \<open>plain_reader\<close> on plain \<open>json.loads\<close>) and \<open>inference_worker_protocol\<close> (what the service
  relies on in a worker: at most one submission per call, none taken when it reports
  \<open>WorkerUnavailable\<close>; interpreted as \<open>gateway_worker\<close> on the model of \<open>worker.py\<close>).

  \<^bold>\<open>What the theorems show.\<close>  End to end, over every interleaving of threads, duplicates,
  maintenance, restarts and network behaviour, a request id is executed by an inference server at
  most as often as it was reserved (\<open>at_most_once_execution\<close>, from \<open>worker_calls_accounted\<close> for the
  service, \<open>submission_accounted\<close> for the workers and \<open>store_invariants\<close> for the table); one
  worker call runs at a time, the lane is always released, and every call of \<open>infer\<close> ends after at
  most 14 questions, at most one of which blocks, with a time limit.  The store refines the ledger,
  and each change of a row is one its operation may make; its rows keep one id each, the capacity bounds and the shape of their
  state; settled requests stay settled, acknowledged and expired ones hold no output, what is
  stored reads back, a restart settles what was running.  A fresh request is dispatched once and
  a completed one replayed.  Two validated requests have one digest exactly when they agree; the
  schema check is equivalent to an inductive description of the subset; the decoder's schema is a
  reordering; the numbers of a body are exact and finite.  Every route but the liveness probe
  demands a credential; the \<open>POST\<close> routes answer every refusal of the store with a status of their
  list, but for three of a second look at the table.  A started gateway has settings in
  range, listens on loopback or on a private network behind TLS, talks to loopback servers only,
  and shows the fallback's token to nobody else; a failed start leaves the database alone unless it
  fails after the commit of \<open>initialize\<close>.  A
  passing run of the operator's script has seen each task refused, completed, replayed and
  acknowledged as granted, and its requests and expectations agree with the gateway's model.

  \<^bold>\<open>Bounds and fuel.\<close>  Programs are finite trees: a call of \<open>infer\<close> asks at most 14 questions.
  The JSON scanner has fuel \<open>2 * length + 1\<close>, which \<open>scan_fuel_enough\<close> proves to be enough.  The
  endless maintenance loop is modelled by its number of rounds.  The other recursions are
  structural or carry a termination proof.  Integers of Python are unbounded and are \<open>int\<close>.

  \<^bold>\<open>Parameters.\<close>  SHA-256, AES-GCM, the rounding to binary64, the meta-schema check and the
  validator of \<open>jsonschema\<close>, the Unicode NFKC table for delimiters in URLs, the recursion limit,
  the host that opens files, and the replies of clocks and servers.  What is assumed of them is a
  hypothesis of the theorem that needs it: that decryption inverts encryption, that a server's
  replies fit its calls and fail as httpx documents, that opening and reading a file raise
  \<open>OSError\<close> only, that rounding keeps the two temperatures of the script.  The I/O around the
  transaction of start-up is given by its results (\<open>disk\<close>), with the host as it is afterwards, where
  the fallback's token is read again; before that a host answers each file the same way.

  \<^bold>\<open>Not modelled.\<close>  FastAPI's routing, its conversion of path parameters and the lifespan that
  starts and cancels the maintenance task, and uvicorn: third-party code that the source only
  configures.  SQLite's connections, journal mode and file permissions: I/O around the
  transactions, present by its errors only.  A transaction is atomic; an error of the engine is
  \<open>OperationalError\<close>, raised by a transaction that does not begin, by a missing column and by the I/O of
  start-up.  The normalisation of \<open>Path\<close>: a path is its text.  The command-line parsing of
  \<open>argparse\<close> and the HTTP client of the operator's script: its model starts from the parsed
  arguments, and each call is a question with the response, or the exception, as the reply.
\<close>

end
